theory Spec2Isabelle
  imports Main "HOL-Library.Sublist"
begin

section \<open>Time\<close>

text \<open>
  A \<open>time.Time\<close> is an integer count of nanoseconds; \<open>time.Hour\<close> is a duration in the
  same unit. \<open>Truncate\<close> rounds down to a multiple of the duration and returns the time
  unchanged for a non-positive duration, as Go's \<open>Time.Truncate\<close> does. \<open>AddDate(0, 0, -n)\<close>
  is taken in UTC, where a calendar day is 24 hours.
\<close>

type_synonym time = int

definition Second :: int where
  "Second = 1000000000"

definition Hour :: int where
  "Hour = 3600 * Second"

definition Day :: int where
  "Day = 24 * Hour"

definition Truncate :: "time \<Rightarrow> int \<Rightarrow> time" where
  "Truncate t d = (if d \<le> 0 then t else t - t mod d)"

definition After :: "time \<Rightarrow> time \<Rightarrow> bool" where
  "After t u = (u < t)"

definition AddDays :: "time \<Rightarrow> int \<Rightarrow> time" where
  "AddDays t n = t + n * Day"

section \<open>Errors and formatting\<close>

datatype error = Error string

fun wrap :: "string \<Rightarrow> error \<Rightarrow> error" where
  "wrap msg (Error e) = Error (msg @ '': '' @ e)"

definition digit_char :: "nat \<Rightarrow> char" where
  "digit_char n = ''0123456789'' ! n"

function nat_digits :: "nat \<Rightarrow> string" where
  "nat_digits n =
     (if n < 10 then [digit_char n] else nat_digits (n div 10) @ [digit_char (n mod 10)])"
  by pat_completeness auto
termination
  by (relation "measure id") auto

declare nat_digits.simps [simp del]

definition Itoa :: "int \<Rightarrow> string" where
  "Itoa i = (if i < 0 then CHR ''-'' # nat_digits (nat (- i)) else nat_digits (nat i))"

section \<open>The persisted schema (database.go, initializeDB)\<close>

text \<open>
  One record per table row. A column without \<open>NOT NULL\<close> holds an option, \<open>None\<close> being
  SQL \<open>NULL\<close>. A table is the list of its rows; the \<open>seq_\<close> fields are the
  \<open>AUTOINCREMENT\<close> counters of \<open>sqlite_sequence\<close>.
\<close>

record device_row =
  dev_id :: int
  ip_address :: string
  mac_address :: "string option"
  hostname :: "string option"
  os_fingerprint :: "string option"
  dev_first_seen :: time
  dev_last_seen :: time

record port_row =
  port_id :: int
  device_id :: int
  port_number :: int
  protocol :: string
  service_name :: "string option"
  service_version :: "string option"
  port_first_seen :: time
  port_last_seen :: time

record scan_row =
  scan_id :: int
  scan_timestamp :: time
  template :: string
  duration :: "int option"
  devices_found :: "int option"
  ports_found :: "int option"
  status :: string
  error_message :: "string option"

record change_row =
  change_id :: int
  chg_scan_id :: int
  chg_device_id :: int
  change_type :: string
  details :: string
  chg_timestamp :: time

record log_row =
  log_id :: int
  level :: string
  message :: string
  component :: string
  log_timestamp :: time

record db =
  devices :: "device_row list"
  ports :: "port_row list"
  scans :: "scan_row list"
  changes :: "change_row list"
  logs :: "log_row list"
  seq_devices :: int
  seq_ports :: int
  seq_scans :: int
  seq_changes :: int
  seq_logs :: int

definition empty_db :: db where
  "empty_db = \<lparr>devices = [], ports = [], scans = [], changes = [], logs = [],
     seq_devices = 0, seq_ports = 0, seq_scans = 0, seq_changes = 0, seq_logs = 0\<rparr>"

text \<open>
  The statements the store executes. A connection is described by whether
  \<open>PRAGMA foreign_keys\<close> is in force on it (\<open>optimizeDB\<close> turns it on) and by which
  statements fail for a reason outside the tables (I/O, a busy file), with the driver's
  error text.
\<close>

datatype stmt =
    TxBegin | TxCommit | SelectMaxScan | InsertChange
  | SelectDeviceId | InsertDevice | DeviceInsertId | SelectDeviceOld | UpdateDevice
  | SelectPort | InsertPort | PortInsertId | UpdatePort
  | DeleteChanges | DeleteScans | DeleteDevices | DeleteLogs
  | InsertScan | ScanInsertId | UpdateScanRow | InsertLog

record conn =
  foreign_keys :: bool
  fault :: "stmt \<Rightarrow> string option"

definition healthy :: conn where
  "healthy = \<lparr>foreign_keys = True, fault = (\<lambda>_. None)\<rparr>"

subsection \<open>SQL building blocks\<close>

text \<open>SQL \<open>=\<close> on nullable values: a comparison with \<open>NULL\<close> is not true.\<close>

fun sql_eq :: "'a option \<Rightarrow> 'a option \<Rightarrow> bool" where
  "sql_eq (Some x) (Some y) = (x = y)"
| "sql_eq _ _ = False"

text \<open>\<open>AUTOINCREMENT\<close>: one more than the largest rowid ever used in the table.\<close>

definition fresh_id :: "int \<Rightarrow> int list \<Rightarrow> int" where
  "fresh_id seq ids = fold max ids seq + 1"

text \<open>\<open>UNIQUE(ip_address, mac_address)\<close> and \<open>UNIQUE(device_id, port_number, protocol)\<close>;
  SQL lets any number of rows with a \<open>NULL\<close> in the key coexist.\<close>

definition device_key :: "device_row \<Rightarrow> string \<times> string option" where
  "device_key r = (ip_address r, mac_address r)"

definition port_key :: "port_row \<Rightarrow> int \<times> int \<times> string" where
  "port_key r = (device_id r, port_number r, protocol r)"

definition devices_unique :: "device_row list \<Rightarrow> bool" where
  "devices_unique rs = distinct (map device_key (filter (\<lambda>r. mac_address r \<noteq> None) rs))"

definition ports_unique :: "port_row list \<Rightarrow> bool" where
  "ports_unique rs = distinct (map port_key rs)"

definition device_exists :: "db \<Rightarrow> int \<Rightarrow> bool" where
  "device_exists d i = (i \<in> set (map dev_id (devices d)))"

definition scan_exists :: "db \<Rightarrow> int \<Rightarrow> bool" where
  "scan_exists d i = (i \<in> set (map scan_id (scans d)))"

text \<open>\<open>SELECT COALESCE(MAX(id), 1) FROM scans\<close>\<close>

definition max_scan_id :: "db \<Rightarrow> int" where
  "max_scan_id d = (case map scan_id (scans d) of [] \<Rightarrow> 1 | i # is \<Rightarrow> fold max is i)"

text \<open>\<open>INSERT INTO changes\<close>: refused when a foreign key is enforced and dangling.\<close>

definition insert_change :: "conn \<Rightarrow> db \<Rightarrow> int \<Rightarrow> int \<Rightarrow> string \<Rightarrow> string \<Rightarrow> time \<Rightarrow> db option" where
  "insert_change c d sid did ctype det ts =
     (if foreign_keys c \<and> \<not> (scan_exists d sid \<and> device_exists d did) then None
      else let i = fresh_id (seq_changes d) (map change_id (changes d)) in
        Some (d\<lparr>changes := changes d @
                 [\<lparr>change_id = i, chg_scan_id = sid, chg_device_id = did, change_type = ctype,
                   details = det, chg_timestamp = ts\<rparr>],
               seq_changes := i\<rparr>))"

text \<open>
  The block that appears four times in \<open>SaveDevice\<close> and \<open>SavePort\<close>: read the latest scan
  id (1 when the query fails), insert the change record, and only log a warning when the
  insert fails.
\<close>

definition record_change :: "conn \<Rightarrow> db \<Rightarrow> int \<Rightarrow> string \<Rightarrow> string \<Rightarrow> time \<Rightarrow> db" where
  "record_change c d did ctype det ts =
     (let scanID = (case fault c SelectMaxScan of Some e \<Rightarrow> 1 | None \<Rightarrow> max_scan_id d) in
      case fault c InsertChange of
        Some e \<Rightarrow> d
      | None \<Rightarrow> (case insert_change c d scanID did ctype det ts of None \<Rightarrow> d | Some d' \<Rightarrow> d'))"

text \<open>
  \<open>tx.Commit()\<close> at the end of a mutation: on success the working copy becomes the stored
  state (\<open>Some\<close>) and \<open>tx\<close> is set to nil; on failure the call returns the error with the
  transaction still pending (\<open>None\<close>).
\<close>

definition commit :: "conn \<Rightarrow> db \<Rightarrow> 'a \<Rightarrow> (error + 'a) \<times> db option" where
  "commit c w r =
     (case fault c TxCommit of
        Some e \<Rightarrow> (Inl (Error (''failed to commit transaction: '' @ e)), None)
      | None \<Rightarrow> (Inr r, Some w))"

text \<open>
  The deferred function of every mutation: a transaction that was not committed is rolled
  back, so the stored state is the one from before \<open>Begin\<close>.
\<close>

definition deferred_rollback :: "db \<Rightarrow> 'r \<times> db option \<Rightarrow> 'r \<times> db" where
  "deferred_rollback d0 res = (case res of (r, None) \<Rightarrow> (r, d0) | (r, Some w) \<Rightarrow> (r, w))"

section \<open>The Go values handed to the store (models.go)\<close>

record Device =
  ID :: int
  IPAddress :: string
  MACAddress :: string
  Hostname :: string
  OSFingerprint :: string
  FirstSeen :: time
  LastSeen :: time
  PortCount :: int

record Port =
  PortID :: int
  DeviceID :: int
  PortNumber :: int
  Protocol :: string
  ServiceName :: string
  ServiceVersion :: string
  PortFirstSeen :: time
  PortLastSeen :: time

text \<open>
  The three places where \<open>SaveDevice\<close> and \<open>SavePort\<close> read the wall clock: the reading
  that is truncated to the hour, the one compared with the incoming \<open>LastSeen\<close>, and the
  one stamped on the change record.
\<close>

record clock =
  now_round :: time
  now_check :: time
  now_change :: time

section \<open>SaveDevice (database.go)\<close>

text \<open>
  \<open>SELECT id FROM devices WHERE ip_address = ? AND
    (mac_address = ? OR (mac_address IS NULL AND ? IS NULL))\<close>
  with the first row taken. The Go string bound to the parameter is never \<open>NULL\<close>.
\<close>

definition select_device_id :: "db \<Rightarrow> string \<Rightarrow> string option \<Rightarrow> int option" where
  "select_device_id d ip mac =
     map_option dev_id
       (find (\<lambda>r. ip_address r = ip \<and>
                   (sql_eq (mac_address r) mac \<or> (mac_address r = None \<and> mac = None)))
             (devices d))"

text \<open>\<open>SELECT hostname, os_fingerprint, mac_address FROM devices WHERE id = ?\<close>\<close>

definition select_device_old ::
  "db \<Rightarrow> int \<Rightarrow> (string option \<times> string option \<times> string option) option" where
  "select_device_old d i =
     map_option (\<lambda>r. (hostname r, os_fingerprint r, mac_address r))
       (find (\<lambda>r. dev_id r = i) (devices d))"

definition insert_device ::
  "db \<Rightarrow> string \<Rightarrow> string option \<Rightarrow> string option \<Rightarrow> string option \<Rightarrow> time \<Rightarrow> time
     \<Rightarrow> string + (int \<times> db)" where
  "insert_device d ip mac host os fs ls =
     (let i = fresh_id (seq_devices d) (map dev_id (devices d));
          rows = devices d @
            [\<lparr>dev_id = i, ip_address = ip, mac_address = mac, hostname = host,
              os_fingerprint = os, dev_first_seen = fs, dev_last_seen = ls\<rparr>]
      in if devices_unique rows then Inr (i, d\<lparr>devices := rows, seq_devices := i\<rparr>)
         else Inl ''UNIQUE constraint failed: devices.ip_address, devices.mac_address'')"

text \<open>\<open>UPDATE devices SET mac_address = ?, hostname = ?, os_fingerprint = ?, last_seen = ?
  WHERE id = ?\<close>\<close>

definition update_device ::
  "db \<Rightarrow> int \<Rightarrow> string option \<Rightarrow> string option \<Rightarrow> string option \<Rightarrow> time \<Rightarrow> string + db" where
  "update_device d i mac host os ls =
     (let rows = map (\<lambda>r. if dev_id r = i
                           then r\<lparr>mac_address := mac, hostname := host, os_fingerprint := os,
                                  dev_last_seen := ls\<rparr>
                           else r) (devices d)
      in if devices_unique rows then Inr (d\<lparr>devices := rows\<rparr>)
         else Inl ''UNIQUE constraint failed: devices.ip_address, devices.mac_address'')"

text \<open>The comparison of the incoming fields with the stored ones: \<open>hasChanges\<close> and
  \<open>changeDetails\<close>.\<close>

definition mac_changed :: "Device \<Rightarrow> string \<Rightarrow> bool" where
  "mac_changed device oldMac = (MACAddress device \<noteq> oldMac \<and> MACAddress device \<noteq> [])"

definition hostname_changed :: "Device \<Rightarrow> string \<Rightarrow> bool" where
  "hostname_changed device oldHostname =
     (Hostname device \<noteq> oldHostname \<and> Hostname device \<noteq> [])"

definition os_changed :: "Device \<Rightarrow> string \<Rightarrow> bool" where
  "os_changed device oldOsFingerprint =
     (OSFingerprint device \<noteq> oldOsFingerprint \<and> OSFingerprint device \<noteq> [])"

definition hasChanges :: "Device \<Rightarrow> string \<Rightarrow> string \<Rightarrow> string \<Rightarrow> bool" where
  "hasChanges device oldMac oldHostname oldOsFingerprint =
     (mac_changed device oldMac \<or> hostname_changed device oldHostname
        \<or> os_changed device oldOsFingerprint)"

definition changeDetails :: "Device \<Rightarrow> string \<Rightarrow> string \<Rightarrow> string \<Rightarrow> string" where
  "changeDetails device oldMac oldHostname oldOsFingerprint =
     (if mac_changed device oldMac
      then ''MAC address changed: '' @ oldMac @ '' -> '' @ MACAddress device @ ''; ''
      else [])
     @ (if hostname_changed device oldHostname
        then ''Hostname changed: '' @ oldHostname @ '' -> '' @ Hostname device @ ''; ''
        else [])
     @ (if os_changed device oldOsFingerprint
        then ''OS changed: '' @ oldOsFingerprint @ '' -> '' @ OSFingerprint device @ ''; ''
        else [])"

definition null_scan_error :: string where
  "null_scan_error = ''sql: Scan error: converting NULL to string is unsupported''"

definition SaveDevice_insert ::
  "conn \<Rightarrow> clock \<Rightarrow> Device \<Rightarrow> time \<Rightarrow> db \<Rightarrow> (error + int) \<times> db option" where
  "SaveDevice_insert c k device roundedTime w =
     (case fault c InsertDevice of
        Some e \<Rightarrow> (Inl (Error (''failed to insert device: '' @ e)), None)
      | None \<Rightarrow>
        (case insert_device w (IPAddress device) (Some (MACAddress device))
                (Some (Hostname device)) (Some (OSFingerprint device)) roundedTime roundedTime of
           Inl e \<Rightarrow> (Inl (Error (''failed to insert device: '' @ e)), None)
         | Inr (i, w1) \<Rightarrow>
           (case fault c DeviceInsertId of
              Some e \<Rightarrow> (Inl (Error (''failed to get inserted device ID: '' @ e)), None)
            | None \<Rightarrow>
                commit c
                  (record_change c w1 i ''new_device''
                     (''New device discovered: '' @ IPAddress device) (now_change k))
                  i)))"

definition SaveDevice_update ::
  "conn \<Rightarrow> clock \<Rightarrow> Device \<Rightarrow> time \<Rightarrow> int \<Rightarrow> db \<Rightarrow> (error + int) \<times> db option" where
  "SaveDevice_update c k device roundedTime i w =
     (case fault c SelectDeviceOld of
        Some e \<Rightarrow> (Inl (Error (''failed to retrieve existing device data: '' @ e)), None)
      | None \<Rightarrow>
        (case select_device_old w i of
           None \<Rightarrow>
             (Inl (Error (''failed to retrieve existing device data: sql: no rows in result set'')),
              None)
         | Some (None, _, _) \<Rightarrow>
             (Inl (Error (''failed to retrieve existing device data: '' @ null_scan_error)), None)
         | Some (Some oldHostname, None, _) \<Rightarrow>
             (Inl (Error (''failed to retrieve existing device data: '' @ null_scan_error)), None)
         | Some (Some oldHostname, Some oldOsFingerprint, oldMacAddress) \<Rightarrow>
             (let oldMac = (case oldMacAddress of Some m \<Rightarrow> m | None \<Rightarrow> []);
                  changed = hasChanges device oldMac oldHostname oldOsFingerprint
              in if changed \<or> After (LastSeen device) (now_check k - Hour) then
                   (let macValue = (if MACAddress device = []
                                    then (case oldMacAddress of Some m \<Rightarrow> m | None \<Rightarrow> [])
                                    else MACAddress device);
                        hostnameValue = (if Hostname device = [] then oldHostname
                                         else Hostname device);
                        osValue = (if OSFingerprint device = [] then oldOsFingerprint
                                   else OSFingerprint device)
                    in case fault c UpdateDevice of
                         Some e \<Rightarrow> (Inl (Error (''failed to update device: '' @ e)), None)
                       | None \<Rightarrow>
                         (case update_device w i (Some macValue) (Some hostnameValue)
                                 (Some osValue) roundedTime of
                            Inl e \<Rightarrow> (Inl (Error (''failed to update device: '' @ e)), None)
                          | Inr w1 \<Rightarrow>
                              commit c
                                (if changed
                                 then record_change c w1 i ''device_change''
                                        (changeDetails device oldMac oldHostname oldOsFingerprint)
                                        (now_change k)
                                 else w1)
                                i))
                 else commit c w i)))"

definition SaveDevice_tx :: "conn \<Rightarrow> clock \<Rightarrow> Device \<Rightarrow> db \<Rightarrow> (error + int) \<times> db option" where
  "SaveDevice_tx c k device w =
     (let roundedTime = Truncate (now_round k) Hour in
      case fault c SelectDeviceId of
        Some e \<Rightarrow> (Inl (Error (''failed to check if device exists: '' @ e)), None)
      | None \<Rightarrow>
        (case select_device_id w (IPAddress device) (Some (MACAddress device)) of
           None \<Rightarrow> SaveDevice_insert c k device roundedTime w
         | Some i \<Rightarrow> SaveDevice_update c k device roundedTime i w))"

definition SaveDevice :: "conn \<Rightarrow> clock \<Rightarrow> Device \<Rightarrow> db \<Rightarrow> (error + int) \<times> db" where
  "SaveDevice c k device d =
     (case fault c TxBegin of
        Some e \<Rightarrow> (Inl (Error (''failed to begin transaction: '' @ e)), d)
      | None \<Rightarrow> deferred_rollback d (SaveDevice_tx c k device d))"

section \<open>SavePort (database.go)\<close>

text \<open>\<open>SELECT id, service_name, service_version FROM ports
  WHERE device_id = ? AND port_number = ? AND protocol = ?\<close>\<close>

definition select_port ::
  "db \<Rightarrow> int \<Rightarrow> int \<Rightarrow> string \<Rightarrow> (int \<times> string option \<times> string option) option" where
  "select_port d did pn proto =
     map_option (\<lambda>r. (port_id r, service_name r, service_version r))
       (find (\<lambda>r. device_id r = did \<and> port_number r = pn \<and> protocol r = proto) (ports d))"

definition insert_port ::
  "conn \<Rightarrow> db \<Rightarrow> int \<Rightarrow> int \<Rightarrow> string \<Rightarrow> string option \<Rightarrow> string option \<Rightarrow> time \<Rightarrow> time
     \<Rightarrow> string + (int \<times> db)" where
  "insert_port c d did pn proto sname sversion fs ls =
     (let i = fresh_id (seq_ports d) (map port_id (ports d));
          rows = ports d @
            [\<lparr>port_id = i, device_id = did, port_number = pn, protocol = proto,
              service_name = sname, service_version = sversion,
              port_first_seen = fs, port_last_seen = ls\<rparr>]
      in if \<not> ports_unique rows
         then Inl ''UNIQUE constraint failed: ports.device_id, ports.port_number, ports.protocol''
         else if foreign_keys c \<and> \<not> device_exists d did
         then Inl ''FOREIGN KEY constraint failed''
         else Inr (i, d\<lparr>ports := rows, seq_ports := i\<rparr>))"

text \<open>\<open>UPDATE ports SET service_name = ?, service_version = ?, last_seen = ? WHERE id = ?\<close>\<close>

definition update_port :: "db \<Rightarrow> int \<Rightarrow> string option \<Rightarrow> string option \<Rightarrow> time \<Rightarrow> db" where
  "update_port d i sname sversion ls =
     d\<lparr>ports := map (\<lambda>r. if port_id r = i
                           then r\<lparr>service_name := sname, service_version := sversion,
                                  port_last_seen := ls\<rparr>
                           else r) (ports d)\<rparr>"

definition serviceChanged :: "Port \<Rightarrow> string \<Rightarrow> string \<Rightarrow> bool" where
  "serviceChanged port oldServiceName oldServiceVersion =
     ((ServiceName port \<noteq> oldServiceName \<and> ServiceName port \<noteq> [])
      \<or> (ServiceVersion port \<noteq> oldServiceVersion \<and> ServiceVersion port \<noteq> []))"

definition SavePort_insert ::
  "conn \<Rightarrow> clock \<Rightarrow> Port \<Rightarrow> time \<Rightarrow> db \<Rightarrow> (error + unit) \<times> db option" where
  "SavePort_insert c k port roundedTime w =
     (case fault c InsertPort of
        Some e \<Rightarrow> (Inl (Error (''failed to insert port: '' @ e)), None)
      | None \<Rightarrow>
        (case insert_port c w (DeviceID port) (PortNumber port) (Protocol port)
                (Some (ServiceName port)) (Some (ServiceVersion port)) roundedTime roundedTime of
           Inl e \<Rightarrow> (Inl (Error (''failed to insert port: '' @ e)), None)
         | Inr (i, w1) \<Rightarrow>
           (case fault c PortInsertId of
              Some e \<Rightarrow> (Inl (Error (''failed to get inserted port ID: '' @ e)), None)
            | None \<Rightarrow>
                commit c
                  (record_change c w1 (DeviceID port) ''new_port''
                     (''New port discovered: '' @ Itoa (PortNumber port) @ ''/'' @ Protocol port
                        @ '' - '' @ ServiceName port)
                     (now_change k))
                  ())))"

definition SavePort_update ::
  "conn \<Rightarrow> clock \<Rightarrow> Port \<Rightarrow> time \<Rightarrow> int \<Rightarrow> string \<Rightarrow> string \<Rightarrow> db
     \<Rightarrow> (error + unit) \<times> db option" where
  "SavePort_update c k port roundedTime i oldServiceName oldServiceVersion w =
     (let changed = serviceChanged port oldServiceName oldServiceVersion
      in if changed \<or> After (PortLastSeen port) (now_check k - Hour) then
           (let serviceNameValue = (if ServiceName port = [] then oldServiceName
                                    else ServiceName port);
                serviceVersionValue = (if ServiceVersion port = [] then oldServiceVersion
                                       else ServiceVersion port)
            in case fault c UpdatePort of
                 Some e \<Rightarrow> (Inl (Error (''failed to update port: '' @ e)), None)
               | None \<Rightarrow>
                   (let w1 = update_port w i (Some serviceNameValue) (Some serviceVersionValue)
                               roundedTime
                    in commit c
                         (if changed
                          then record_change c w1 (DeviceID port) ''port_change''
                                 (''Service on port '' @ Itoa (PortNumber port) @ ''/''
                                    @ Protocol port @ '' changed: '' @ oldServiceName @ '' ''
                                    @ oldServiceVersion @ '' -> '' @ serviceNameValue @ '' ''
                                    @ serviceVersionValue)
                                 (now_change k)
                          else w1)
                         ()))
         else commit c w ())"

definition SavePort_tx :: "conn \<Rightarrow> clock \<Rightarrow> Port \<Rightarrow> db \<Rightarrow> (error + unit) \<times> db option" where
  "SavePort_tx c k port w =
     (let roundedTime = Truncate (now_round k) Hour in
      case fault c SelectPort of
        Some e \<Rightarrow> (Inl (Error (''failed to check if port exists: '' @ e)), None)
      | None \<Rightarrow>
        (case select_port w (DeviceID port) (PortNumber port) (Protocol port) of
           None \<Rightarrow> SavePort_insert c k port roundedTime w
         | Some (i, None, _) \<Rightarrow>
             (Inl (Error (''failed to check if port exists: '' @ null_scan_error)), None)
         | Some (i, Some oldServiceName, None) \<Rightarrow>
             (Inl (Error (''failed to check if port exists: '' @ null_scan_error)), None)
         | Some (i, Some oldServiceName, Some oldServiceVersion) \<Rightarrow>
             SavePort_update c k port roundedTime i oldServiceName oldServiceVersion w))"

definition SavePort :: "conn \<Rightarrow> clock \<Rightarrow> Port \<Rightarrow> db \<Rightarrow> (error + unit) \<times> db" where
  "SavePort c k port d =
     (case fault c TxBegin of
        Some e \<Rightarrow> (Inl (Error (''failed to begin transaction: '' @ e)), d)
      | None \<Rightarrow> deferred_rollback d (SavePort_tx c k port d))"

section \<open>CleanOldData (database.go)\<close>

text \<open>
  The four \<open>DELETE ... WHERE timestamp < ?\<close> statements, each returning the number of rows
  the statement itself removed (\<open>RowsAffected\<close> does not count rows removed by a foreign
  key action). With foreign keys in force, deleting a scan removes the changes that
  reference it, and deleting a device removes its ports and the changes that reference it
  (\<open>ON DELETE CASCADE\<close> in the schema).
\<close>

definition delete_changes :: "time \<Rightarrow> db \<Rightarrow> int \<times> db" where
  "delete_changes cutoff d =
     (int (length (filter (\<lambda>r. chg_timestamp r < cutoff) (changes d))),
      d\<lparr>changes := filter (\<lambda>r. \<not> chg_timestamp r < cutoff) (changes d)\<rparr>)"

definition delete_scans :: "conn \<Rightarrow> time \<Rightarrow> db \<Rightarrow> int \<times> db" where
  "delete_scans c cutoff d =
     (let gone = filter (\<lambda>r. scan_timestamp r < cutoff) (scans d);
          ids = set (map scan_id gone)
      in (int (length gone),
          d\<lparr>scans := filter (\<lambda>r. \<not> scan_timestamp r < cutoff) (scans d),
            changes := (if foreign_keys c
                        then filter (\<lambda>r. chg_scan_id r \<notin> ids) (changes d)
                        else changes d)\<rparr>))"

definition delete_devices :: "conn \<Rightarrow> time \<Rightarrow> db \<Rightarrow> int \<times> db" where
  "delete_devices c cutoff d =
     (let gone = filter (\<lambda>r. dev_last_seen r < cutoff) (devices d);
          ids = set (map dev_id gone)
      in (int (length gone),
          d\<lparr>devices := filter (\<lambda>r. \<not> dev_last_seen r < cutoff) (devices d),
            ports := (if foreign_keys c
                      then filter (\<lambda>r. device_id r \<notin> ids) (ports d)
                      else ports d),
            changes := (if foreign_keys c
                        then filter (\<lambda>r. chg_device_id r \<notin> ids) (changes d)
                        else changes d)\<rparr>))"

definition delete_logs :: "time \<Rightarrow> db \<Rightarrow> int \<times> db" where
  "delete_logs cutoff d =
     (int (length (filter (\<lambda>r. log_timestamp r < cutoff) (logs d))),
      d\<lparr>logs := filter (\<lambda>r. \<not> log_timestamp r < cutoff) (logs d)\<rparr>)"

definition CleanOldData_tx :: "conn \<Rightarrow> time \<Rightarrow> db \<Rightarrow> (error + int) \<times> db option" where
  "CleanOldData_tx c cutoff w =
     (case fault c DeleteChanges of
        Some e \<Rightarrow> (Inl (Error (''failed to delete old changes: '' @ e)), None)
      | None \<Rightarrow>
        (case delete_changes cutoff w of (changeCount, w1) \<Rightarrow>
         (case fault c DeleteScans of
            Some e \<Rightarrow> (Inl (Error (''failed to delete old scans: '' @ e)), None)
          | None \<Rightarrow>
            (case delete_scans c cutoff w1 of (scanCount, w2) \<Rightarrow>
             (case fault c DeleteDevices of
                Some e \<Rightarrow> (Inl (Error (''failed to delete old devices: '' @ e)), None)
              | None \<Rightarrow>
                (case delete_devices c cutoff w2 of (deviceCount, w3) \<Rightarrow>
                 (case fault c DeleteLogs of
                    Some e \<Rightarrow> (Inl (Error (''failed to delete old logs: '' @ e)), None)
                  | None \<Rightarrow>
                    (case delete_logs cutoff w3 of (logCount, w4) \<Rightarrow>
                       commit c w4 (scanCount + deviceCount + changeCount + logCount)))))))))"

definition CleanOldData :: "conn \<Rightarrow> time \<Rightarrow> int \<Rightarrow> db \<Rightarrow> (error + int) \<times> db" where
  "CleanOldData c now retentionDays d =
     (let cutoff = AddDays now (- retentionDays) in
      case fault c TxBegin of
        Some e \<Rightarrow> (Inl (Error (''failed to begin transaction: '' @ e)), d)
      | None \<Rightarrow> deferred_rollback d (CleanOldData_tx c cutoff d))"

section \<open>Scan rows and log rows (database.go)\<close>

text \<open>\<open>CreateScan\<close>, \<open>UpdateScan\<close> and \<open>AddLogEntry\<close> run one statement each, outside any
  transaction.\<close>

definition CreateScan :: "conn \<Rightarrow> time \<Rightarrow> string \<Rightarrow> db \<Rightarrow> (error + int) \<times> db" where
  "CreateScan c now tmpl d =
     (case fault c InsertScan of
        Some e \<Rightarrow> (Inl (Error (''failed to create scan: '' @ e)), d)
      | None \<Rightarrow>
        (let i = fresh_id (seq_scans d) (map scan_id (scans d));
             d1 = d\<lparr>scans := scans d @
                      [\<lparr>scan_id = i, scan_timestamp = now, template = tmpl, duration = Some 0,
                        devices_found = Some 0, ports_found = Some 0, status = ''running'',
                        error_message = None\<rparr>],
                    seq_scans := i\<rparr>
         in case fault c ScanInsertId of
              Some e \<Rightarrow> (Inl (Error (''failed to get inserted scan ID: '' @ e)), d1)
            | None \<Rightarrow> (Inr i, d1)))"

text \<open>\<open>int(duration.Seconds())\<close>: whole seconds, rounded toward zero.\<close>

definition duration_seconds :: "int \<Rightarrow> int" where
  "duration_seconds dur = (if 0 \<le> dur then dur div Second else - ((- dur) div Second))"

definition UpdateScan ::
  "conn \<Rightarrow> int \<Rightarrow> string \<Rightarrow> int \<Rightarrow> int \<Rightarrow> int \<Rightarrow> string \<Rightarrow> db \<Rightarrow> error option \<times> db" where
  "UpdateScan c i st devicesFound portsFound dur errorMsg d =
     (if st = [] then (Some (Error ''status cannot be empty''), d)
      else let durationSecs = duration_seconds dur in
        case fault c UpdateScanRow of
          Some e \<Rightarrow> (Some (Error (''failed to update scan #'' @ Itoa i @ '': '' @ e)), d)
        | None \<Rightarrow>
            (None,
             d\<lparr>scans := map (\<lambda>r. if scan_id r = i
                                  then r\<lparr>status := st, devices_found := Some devicesFound,
                                         ports_found := Some portsFound,
                                         duration := Some durationSecs,
                                         error_message := Some errorMsg\<rparr>
                                  else r) (scans d)\<rparr>))"

definition AddLogEntry :: "conn \<Rightarrow> time \<Rightarrow> string \<Rightarrow> string \<Rightarrow> string \<Rightarrow> db \<Rightarrow> error option \<times> db" where
  "AddLogEntry c now lvl msg cmpt d =
     (case fault c InsertLog of
        Some e \<Rightarrow> (Some (Error e), d)
      | None \<Rightarrow>
        (let i = fresh_id (seq_logs d) (map log_id (logs d))
         in (None,
             d\<lparr>logs := logs d @ [\<lparr>log_id = i, level = lvl, message = msg, component = cmpt,
                                    log_timestamp = now\<rparr>],
               seq_logs := i\<rparr>)))"

section \<open>The scan service (scanner.go)\<close>

record ScanTemplate =
  Name :: string
  Description :: string
  NmapArgs :: "string list"
  RateLimit :: int

record ScanParameters =
  Template :: string
  TargetNetwork :: string
  ParamRateLimit :: int
  ScanAllPorts :: bool
  DisablePing :: bool

text \<open>The fields of \<open>config.Scanner\<close> that the scan service reads.\<close>

record config =
  cfg_OutputDir :: string
  cfg_TargetNetwork :: string
  cfg_CompressOutput :: bool

record ScanStats =
  ScanID :: int
  StartTime :: time
  EndTime :: time
  Status :: string
  DevicesFound :: int
  PortsFound :: int
  Err :: "error option"

text \<open>The service: its configuration, the store it writes to, and the fields guarded by
  \<open>scanLock\<close>.\<close>

record ScanService =
  cfg :: config
  database :: db
  isScanning :: bool
  scanStats :: ScanStats
  mockModeForTesting :: bool

definition New :: "config \<Rightarrow> db \<Rightarrow> ScanService" where
  "New c d = \<lparr>cfg = c, database = d, isScanning = False,
     scanStats = \<lparr>ScanID = 0, StartTime = 0, EndTime = 0, Status = ''idle'', DevicesFound = 0,
                  PortsFound = 0, Err = None\<rparr>,
     mockModeForTesting = False\<rparr>"

subsection \<open>Templates\<close>

definition default_template :: ScanTemplate where
  "default_template = \<lparr>Name = ''default'', Description = ''Standard network scan'',
     NmapArgs = [''-sS'', ''-sV'', ''-O'', ''--osscan-limit''], RateLimit = 1000\<rparr>"

definition quick_template :: ScanTemplate where
  "quick_template = \<lparr>Name = ''quick'', Description = ''Fast scan of common ports'',
     NmapArgs = [''-sS'', ''-F''], RateLimit = 2000\<rparr>"

definition thorough_template :: ScanTemplate where
  "thorough_template = \<lparr>Name = ''thorough'', Description = ''Detailed scan of all ports'',
     NmapArgs = [''-sS'', ''-sV'', ''-p-'', ''-O'', ''--osscan-guess''], RateLimit = 500\<rparr>"

definition stealth_template :: ScanTemplate where
  "stealth_template = \<lparr>Name = ''stealth'',
     Description = ''Low-impact scan for sensitive networks'',
     NmapArgs = [''-sS'', ''-T2'', ''--max-retries'', ''1''], RateLimit = 100\<rparr>"

definition getTemplates :: "string \<rightharpoonup> ScanTemplate" where
  "getTemplates =
     [''default'' \<mapsto> default_template,
      ''quick'' \<mapsto> quick_template,
      ''thorough'' \<mapsto> thorough_template,
      ''stealth'' \<mapsto> stealth_template]"

text \<open>
  \<open>getScanTemplate\<close> returns the warnings it logs together with its Go result
  \<open>(template, error)\<close>; \<open>templates["default"]\<close> is the entry \<open>default_template\<close> of the map
  above.
\<close>

definition getScanTemplate :: "string \<Rightarrow> string list \<times> (error + ScanTemplate)" where
  "getScanTemplate name =
     (case getTemplates name of
        Some t \<Rightarrow> ([], Inr t)
      | None \<Rightarrow> ([''Template not found, using default''], Inr default_template))"

subsection \<open>Building the nmap invocation\<close>

text \<open>A command is represented by the argument list handed to \<open>exec.Command("nmap", ...)\<close>.\<close>

definition prepareScanCommand :: "config \<Rightarrow> ScanTemplate \<Rightarrow> string \<Rightarrow> error + string list" where
  "prepareScanCommand c t outputPath =
     (let args = [''-oX'', outputPath] @ NmapArgs t @ [''--max-rate'', Itoa (RateLimit t)]
      in if cfg_TargetNetwork c = []
         then Inl (Error ''no target network specified in configuration'')
         else Inr (args @ [cfg_TargetNetwork c]))"

definition prepareManualScanCommand ::
  "config \<Rightarrow> ScanTemplate \<Rightarrow> string \<Rightarrow> ScanParameters \<Rightarrow> error + string list" where
  "prepareManualScanCommand c t outputPath params =
     (let args0 = [''-oX'', outputPath];
          args1 = (if ScanAllPorts params
                   then args0 @ filter (\<lambda>arg. \<not> prefix ''-p'' arg) (NmapArgs t) @ [''-p-'']
                   else args0 @ NmapArgs t);
          args2 = (if DisablePing params
                   then (if ''-Pn'' \<in> set args1 then args1 else args1 @ [''-Pn''])
                   else args1);
          rateLimit = (if ParamRateLimit params > 0 then ParamRateLimit params
                       else RateLimit t);
          args3 = args2 @ [''--max-rate'', Itoa rateLimit];
          targetNetwork = (if TargetNetwork params \<noteq> [] then TargetNetwork params
                           else cfg_TargetNetwork c)
      in if targetNetwork = [] then Inl (Error ''no target network specified'')
         else Inr (args3 @ [targetNetwork]))"

subsection \<open>Running a scan\<close>

text \<open>
  What one run meets outside the service: the UUID drawn for the output file, the clock
  readings, the state of the database connection, what the nmap subprocess does when
  started with a given argument list, and \<open>processScanResults\<close> (reading and parsing the
  output file and saving its hosts and ports), which is a parameter here.
\<close>

datatype proc_result =
    StdoutPipeError string
  | StderrPipeError string
  | StartError string
  | WaitError string
  | Exited

record world =
  uuid :: string
  now_started :: time
  now_created :: time
  now_updated :: time
  now_ended :: time
  connection :: conn
  run_nmap :: "string list \<Rightarrow> proc_result"
  processScanResults :: "string \<Rightarrow> db \<Rightarrow> ((int \<times> int) \<times> error option) \<times> db"

text \<open>\<open>filepath.Join(OutputDir, "scan_<uuid>.xml")\<close>, without the cleaning of the path.\<close>

definition outputPath :: "world \<Rightarrow> config \<Rightarrow> string" where
  "outputPath w c = cfg_OutputDir c @ ''/'' @ ''scan_'' @ uuid w @ ''.xml''"

definition updateScanError :: "error \<Rightarrow> ScanService \<Rightarrow> ScanService" where
  "updateScanError e s = s\<lparr>scanStats := (scanStats s)\<lparr>Status := ''error'', Err := Some e\<rparr>\<rparr>"

definition updateScanInDB ::
  "world \<Rightarrow> int \<Rightarrow> string \<Rightarrow> int \<Rightarrow> int \<Rightarrow> int \<Rightarrow> ScanService \<Rightarrow> error option \<times> ScanService" where
  "updateScanInDB w scanID st deviceCount portCount dur s =
     (case UpdateScan (connection w) scanID st deviceCount portCount dur [] (database s) of
        (r, d) \<Rightarrow> (r, s\<lparr>database := d\<rparr>))"

text \<open>The region under \<open>scanLock\<close> at the head of \<open>RunScan\<close> and \<open>RunManualScan\<close>: the check
  of \<open>isScanning\<close> and the transition to running are one step. \<open>None\<close> is the refusal.\<close>

definition beginScan :: "time \<Rightarrow> ScanService \<Rightarrow> ScanService option" where
  "beginScan t s =
     (if isScanning s then None
      else Some (s\<lparr>isScanning := True,
                   scanStats := \<lparr>ScanID = 0, StartTime = t, EndTime = 0, Status = ''running'',
                                 DevicesFound = 0, PortsFound = 0, Err = None\<rparr>\<rparr>))"

text \<open>The deferred function of both entry points.\<close>

definition endScan :: "time \<Rightarrow> ScanService \<Rightarrow> ScanService" where
  "endScan t s = s\<lparr>isScanning := False, scanStats := (scanStats s)\<lparr>EndTime := t\<rparr>\<rparr>"

definition already_in_progress :: error where
  "already_in_progress = Error ''a scan is already in progress''"

definition setScanID :: "int \<Rightarrow> ScanService \<Rightarrow> ScanService" where
  "setScanID i s = s\<lparr>scanStats := (scanStats s)\<lparr>ScanID := i\<rparr>\<rparr>"

definition setCompleted :: "int \<Rightarrow> int \<Rightarrow> ScanService \<Rightarrow> ScanService" where
  "setCompleted deviceCount portCount s =
     s\<lparr>scanStats := (scanStats s)\<lparr>Status := ''completed'', DevicesFound := deviceCount,
                                    PortsFound := portCount\<rparr>\<rparr>"

text \<open>The mock branch, with the counts each entry point reports.\<close>

definition mock_scan ::
  "world \<Rightarrow> string \<Rightarrow> string \<Rightarrow> int \<Rightarrow> int \<Rightarrow> ScanService
     \<Rightarrow> (int \<times> error option) \<times> ScanService" where
  "mock_scan w tmpl msg mockDeviceCount mockPortCount s =
     (case CreateScan (connection w) (now_created w) tmpl (database s) of
        (Inl e, d1) \<Rightarrow> ((0, Some e), updateScanError (wrap msg e) (s\<lparr>database := d1\<rparr>))
      | (Inr dbScanID, d1) \<Rightarrow>
          (let s1 = setScanID dbScanID (s\<lparr>database := d1\<rparr>);
               dur = now_updated w - StartTime (scanStats s1)
           in case updateScanInDB w dbScanID ''completed'' mockDeviceCount mockPortCount dur s1 of
                (err, s2) \<Rightarrow> ((dbScanID, None), setCompleted mockDeviceCount mockPortCount s2)))"

text \<open>
  From ``Execute the nmap scan'' to the end, the same statements in \<open>RunScan\<close> and
  \<open>RunManualScan\<close>: the pipes, \<open>Start\<close>, \<open>Wait\<close>, the processing of the results and the
  final update of the Scan row.
\<close>

definition execute_scan ::
  "world \<Rightarrow> int \<Rightarrow> string list \<Rightarrow> string \<Rightarrow> ScanService \<Rightarrow> (int \<times> error option) \<times> ScanService" where
  "execute_scan w dbScanID nmapCmd path s =
     (case run_nmap w nmapCmd of
        StdoutPipeError e \<Rightarrow> ((dbScanID, Some (Error e)), updateScanError (Error e) s)
      | StderrPipeError e \<Rightarrow> ((dbScanID, Some (Error e)), updateScanError (Error e) s)
      | StartError e \<Rightarrow>
          (let s1 = updateScanError (wrap ''failed to start nmap'' (Error e)) s
           in case updateScanInDB w dbScanID ''error'' 0 0
                     (now_updated w - StartTime (scanStats s1)) s1 of
                (err, s2) \<Rightarrow> ((dbScanID, Some (Error e)), s2))
      | WaitError e \<Rightarrow>
          (let s1 = updateScanError (wrap ''nmap command failed'' (Error e)) s
           in case updateScanInDB w dbScanID ''error'' 0 0
                     (now_updated w - StartTime (scanStats s1)) s1 of
                (err, s2) \<Rightarrow> ((dbScanID, Some (Error e)), s2))
      | Exited \<Rightarrow>
          (case processScanResults w path (database s) of
             (((deviceCount, portCount), Some e), d1) \<Rightarrow>
               (let s1 = updateScanError (wrap ''failed to process scan results'' e)
                           (s\<lparr>database := d1\<rparr>)
                in case updateScanInDB w dbScanID ''error'' deviceCount portCount
                          (now_updated w - StartTime (scanStats s1)) s1 of
                     (err, s2) \<Rightarrow> ((dbScanID, Some e), s2))
           | (((deviceCount, portCount), None), d1) \<Rightarrow>
               (let s1 = s\<lparr>database := d1\<rparr>;
                    dur = now_updated w - StartTime (scanStats s1)
                in case updateScanInDB w dbScanID ''completed'' deviceCount portCount dur s1 of
                     (err, s2) \<Rightarrow> ((dbScanID, None), setCompleted deviceCount portCount s2))))"

definition RunScan_body ::
  "world \<Rightarrow> string \<Rightarrow> ScanService \<Rightarrow> (int \<times> error option) \<times> ScanService" where
  "RunScan_body w templateName s =
     (if mockModeForTesting s
      then mock_scan w templateName ''failed to record mock scan in database'' 5 15 s
      else
        (case snd (getScanTemplate templateName) of
           Inl e \<Rightarrow> ((0, Some e), updateScanError e s)
         | Inr t \<Rightarrow>
           (let path = outputPath w (cfg s) in
            case prepareScanCommand (cfg s) t path of
              Inl e \<Rightarrow> ((0, Some e), updateScanError e s)
            | Inr nmapCmd \<Rightarrow>
              (case CreateScan (connection w) (now_created w) templateName (database s) of
                 (Inl e, d1) \<Rightarrow>
                   ((0, Some e),
                    updateScanError (wrap ''failed to record scan in database'' e)
                      (s\<lparr>database := d1\<rparr>))
               | (Inr dbScanID, d1) \<Rightarrow>
                   execute_scan w dbScanID nmapCmd path
                     (setScanID dbScanID (s\<lparr>database := d1\<rparr>))))))"

definition RunScan ::
  "world \<Rightarrow> string \<Rightarrow> ScanService \<Rightarrow> (int \<times> error option) \<times> ScanService" where
  "RunScan w templateName s =
     (case beginScan (now_started w) s of
        None \<Rightarrow> ((0, Some already_in_progress), s)
      | Some s1 \<Rightarrow>
          (case RunScan_body w templateName s1 of (r, s2) \<Rightarrow> (r, endScan (now_ended w) s2)))"

definition RunManualScan_body ::
  "world \<Rightarrow> ScanParameters \<Rightarrow> ScanService \<Rightarrow> (int \<times> error option) \<times> ScanService" where
  "RunManualScan_body w params s =
     (if mockModeForTesting s
      then mock_scan w (Template params) ''failed to record mock manual scan in database'' 3 10 s
      else
        (case snd (getScanTemplate (Template params)) of
           Inl e \<Rightarrow> ((0, Some e), updateScanError e s)
         | Inr t0 \<Rightarrow>
           (let t = (if ParamRateLimit params > 0 then t0\<lparr>RateLimit := ParamRateLimit params\<rparr>
                     else t0);
                path = outputPath w (cfg s)
            in case CreateScan (connection w) (now_created w) (Template params) (database s) of
                 (Inl e, d1) \<Rightarrow>
                   ((0, Some e),
                    updateScanError (wrap ''failed to record scan in database'' e)
                      (s\<lparr>database := d1\<rparr>))
               | (Inr dbScanID, d1) \<Rightarrow>
                   (let s1 = setScanID dbScanID (s\<lparr>database := d1\<rparr>)
                    in case prepareManualScanCommand (cfg s1) t path params of
                         Inl e \<Rightarrow>
                           (let s2 = updateScanError e s1
                            in case updateScanInDB w dbScanID ''error'' 0 0
                                      (now_updated w - StartTime (scanStats s2)) s2 of
                                 (err, s3) \<Rightarrow> ((dbScanID, Some e), s3))
                       | Inr nmapCmd \<Rightarrow> execute_scan w dbScanID nmapCmd path s1))))"

definition RunManualScan ::
  "world \<Rightarrow> ScanParameters \<Rightarrow> ScanService \<Rightarrow> (int \<times> error option) \<times> ScanService" where
  "RunManualScan w params s =
     (case beginScan (now_started w) s of
        None \<Rightarrow> ((0, Some already_in_progress), s)
      | Some s1 \<Rightarrow>
          (case RunManualScan_body w params s1 of (r, s2) \<Rightarrow> (r, endScan (now_ended w) s2)))"

section \<open>The outcome of a failed subprocess\<close>

text \<open>The text kept in the in-memory scan status when nmap cannot be started or exits
  non-zero, and the Scan row such a run leaves behind.\<close>

definition failure_text :: "proc_result \<Rightarrow> string" where
  "failure_text p =
     (case p of
        StartError e \<Rightarrow> ''failed to start nmap: '' @ e
      | WaitError e \<Rightarrow> ''nmap command failed: '' @ e
      | _ \<Rightarrow> [])"

definition failed_scan_row :: "world \<Rightarrow> int \<Rightarrow> string \<Rightarrow> scan_row" where
  "failed_scan_row w i tmpl =
     \<lparr>scan_id = i, scan_timestamp = now_created w, template = tmpl,
      duration = Some (duration_seconds (now_updated w - now_started w)),
      devices_found = Some 0, ports_found = Some 0, status = ''error'',
      error_message = Some []\<rparr>"

definition run_failed ::
  "world \<Rightarrow> ScanService \<Rightarrow> string \<Rightarrow> string \<Rightarrow> string
     \<Rightarrow> (int \<times> error option) \<times> ScanService \<Rightarrow> bool" where
  "run_failed w s tmpl e txt res =
     (case res of ((i, err), s') \<Rightarrow>
        i = fresh_id (seq_scans (database s)) (map scan_id (scans (database s)))
        \<and> err = Some (Error e)
        \<and> scans (database s') = scans (database s) @ [failed_scan_row w i tmpl]
        \<and> Status (scanStats s') = ''error''
        \<and> Err (scanStats s') = Some (Error txt)
        \<and> \<not> isScanning s')"

section \<open>The uniqueness invariant and sequences of store operations\<close>

text \<open>No two device rows with the same \<open>(ip_address, mac_address)\<close>, a \<open>NULL\<close> MAC being equal
  to a \<open>NULL\<close> MAC only, and no two port rows with the same
  \<open>(device_id, port_number, protocol)\<close>.\<close>

definition uniqueness_invariant :: "db \<Rightarrow> bool" where
  "uniqueness_invariant d =
     (distinct (map device_key (devices d)) \<and> distinct (map port_key (ports d)))"

datatype store_op =
    OpSaveDevice conn clock Device
  | OpSavePort conn clock Port
  | OpCleanOldData conn time int
  | OpCreateScan conn time string
  | OpUpdateScan conn int string int int int string
  | OpAddLogEntry conn time string string string

fun apply_op :: "store_op \<Rightarrow> db \<Rightarrow> db" where
  "apply_op (OpSaveDevice c k device) d = snd (SaveDevice c k device d)"
| "apply_op (OpSavePort c k port) d = snd (SavePort c k port d)"
| "apply_op (OpCleanOldData c now retentionDays) d = snd (CleanOldData c now retentionDays d)"
| "apply_op (OpCreateScan c now tmpl) d = snd (CreateScan c now tmpl d)"
| "apply_op (OpUpdateScan c i st devicesFound portsFound dur errorMsg) d =
     snd (UpdateScan c i st devicesFound portsFound dur errorMsg d)"
| "apply_op (OpAddLogEntry c now lvl msg cmpt) d = snd (AddLogEntry c now lvl msg cmpt d)"

section \<open>Example values\<close>

definition ex_config :: config where
  "ex_config = \<lparr>cfg_OutputDir = ''/var/scans'', cfg_TargetNetwork = ''192.168.1.0/24'',
     cfg_CompressOutput = False\<rparr>"

definition ex_service :: ScanService where
  "ex_service = New ex_config empty_db"

definition ex_busy_service :: ScanService where
  "ex_busy_service = ex_service\<lparr>isScanning := True\<rparr>"

definition ex_params :: ScanParameters where
  "ex_params = \<lparr>Template = ''quick'', TargetNetwork = [], ParamRateLimit = 0,
     ScanAllPorts = False, DisablePing = False\<rparr>"

text \<open>A run in which nmap cannot be started, and one in which it exits non-zero.\<close>

definition ex_world_start :: world where
  "ex_world_start = \<lparr>uuid = ''0b5e'', now_started = 10 * Second, now_created = 11 * Second,
     now_updated = 13 * Second, now_ended = 14 * Second, connection = healthy,
     run_nmap = (\<lambda>_. StartError ''exec: nmap: executable file not found''),
     processScanResults = (\<lambda>p d. (((0, 0), None), d))\<rparr>"

definition ex_world_wait :: world where
  "ex_world_wait = ex_world_start\<lparr>run_nmap := (\<lambda>_. WaitError ''exit status 1'')\<rparr>"

text \<open>Manual-scan parameters that ask for all ports under the \<open>quick\<close> template.\<close>

definition ex_params_quick_all :: ScanParameters where
  "ex_params_quick_all = \<lparr>Template = ''quick'', TargetNetwork = [], ParamRateLimit = 0,
     ScanAllPorts = True, DisablePing = False\<rparr>"

text \<open>A connection on which only \<open>COMMIT\<close> fails, the clock readings of one store call, and
  one host and one port as a scan reports them.\<close>

definition ex_conn_commit_fails :: conn where
  "ex_conn_commit_fails =
     \<lparr>foreign_keys = True,
      fault = (\<lambda>s. if s = TxCommit then Some ''disk I/O error'' else None)\<rparr>"

text \<open>A connection on which only the \<open>INSERT INTO changes\<close> fails.\<close>

definition ex_conn_change_fails :: conn where
  "ex_conn_change_fails =
     \<lparr>foreign_keys = True,
      fault = (\<lambda>s. if s = InsertChange then Some ''database is locked'' else None)\<rparr>"

definition ex_clock :: clock where
  "ex_clock = \<lparr>now_round = 480000 * Hour + 10 * Second,
     now_check = 480000 * Hour + 11 * Second,
     now_change = 480000 * Hour + 12 * Second\<rparr>"

definition ex_device :: Device where
  "ex_device = \<lparr>ID = 0, IPAddress = ''203.0.113.5'', MACAddress = ''00:11:22:33:44:55'',
     Hostname = ''printer'', OSFingerprint = ''Linux 5.10'',
     FirstSeen = 480000 * Hour + 9 * Second, LastSeen = 480000 * Hour + 9 * Second,
     PortCount = 0\<rparr>"

definition ex_port :: Port where
  "ex_port = \<lparr>PortID = 0, DeviceID = 1, PortNumber = 80, Protocol = ''tcp'',
     ServiceName = ''http'', ServiceVersion = ''Apache 2.4.41'',
     PortFirstSeen = 480000 * Hour + 9 * Second, PortLastSeen = 480000 * Hour + 9 * Second\<rparr>"

text \<open>The store after a first scan row, after the first observation of the host, and after
  the first observation of its port.\<close>

definition ex_db_scan :: db where
  "ex_db_scan = snd (CreateScan healthy (480000 * Hour) ''default'' empty_db)"

definition ex_db_device :: db where
  "ex_db_device = snd (SaveDevice healthy ex_clock ex_device ex_db_scan)"

definition ex_db_port :: db where
  "ex_db_port = snd (SavePort healthy ex_clock ex_port ex_db_device)"

text \<open>The host seen again under a new hostname, one hour later.\<close>

definition ex_device_renamed :: Device where
  "ex_device_renamed = ex_device\<lparr>Hostname := ''printer-2'',
     LastSeen := 480001 * Hour + 9 * Second\<rparr>"

definition ex_clock_later :: clock where
  "ex_clock_later = \<lparr>now_round = 480001 * Hour + 10 * Second,
     now_check = 480001 * Hour + 11 * Second,
     now_change = 480001 * Hour + 12 * Second\<rparr>"

text \<open>The same host reported again one hour later with nothing changed.\<close>

definition ex_device_again :: Device where
  "ex_device_again = ex_device\<lparr>LastSeen := 480001 * Hour + 9 * Second\<rparr>"

text \<open>
  A store for the retention sweep at time \<open>490000 * Hour\<close> with 30 days of retention: three
  devices last seen 10, 40 and 100 days ago, each with one port; a scan 60 days old and one
  10 days old; and two changes written 5 days ago against the recent scan, one for the
  device last seen 40 days ago and one for the device last seen 10 days ago.
\<close>

definition ex_now :: time where
  "ex_now = 490000 * Hour"

definition ex_db_retention :: db where
  "ex_db_retention = \<lparr>
     devices =
       [\<lparr>dev_id = 1, ip_address = ''192.168.1.1'', mac_address = Some ''00:11:22:33:44:55'',
         hostname = Some ''recent-device'', os_fingerprint = Some ''Linux'',
         dev_first_seen = ex_now - 30 * Day, dev_last_seen = ex_now - 10 * Day\<rparr>,
        \<lparr>dev_id = 2, ip_address = ''192.168.1.2'', mac_address = Some ''AA:BB:CC:DD:EE:FF'',
         hostname = Some ''old-device'', os_fingerprint = Some ''Windows'',
         dev_first_seen = ex_now - 100 * Day, dev_last_seen = ex_now - 40 * Day\<rparr>,
        \<lparr>dev_id = 3, ip_address = ''192.168.1.3'', mac_address = Some ''11:22:33:44:55:66'',
         hostname = Some ''very-old-device'', os_fingerprint = Some ''macOS'',
         dev_first_seen = ex_now - 200 * Day, dev_last_seen = ex_now - 100 * Day\<rparr>],
     ports =
       [\<lparr>port_id = 1, device_id = 1, port_number = 80, protocol = ''tcp'',
         service_name = Some ''http'', service_version = Some ''Test'',
         port_first_seen = ex_now - 5 * Day, port_last_seen = ex_now - 5 * Day\<rparr>,
        \<lparr>port_id = 2, device_id = 2, port_number = 80, protocol = ''tcp'',
         service_name = Some ''http'', service_version = Some ''Test'',
         port_first_seen = ex_now - 5 * Day, port_last_seen = ex_now - 5 * Day\<rparr>,
        \<lparr>port_id = 3, device_id = 3, port_number = 80, protocol = ''tcp'',
         service_name = Some ''http'', service_version = Some ''Test'',
         port_first_seen = ex_now - 100 * Day, port_last_seen = ex_now - 100 * Day\<rparr>],
     scans =
       [\<lparr>scan_id = 1, scan_timestamp = ex_now - 60 * Day, template = ''default'',
         duration = Some 60, devices_found = Some 5, ports_found = Some 10,
         status = ''completed'', error_message = None\<rparr>,
        \<lparr>scan_id = 2, scan_timestamp = ex_now - 10 * Day, template = ''default'',
         duration = Some 45, devices_found = Some 3, ports_found = Some 8,
         status = ''completed'', error_message = None\<rparr>],
     changes =
       [\<lparr>change_id = 1, chg_scan_id = 2, chg_device_id = 2, change_type = ''new_port'',
         details = ''New port discovered: 80/tcp - http'',
         chg_timestamp = ex_now - 5 * Day\<rparr>,
        \<lparr>change_id = 2, chg_scan_id = 2, chg_device_id = 1, change_type = ''new_port'',
         details = ''New port discovered: 80/tcp - http'',
         chg_timestamp = ex_now - 5 * Day\<rparr>],
     logs = [],
     seq_devices = 3, seq_ports = 3, seq_scans = 2, seq_changes = 2, seq_logs = 0\<rparr>"

section \<open>Columns that an update must leave alone\<close>

definition device_frame :: "device_row \<Rightarrow> int \<times> string \<times> time" where
  "device_frame r = (dev_id r, ip_address r, dev_first_seen r)"

definition port_frame :: "port_row \<Rightarrow> int \<times> int \<times> int \<times> string \<times> time" where
  "port_frame r = (port_id r, device_id r, port_number r, protocol r, port_first_seen r)"

section \<open>Concurrent callers of the two entry points (scanner.go)\<close>

text \<open>
  Several goroutines call \<open>RunScan\<close> and \<open>RunManualScan\<close> on one service. \<open>scanLock\<close> is a
  \<open>sync.Mutex\<close>: \<open>Lock\<close> blocks while another goroutine holds it. A caller goes through the
  statements around the lock one at a time, and between any two of them the other callers
  may take steps of their own. The program points of one call:
\<close>

datatype pc =
    AtLock
  | AtCheck
  | AtReject
  | AtSetFlag
  | AtSetStats
  | AtUnlock
  | AtBody
  | AtDeferLock "int \<times> error option"
  | AtClearFlag "int \<times> error option"
  | AtSetEnd "int \<times> error option"
  | AtDeferUnlock "int \<times> error option"
  | Returned "int \<times> error option"

text \<open>
  \<open>AtLock\<close>: before \<open>s.scanLock.Lock()\<close>. \<open>AtCheck\<close>: the lock is held, before
  \<open>if s.isScanning\<close>. \<open>AtReject\<close>: in the branch, before \<open>s.scanLock.Unlock()\<close> and the return
  of the error. \<open>AtSetFlag\<close>: before \<open>s.isScanning = true\<close>. \<open>AtSetStats\<close>: before
  \<open>s.scanStats = &ScanStats{...}\<close>. \<open>AtUnlock\<close>: before \<open>s.scanLock.Unlock()\<close>. \<open>AtBody\<close>: before
  the statements that follow, up to the return. \<open>AtDeferLock r\<close>: the body has returned \<open>r\<close>
  and the deferred function is before \<open>s.scanLock.Lock()\<close>. \<open>AtClearFlag r\<close>: before
  \<open>s.isScanning = false\<close>. \<open>AtSetEnd r\<close>: before \<open>s.scanStats.EndTime = time.Now()\<close>.
  \<open>AtDeferUnlock r\<close>: before \<open>s.scanLock.Unlock()\<close>. \<open>Returned r\<close>: the call has returned \<open>r\<close>.
\<close>

datatype call = CallRunScan string | CallRunManualScan ScanParameters

text \<open>The shared state: who holds \<open>scanLock\<close>, the service, and where each caller stands.\<close>

record shared =
  scanLock :: "nat option"
  service :: ScanService
  pcs :: "nat \<Rightarrow> pc"

definition start :: "ScanService \<Rightarrow> shared" where
  "start s = \<lparr>scanLock = None, service = s, pcs = (\<lambda>_. AtLock)\<rparr>"

text \<open>The statements between the two locked regions, and the whole call as one caller
  alone runs it.\<close>

fun Run_body ::
  "world \<times> call \<Rightarrow> ScanService \<Rightarrow> (int \<times> error option) \<times> ScanService" where
  "Run_body (w, CallRunScan templateName) s = RunScan_body w templateName s"
| "Run_body (w, CallRunManualScan params) s = RunManualScan_body w params s"

fun Run :: "world \<times> call \<Rightarrow> ScanService \<Rightarrow> (int \<times> error option) \<times> ScanService" where
  "Run (w, CallRunScan templateName) s = RunScan w templateName s"
| "Run (w, CallRunManualScan params) s = RunManualScan w params s"

text \<open>
  One step of caller \<open>a\<close>, whose call and surroundings are \<open>prog a\<close>. In the order of the
  source: \<open>s.scanLock.Lock()\<close>, enabled only when the lock is free; \<open>if s.isScanning\<close>;
  in the branch, \<open>Unlock\<close> and the return of the contention error; otherwise
  \<open>s.isScanning = true\<close>; \<open>s.scanStats = &ScanStats{...}\<close>; \<open>Unlock\<close>; the body; and the
  deferred function: \<open>Lock\<close>, \<open>s.isScanning = false\<close>, \<open>s.scanStats.EndTime = time.Now()\<close>,
  \<open>Unlock\<close>. A caller that is blocked or has returned leaves the state as it is. The body
  is one step that may happen at any moment after the \<open>Unlock\<close>; it takes \<open>scanLock\<close> itself
  around its updates of \<open>scanStats\<close>, which is not modelled, so that it is enabled here
  whether or not the lock is free.
\<close>

definition step :: "(nat \<Rightarrow> world \<times> call) \<Rightarrow> nat \<Rightarrow> shared \<Rightarrow> shared" where
  "step prog a \<sigma> =
     (let w = fst (prog a); s = service \<sigma> in
      case pcs \<sigma> a of
        AtLock \<Rightarrow>
          (if scanLock \<sigma> = None then \<sigma>\<lparr>scanLock := Some a, pcs := (pcs \<sigma>)(a := AtCheck)\<rparr>
           else \<sigma>)
      | AtCheck \<Rightarrow> \<sigma>\<lparr>pcs := (pcs \<sigma>)(a := if isScanning s then AtReject else AtSetFlag)\<rparr>
      | AtReject \<Rightarrow>
          \<sigma>\<lparr>scanLock := None, pcs := (pcs \<sigma>)(a := Returned (0, Some already_in_progress))\<rparr>
      | AtSetFlag \<Rightarrow> \<sigma>\<lparr>service := s\<lparr>isScanning := True\<rparr>, pcs := (pcs \<sigma>)(a := AtSetStats)\<rparr>
      | AtSetStats \<Rightarrow>
          \<sigma>\<lparr>service := s\<lparr>scanStats := \<lparr>ScanID = 0, StartTime = now_started w, EndTime = 0,
                                        Status = ''running'', DevicesFound = 0, PortsFound = 0,
                                        Err = None\<rparr>\<rparr>,
            pcs := (pcs \<sigma>)(a := AtUnlock)\<rparr>
      | AtUnlock \<Rightarrow> \<sigma>\<lparr>scanLock := None, pcs := (pcs \<sigma>)(a := AtBody)\<rparr>
      | AtBody \<Rightarrow>
          (case Run_body (prog a) s of
             (r, s') \<Rightarrow> \<sigma>\<lparr>service := s', pcs := (pcs \<sigma>)(a := AtDeferLock r)\<rparr>)
      | AtDeferLock r \<Rightarrow>
          (if scanLock \<sigma> = None then \<sigma>\<lparr>scanLock := Some a, pcs := (pcs \<sigma>)(a := AtClearFlag r)\<rparr>
           else \<sigma>)
      | AtClearFlag r \<Rightarrow>
          \<sigma>\<lparr>service := s\<lparr>isScanning := False\<rparr>, pcs := (pcs \<sigma>)(a := AtSetEnd r)\<rparr>
      | AtSetEnd r \<Rightarrow>
          \<sigma>\<lparr>service := s\<lparr>scanStats := (scanStats s)\<lparr>EndTime := now_ended w\<rparr>\<rparr>,
            pcs := (pcs \<sigma>)(a := AtDeferUnlock r)\<rparr>
      | AtDeferUnlock r \<Rightarrow> \<sigma>\<lparr>scanLock := None, pcs := (pcs \<sigma>)(a := Returned r)\<rparr>
      | Returned r \<Rightarrow> \<sigma>)"

text \<open>A schedule names the caller that moves next; \<open>run\<close> follows it.\<close>

fun run :: "(nat \<Rightarrow> world \<times> call) \<Rightarrow> nat list \<Rightarrow> shared \<Rightarrow> shared" where
  "run prog [] \<sigma> = \<sigma>"
| "run prog (a # as) \<sigma> = run prog as (step prog a \<sigma>)"

text \<open>The program points at which a caller holds \<open>scanLock\<close>, and those between its own
  \<open>s.isScanning = true\<close> and its own \<open>s.isScanning = false\<close>.\<close>

fun holds_lock :: "pc \<Rightarrow> bool" where
  "holds_lock AtCheck = True"
| "holds_lock AtReject = True"
| "holds_lock AtSetFlag = True"
| "holds_lock AtSetStats = True"
| "holds_lock AtUnlock = True"
| "holds_lock (AtClearFlag r) = True"
| "holds_lock (AtSetEnd r) = True"
| "holds_lock (AtDeferUnlock r) = True"
| "holds_lock _ = False"

fun admitted :: "pc \<Rightarrow> bool" where
  "admitted AtSetStats = True"
| "admitted AtUnlock = True"
| "admitted AtBody = True"
| "admitted (AtDeferLock r) = True"
| "admitted (AtClearFlag r) = True"
| "admitted _ = False"

definition single_flight_inv :: "shared \<Rightarrow> bool" where
  "single_flight_inv \<sigma> =
     ((\<forall>a. holds_lock (pcs \<sigma> a) \<longleftrightarrow> scanLock \<sigma> = Some a)
      \<and> (isScanning (service \<sigma>) \<longleftrightarrow> (\<exists>a. admitted (pcs \<sigma> a)))
      \<and> (\<forall>a b. admitted (pcs \<sigma> a) \<and> admitted (pcs \<sigma> b) \<longrightarrow> a = b)
      \<and> (\<forall>a. pcs \<sigma> a = AtSetFlag \<longrightarrow> \<not> isScanning (service \<sigma>))
      \<and> (\<forall>a. pcs \<sigma> a = AtReject \<longrightarrow> isScanning (service \<sigma>)))"

text \<open>Two callers: a scheduled scan and a manual scan.\<close>

definition ex_prog :: "nat \<Rightarrow> world \<times> call" where
  "ex_prog a = (if a = 0 then (ex_world_start, CallRunScan ''default'')
                else (ex_world_wait, CallRunManualScan ex_params))"

text \<open>The first caller takes the lock, is let through and unlocks, while the second has
  to wait for the lock, then checks and is refused.\<close>

definition ex_schedule :: "nat list" where
  "ex_schedule = [0, 1, 0, 0, 0, 0, 1, 1, 1]"

section \<open>Properties\<close>

lemma Itoa_1000: "Itoa 1000 = ''1000''"
  by code_simp

subsection \<open>Single-flight scans\<close>

lemma mock_scan_isScanning:
  "isScanning (snd (mock_scan w tmpl msg dc pc s)) = isScanning s"
  by (auto simp: mock_scan_def updateScanError_def setScanID_def setCompleted_def
      updateScanInDB_def Let_def split: prod.splits sum.splits)

lemma updateScanInDB_isScanning:
  "isScanning (snd (updateScanInDB w i st dc pc dur s)) = isScanning s"
  by (auto simp: updateScanInDB_def split: prod.splits)

lemma execute_scan_isScanning:
  "isScanning (snd (execute_scan w i cmd path s)) = isScanning s"
  by (auto simp: execute_scan_def updateScanError_def setCompleted_def
      updateScanInDB_def Let_def split: prod.splits proc_result.splits option.splits)

lemma RunScan_body_isScanning:
  "isScanning (snd (RunScan_body w n s)) = isScanning s"
  by (auto simp: RunScan_body_def mock_scan_isScanning execute_scan_isScanning
      updateScanError_def setScanID_def Let_def split: sum.splits prod.splits)

lemma RunManualScan_body_isScanning:
  "isScanning (snd (RunManualScan_body w p s)) = isScanning s"
  by (auto simp: RunManualScan_body_def mock_scan_isScanning execute_scan_isScanning
      updateScanInDB_def
      updateScanError_def setScanID_def Let_def split: sum.splits prod.splits)

lemma Run_body_isScanning:
  "isScanning (snd (Run_body p s)) = isScanning s"
proof (cases p)
  case (Pair w c)
  then show ?thesis
    by (cases c) (simp_all add: RunScan_body_isScanning RunManualScan_body_isScanning)
qed


lemma inv_lock:
  assumes inv: "\<forall>b. holds_lock (pcs \<sigma> b) \<longleftrightarrow> scanLock \<sigma> = Some b"
    and p: "pcs \<sigma>' = (pcs \<sigma>)(a := p')"
    and l: "scanLock \<sigma>' = (if holds_lock p' then Some a
                         else if holds_lock (pcs \<sigma> a) then None else scanLock \<sigma>)"
    and free: "holds_lock p' \<and> \<not> holds_lock (pcs \<sigma> a) \<longrightarrow> scanLock \<sigma> = None"
  shows "holds_lock (pcs \<sigma>' b) \<longleftrightarrow> scanLock \<sigma>' = Some b"
proof (cases "b = a")
  case True
  with inv p l show ?thesis by auto
next
  case False
  from inv have ia: "holds_lock (pcs \<sigma> a) \<longleftrightarrow> scanLock \<sigma> = Some a"
    and ib: "holds_lock (pcs \<sigma> b) \<longleftrightarrow> scanLock \<sigma> = Some b" by blast+
  from False p have "pcs \<sigma>' b = pcs \<sigma> b" by simp
  with False ia ib l free show ?thesis by auto
qed


lemma inv_flag:
  assumes e: "isScanning (service \<sigma>) \<longleftrightarrow> (\<exists>b. admitted (pcs \<sigma> b))"
    and u: "\<forall>b c. admitted (pcs \<sigma> b) \<and> admitted (pcs \<sigma> c) \<longrightarrow> b = c"
    and p: "pcs \<sigma>' = (pcs \<sigma>)(a := p')"
    and f: "isScanning (service \<sigma>') =
              (if admitted p' then True
               else if admitted (pcs \<sigma> a) then False else isScanning (service \<sigma>))"
    and adm: "admitted p' \<and> \<not> admitted (pcs \<sigma> a) \<longrightarrow> \<not> isScanning (service \<sigma>)"
  shows "(isScanning (service \<sigma>') \<longleftrightarrow> (\<exists>b. admitted (pcs \<sigma>' b)))
       \<and> (\<forall>b c. admitted (pcs \<sigma>' b) \<and> admitted (pcs \<sigma>' c) \<longrightarrow> b = c)"
proof -
  have others: "admitted (pcs \<sigma>' b) \<longleftrightarrow> admitted (pcs \<sigma> b)" if "b \<noteq> a" for b
    using that p by simp
  have self: "admitted (pcs \<sigma>' a) \<longleftrightarrow> admitted p'"
    using p by simp
  have none: "\<not> admitted (pcs \<sigma> b)" if "b \<noteq> a" "admitted p' \<or> admitted (pcs \<sigma> a)" for b
  proof (cases "admitted (pcs \<sigma> a)")
    case True
    with u that show ?thesis by blast
  next
    case False
    with that adm e show ?thesis by blast
  qed
  show ?thesis
  proof (cases "admitted p' \<or> admitted (pcs \<sigma> a)")
    case True
    with none others self f show ?thesis by (metis (full_types))
  next
    case False
    with others self f e u show ?thesis by (metis (full_types))
  qed
qed

lemma inv_branch:
  assumes l: "\<forall>b. holds_lock (pcs \<sigma> b) \<longleftrightarrow> scanLock \<sigma> = Some b"
    and s: "\<forall>b. pcs \<sigma> b = AtSetFlag \<longrightarrow> \<not> isScanning (service \<sigma>)"
    and r: "\<forall>b. pcs \<sigma> b = AtReject \<longrightarrow> isScanning (service \<sigma>)"
    and p: "pcs \<sigma>' = (pcs \<sigma>)(a := p')"
    and ch: "isScanning (service \<sigma>') \<noteq> isScanning (service \<sigma>) \<longrightarrow> holds_lock (pcs \<sigma> a)"
    and s': "p' = AtSetFlag \<longrightarrow> \<not> isScanning (service \<sigma>')"
    and r': "p' = AtReject \<longrightarrow> isScanning (service \<sigma>')"
  shows "(\<forall>b. pcs \<sigma>' b = AtSetFlag \<longrightarrow> \<not> isScanning (service \<sigma>'))
       \<and> (\<forall>b. pcs \<sigma>' b = AtReject \<longrightarrow> isScanning (service \<sigma>'))"
proof (intro conjI allI impI)
  fix b assume b: "pcs \<sigma>' b = AtSetFlag"
  show "\<not> isScanning (service \<sigma>')"
  proof (cases "b = a")
    case True
    with b p s' show ?thesis by simp
  next
    case False
    with b p have o: "pcs \<sigma> b = AtSetFlag" by simp
    then have "holds_lock (pcs \<sigma> b)" by simp
    with l False have "\<not> holds_lock (pcs \<sigma> a)" by auto
    with ch o s show ?thesis by blast
  qed
next
  fix b assume b: "pcs \<sigma>' b = AtReject"
  show "isScanning (service \<sigma>')"
  proof (cases "b = a")
    case True
    with b p r' show ?thesis by simp
  next
    case False
    with b p have o: "pcs \<sigma> b = AtReject" by simp
    then have "holds_lock (pcs \<sigma> b)" by simp
    with l False have "\<not> holds_lock (pcs \<sigma> a)" by auto
    with ch o r show ?thesis by blast
  qed
qed

lemma step_inv:
  assumes "single_flight_inv \<sigma>"
  shows "single_flight_inv (step prog a \<sigma>)"
proof -
  from assms have
    l: "\<forall>b. holds_lock (pcs \<sigma> b) \<longleftrightarrow> scanLock \<sigma> = Some b"
    and e: "isScanning (service \<sigma>) \<longleftrightarrow> (\<exists>b. admitted (pcs \<sigma> b))"
    and u: "\<forall>b c. admitted (pcs \<sigma> b) \<and> admitted (pcs \<sigma> c) \<longrightarrow> b = c"
    and s: "\<forall>b. pcs \<sigma> b = AtSetFlag \<longrightarrow> \<not> isScanning (service \<sigma>)"
    and r: "\<forall>b. pcs \<sigma> b = AtReject \<longrightarrow> isScanning (service \<sigma>)"
    unfolding single_flight_inv_def by blast+
  from l have la: "holds_lock (pcs \<sigma> a) \<longleftrightarrow> scanLock \<sigma> = Some a" by blast
  from e have ea: "admitted (pcs \<sigma> a) \<longrightarrow> isScanning (service \<sigma>)" by blast
  from s have sa: "pcs \<sigma> a = AtSetFlag \<longrightarrow> \<not> isScanning (service \<sigma>)" by blast
  note body = Run_body_isScanning [of "prog a" "service \<sigma>"]
  define \<sigma>' where "\<sigma>' = step prog a \<sigma>"
  have p: "pcs \<sigma>' = (pcs \<sigma>)(a := pcs \<sigma>' a)"
    by (cases "pcs \<sigma> a") (auto simp: \<sigma>'_def step_def Let_def split_def)
  have lk: "scanLock \<sigma>' = (if holds_lock (pcs \<sigma>' a) then Some a
                         else if holds_lock (pcs \<sigma> a) then None else scanLock \<sigma>)"
    using la by (cases "pcs \<sigma> a") (auto simp: \<sigma>'_def step_def Let_def split_def)
  have free: "holds_lock (pcs \<sigma>' a) \<and> \<not> holds_lock (pcs \<sigma> a) \<longrightarrow> scanLock \<sigma> = None"
    by (cases "pcs \<sigma> a") (auto simp: \<sigma>'_def step_def Let_def split_def)
  have f: "isScanning (service \<sigma>') =
              (if admitted (pcs \<sigma>' a) then True
               else if admitted (pcs \<sigma> a) then False else isScanning (service \<sigma>))"
    using ea body by (cases "pcs \<sigma> a") (auto simp: \<sigma>'_def step_def Let_def split_def)
  have adm: "admitted (pcs \<sigma>' a) \<and> \<not> admitted (pcs \<sigma> a) \<longrightarrow> \<not> isScanning (service \<sigma>)"
    using sa by (cases "pcs \<sigma> a") (auto simp: \<sigma>'_def step_def Let_def split_def)
  have ch: "isScanning (service \<sigma>') \<noteq> isScanning (service \<sigma>) \<longrightarrow> holds_lock (pcs \<sigma> a)"
    using body by (cases "pcs \<sigma> a") (auto simp: \<sigma>'_def step_def Let_def split_def)
  have s': "pcs \<sigma>' a = AtSetFlag \<longrightarrow> \<not> isScanning (service \<sigma>')"
    using sa by (cases "pcs \<sigma> a") (auto simp: \<sigma>'_def step_def Let_def split_def)
  have r': "pcs \<sigma>' a = AtReject \<longrightarrow> isScanning (service \<sigma>')"
    using r by (cases "pcs \<sigma> a") (auto simp: \<sigma>'_def step_def Let_def split_def)
  have "\<forall>b. holds_lock (pcs \<sigma>' b) \<longleftrightarrow> scanLock \<sigma>' = Some b"
    using inv_lock [OF l p lk free] by blast
  moreover note inv_flag [OF e u p f adm] inv_branch [OF l s r p ch s' r']
  ultimately show ?thesis
    unfolding single_flight_inv_def \<sigma>'_def by blast
qed


lemma start_inv: "\<not> isScanning s \<Longrightarrow> single_flight_inv (start s)"
  by (simp add: single_flight_inv_def start_def)

lemma run_inv: "single_flight_inv \<sigma> \<Longrightarrow> single_flight_inv (run prog sched \<sigma>)"
  by (induction sched arbitrary: \<sigma>) (simp_all add: step_inv)

lemma step_other:
  "b \<noteq> a \<Longrightarrow> pcs (step prog b \<sigma>) a = pcs \<sigma> a"
  by (cases "pcs \<sigma> b") (auto simp: step_def Let_def split_def)

lemma step_lock_held:
  assumes "single_flight_inv \<sigma>" "scanLock \<sigma> = Some a" "b \<noteq> a"
  shows "scanLock (step prog b \<sigma>) = Some a
       \<and> isScanning (service (step prog b \<sigma>)) = isScanning (service \<sigma>)
       \<and> pcs (step prog b \<sigma>) a = pcs \<sigma> a"
proof -
  from assms have "\<not> holds_lock (pcs \<sigma> b)"
    unfolding single_flight_inv_def by auto
  moreover from assms(3) have "a \<noteq> b" by simp
  ultimately show ?thesis
    using assms(2) Run_body_isScanning [of "prog b" "service \<sigma>"]
    by (cases "pcs \<sigma> b") (auto simp: step_def Let_def split_def)
qed

lemma step_writes_database:
  "database (service (step prog a \<sigma>)) \<noteq> database (service \<sigma>) \<Longrightarrow> pcs \<sigma> a = AtBody"
  by (cases "pcs \<sigma> a") (auto simp: step_def Let_def split_def split: if_splits)

lemma step_before_admission:
  "pcs \<sigma> a = AtLock \<or> pcs \<sigma> a = AtCheck \<or> pcs \<sigma> a = AtReject
     \<Longrightarrow> service (step prog a \<sigma>) = service \<sigma>"
  by (auto simp: step_def Let_def)

lemma run_Returned:
  "pcs \<sigma> a = Returned r \<Longrightarrow> pcs (run prog sched \<sigma>) a = Returned r"
proof (induction sched arbitrary: \<sigma>)
  case (Cons b sched)
  have "pcs (step prog b \<sigma>) a = Returned r"
  proof (cases "b = a")
    case True
    with Cons.prems show ?thesis by (simp add: step_def)
  next
    case False
    with Cons.prems show ?thesis by (simp add: step_other)
  qed
  with Cons.IH show ?case by simp
qed simp

lemma run_AtReject:
  "pcs \<sigma> a = AtReject \<Longrightarrow>
     pcs (run prog sched \<sigma>) a
       = (if a \<in> set sched then Returned (0, Some already_in_progress) else AtReject)"
proof (induction sched arbitrary: \<sigma>)
  case (Cons b sched)
  show ?case
  proof (cases "b = a")
    case True
    with Cons.prems have "pcs (step prog b \<sigma>) a = Returned (0, Some already_in_progress)"
      by (simp add: step_def)
    with True show ?thesis by (simp add: run_Returned)
  next
    case False
    with Cons.prems have "pcs (step prog b \<sigma>) a = AtReject" by (simp add: step_other)
    with Cons.IH False show ?thesis by auto
  qed
qed simp

lemma run_AtCheck_busy:
  "single_flight_inv \<sigma> \<Longrightarrow> pcs \<sigma> a = AtCheck \<Longrightarrow> isScanning (service \<sigma>) \<Longrightarrow>
     pcs (run prog sched \<sigma>) a
       = (case count_list sched a of 0 \<Rightarrow> AtCheck | Suc 0 \<Rightarrow> AtReject
          | Suc (Suc n) \<Rightarrow> Returned (0, Some already_in_progress))"
proof (induction sched arbitrary: \<sigma>)
  case (Cons b sched)
  show ?case
  proof (cases "b = a")
    case True
    with Cons.prems have "pcs (step prog b \<sigma>) a = AtReject"
      by (simp add: step_def)
    from run_AtReject [OF this, where sched = sched] True show ?thesis
      by (auto simp: count_list_0_iff split: nat.splits)
  next
    case False
    from Cons.prems have "scanLock \<sigma> = Some a"
      unfolding single_flight_inv_def by (metis holds_lock.simps(1))
    from step_lock_held [OF Cons.prems(1) this False, where prog = prog] Cons.prems
    have "pcs (step prog b \<sigma>) a = AtCheck" "isScanning (service (step prog b \<sigma>))"
      by simp_all
    with Cons.IH [OF step_inv [OF Cons.prems(1)]] False show ?thesis by simp
  qed
qed simp

lemma call_while_busy:
  assumes "pcs \<sigma> a = AtLock" "scanLock \<sigma> = None" "isScanning (service \<sigma>)"
  shows "run prog [a, a, a] \<sigma> = \<sigma>\<lparr>pcs := (pcs \<sigma>)(a := Returned (0, Some already_in_progress))\<rparr>"
  using assms by (simp add: step_def)

lemma reject_means_other:
  assumes "single_flight_inv \<sigma>" "pcs \<sigma> a = AtReject"
  shows "\<exists>b. b \<noteq> a \<and> admitted (pcs \<sigma> b)"
proof -
  from assms have "isScanning (service \<sigma>)" unfolding single_flight_inv_def by blast
  with assms(1) obtain b where b: "admitted (pcs \<sigma> b)"
    unfolding single_flight_inv_def by blast
  with assms(2) have "b \<noteq> a" by auto
  with b show ?thesis by blast
qed


lemma step_at:
  "step prog a \<lparr>scanLock = l, service = s, pcs = g(a := p)\<rparr> =
     (case p of
        AtLock \<Rightarrow>
          (if l = None then \<lparr>scanLock = Some a, service = s, pcs = g(a := AtCheck)\<rparr>
           else \<lparr>scanLock = l, service = s, pcs = g(a := p)\<rparr>)
      | AtCheck \<Rightarrow>
          \<lparr>scanLock = l, service = s,
            pcs = g(a := if isScanning s then AtReject else AtSetFlag)\<rparr>
      | AtReject \<Rightarrow>
          \<lparr>scanLock = None, service = s,
            pcs = g(a := Returned (0, Some already_in_progress))\<rparr>
      | AtSetFlag \<Rightarrow>
          \<lparr>scanLock = l, service = s\<lparr>isScanning := True\<rparr>, pcs = g(a := AtSetStats)\<rparr>
      | AtSetStats \<Rightarrow>
          \<lparr>scanLock = l,
            service = s\<lparr>scanStats := \<lparr>ScanID = 0, StartTime = now_started (fst (prog a)),
                                        EndTime = 0, Status = ''running'', DevicesFound = 0,
                                        PortsFound = 0, Err = None\<rparr>\<rparr>,
            pcs = g(a := AtUnlock)\<rparr>
      | AtUnlock \<Rightarrow> \<lparr>scanLock = None, service = s, pcs = g(a := AtBody)\<rparr>
      | AtBody \<Rightarrow>
          \<lparr>scanLock = l, service = snd (Run_body (prog a) s),
            pcs = g(a := AtDeferLock (fst (Run_body (prog a) s)))\<rparr>
      | AtDeferLock r \<Rightarrow>
          (if l = None then \<lparr>scanLock = Some a, service = s, pcs = g(a := AtClearFlag r)\<rparr>
           else \<lparr>scanLock = l, service = s, pcs = g(a := p)\<rparr>)
      | AtClearFlag r \<Rightarrow>
          \<lparr>scanLock = l, service = s\<lparr>isScanning := False\<rparr>, pcs = g(a := AtSetEnd r)\<rparr>
      | AtSetEnd r \<Rightarrow>
          \<lparr>scanLock = l,
            service = s\<lparr>scanStats := (scanStats s)\<lparr>EndTime := now_ended (fst (prog a))\<rparr>\<rparr>,
            pcs = g(a := AtDeferUnlock r)\<rparr>
      | AtDeferUnlock r \<Rightarrow> \<lparr>scanLock = None, service = s, pcs = g(a := Returned r)\<rparr>
      | Returned r \<Rightarrow> \<lparr>scanLock = l, service = s, pcs = g(a := p)\<rparr>)"
  by (cases p) (simp_all add: step_def Let_def split_def)

lemma start_at: "start s = \<lparr>scanLock = None, service = s, pcs = (\<lambda>_. AtLock)(a := AtLock)\<rparr>"
  by (simp add: start_def fun_eq_iff)

lemma Run_unfold:
  "Run p s =
     (if isScanning s then ((0, Some already_in_progress), s)
      else (fst (Run_body p (the (beginScan (now_started (fst p)) s))),
            endScan (now_ended (fst p))
              (snd (Run_body p (the (beginScan (now_started (fst p)) s))))))"
proof (cases p)
  case (Pair w c)
  then show ?thesis
    by (cases c) (simp_all add: RunScan_def RunManualScan_def beginScan_def split_def)
qed

lemma solo_run:
  "pcs (run prog [a, a, a, a, a, a, a, a, a, a] (start s)) a = Returned (fst (Run (prog a) s))
   \<and> service (run prog [a, a, a, a, a, a, a, a, a, a] (start s)) = snd (Run (prog a) s)
   \<and> scanLock (run prog [a, a, a, a, a, a, a, a, a, a] (start s)) = None"
  unfolding start_at [of s a] Run_unfold
  by (simp add: step_at beginScan_def endScan_def)

text \<open>
  The check and the transition are separate steps, and it is the lock that keeps them
  together: from a state in which two callers stand at the check at once, which
  \<open>scanLock\<close> rules out, both are let through.
\<close>

lemma two_checks_without_lock:
  "admitted (pcs (run ex_prog [0, 1, 0, 1]
       \<lparr>scanLock = None, service = ex_service, pcs = (\<lambda>_. AtCheck)\<rparr>) 0)
   \<and> admitted (pcs (run ex_prog [0, 1, 0, 1]
       \<lparr>scanLock = None, service = ex_service, pcs = (\<lambda>_. AtCheck)\<rparr>) 1)"
  by (simp add: step_def ex_service_def New_def)

text \<open>
  C3. A call to \<open>RunScan\<close> or \<open>RunManualScan\<close> made while a scan is in progress returns the
  contention error and leaves the service, and with it the table of Scan rows, as it was;
  a caller that is let through leaves the service running, so that the next check is
  refused. This is so for callers that run concurrently. One caller running alone goes
  through its ten steps to the result and the service state of \<open>RunScan\<close> or
  \<open>RunManualScan\<close>. For any number of callers, started on an idle service and scheduled
  in any order: at most one caller is between its \<open>s.isScanning = true\<close> and its
  \<open>s.isScanning = false\<close>, and \<open>isScanning\<close> is set exactly while there is one; a caller is
  at a statement of a locked region exactly when it holds \<open>scanLock\<close>; while a caller holds
  the lock, no step of another caller takes the lock, changes \<open>isScanning\<close> or moves the
  holder, so its check and its transition to running are not interleaved with any other
  check or transition; a call started with the lock free while a scan is in progress
  returns the contention error in three steps and changes nothing else; a caller that has
  taken the lock while a scan is in progress returns the contention error at its second
  step from there, whatever the other callers do in between; a caller is refused only
  while another caller's scan is in progress; the steps up to the refusal do not change
  the service; and only the body of the caller whose scan is in progress writes to the
  database.
\<close>

theorem single_flight:
  "(isScanning s \<longrightarrow>
      RunScan w templateName s = ((0, Some already_in_progress), s)
    \<and> RunManualScan w params s = ((0, Some already_in_progress), s))
   \<and> (beginScan t s0 = Some s1 \<longrightarrow>
        isScanning s1 \<and> Status (scanStats s1) = ''running'' \<and> beginScan t' s1 = None)
   \<and> (pcs (run prog [c, c, c, c, c, c, c, c, c, c] (start s2)) c
          = Returned (fst (Run (prog c) s2))
      \<and> service (run prog [c, c, c, c, c, c, c, c, c, c] (start s2)) = snd (Run (prog c) s2)
      \<and> scanLock (run prog [c, c, c, c, c, c, c, c, c, c] (start s2)) = None)
   \<and> (\<not> isScanning s3 \<longrightarrow>
        (let \<sigma> = run prog sched (start s3) in
           (\<forall>a b. admitted (pcs \<sigma> a) \<and> admitted (pcs \<sigma> b) \<longrightarrow> a = b)
         \<and> (isScanning (service \<sigma>) \<longleftrightarrow> (\<exists>a. admitted (pcs \<sigma> a)))
         \<and> (\<forall>a. holds_lock (pcs \<sigma> a) \<longleftrightarrow> scanLock \<sigma> = Some a)
         \<and> (\<forall>a b. scanLock \<sigma> = Some a \<and> b \<noteq> a \<longrightarrow>
               scanLock (step prog b \<sigma>) = Some a
             \<and> isScanning (service (step prog b \<sigma>)) = isScanning (service \<sigma>)
             \<and> pcs (step prog b \<sigma>) a = pcs \<sigma> a)
         \<and> (\<forall>a. pcs \<sigma> a = AtLock \<and> scanLock \<sigma> = None \<and> isScanning (service \<sigma>) \<longrightarrow>
               run prog [a, a, a] \<sigma>
                 = \<sigma>\<lparr>pcs := (pcs \<sigma>)(a := Returned (0, Some already_in_progress))\<rparr>)
         \<and> (\<forall>a more. pcs \<sigma> a = AtCheck \<and> isScanning (service \<sigma>) \<longrightarrow>
               pcs (run prog more \<sigma>) a
                 = (case count_list more a of
                      0 \<Rightarrow> AtCheck
                    | Suc 0 \<Rightarrow> AtReject
                    | Suc (Suc n) \<Rightarrow> Returned (0, Some already_in_progress)))
         \<and> (\<forall>a. pcs \<sigma> a = AtReject \<longrightarrow> (\<exists>b. b \<noteq> a \<and> admitted (pcs \<sigma> b)))
         \<and> (\<forall>a. pcs \<sigma> a = AtLock \<or> pcs \<sigma> a = AtCheck \<or> pcs \<sigma> a = AtReject \<longrightarrow>
               service (step prog a \<sigma>) = service \<sigma>)
         \<and> (\<forall>a. database (service (step prog a \<sigma>)) \<noteq> database (service \<sigma>) \<longrightarrow>
               pcs \<sigma> a = AtBody)))"
proof (intro conjI impI)
  assume "isScanning s"
  then show "RunScan w templateName s = ((0, Some already_in_progress), s)"
    and "RunManualScan w params s = ((0, Some already_in_progress), s)"
    by (simp_all add: RunScan_def RunManualScan_def beginScan_def)
next
  assume "beginScan t s0 = Some s1"
  then show "isScanning s1" and "Status (scanStats s1) = ''running''"
    and "beginScan t' s1 = None"
    by (auto simp: beginScan_def split: if_splits)
next
  show "pcs (run prog [c, c, c, c, c, c, c, c, c, c] (start s2)) c
          = Returned (fst (Run (prog c) s2))"
    and "service (run prog [c, c, c, c, c, c, c, c, c, c] (start s2)) = snd (Run (prog c) s2)"
    and "scanLock (run prog [c, c, c, c, c, c, c, c, c, c] (start s2)) = None"
    using solo_run [of prog c s2] by simp_all
next
  assume "\<not> isScanning s3"
  then have inv: "single_flight_inv (run prog sched (start s3))"
    by (intro run_inv start_inv)
  define \<sigma> where "\<sigma> = run prog sched (start s3)"
  from inv have i: "single_flight_inv \<sigma>" by (simp add: \<sigma>_def)
  have "(\<forall>a b. admitted (pcs \<sigma> a) \<and> admitted (pcs \<sigma> b) \<longrightarrow> a = b)
      \<and> (isScanning (service \<sigma>) \<longleftrightarrow> (\<exists>a. admitted (pcs \<sigma> a)))
      \<and> (\<forall>a. holds_lock (pcs \<sigma> a) \<longleftrightarrow> scanLock \<sigma> = Some a)"
    using i unfolding single_flight_inv_def by blast
  moreover have "\<forall>a b. scanLock \<sigma> = Some a \<and> b \<noteq> a \<longrightarrow>
        scanLock (step prog b \<sigma>) = Some a
      \<and> isScanning (service (step prog b \<sigma>)) = isScanning (service \<sigma>)
      \<and> pcs (step prog b \<sigma>) a = pcs \<sigma> a"
    using step_lock_held [OF i] by blast
  moreover have "\<forall>a. pcs \<sigma> a = AtLock \<and> scanLock \<sigma> = None \<and> isScanning (service \<sigma>) \<longrightarrow>
        run prog [a, a, a] \<sigma>
          = \<sigma>\<lparr>pcs := (pcs \<sigma>)(a := Returned (0, Some already_in_progress))\<rparr>"
    using call_while_busy [of \<sigma> _ prog] by blast
  moreover have "\<forall>a more. pcs \<sigma> a = AtCheck \<and> isScanning (service \<sigma>) \<longrightarrow>
        pcs (run prog more \<sigma>) a
          = (case count_list more a of
               0 \<Rightarrow> AtCheck
             | Suc 0 \<Rightarrow> AtReject
             | Suc (Suc n) \<Rightarrow> Returned (0, Some already_in_progress))"
    using run_AtCheck_busy [OF i] by blast
  moreover have "\<forall>a. pcs \<sigma> a = AtReject \<longrightarrow> (\<exists>b. b \<noteq> a \<and> admitted (pcs \<sigma> b))"
    using reject_means_other [OF i] by blast
  moreover have "\<forall>a. pcs \<sigma> a = AtLock \<or> pcs \<sigma> a = AtCheck \<or> pcs \<sigma> a = AtReject \<longrightarrow>
        service (step prog a \<sigma>) = service \<sigma>"
    using step_before_admission [of \<sigma> _ prog] by blast
  moreover have "\<forall>a. database (service (step prog a \<sigma>)) \<noteq> database (service \<sigma>) \<longrightarrow>
        pcs \<sigma> a = AtBody"
    using step_writes_database [of prog _ \<sigma>] by blast
  ultimately show "let \<sigma> = run prog sched (start s3) in
           (\<forall>a b. admitted (pcs \<sigma> a) \<and> admitted (pcs \<sigma> b) \<longrightarrow> a = b)
         \<and> (isScanning (service \<sigma>) \<longleftrightarrow> (\<exists>a. admitted (pcs \<sigma> a)))
         \<and> (\<forall>a. holds_lock (pcs \<sigma> a) \<longleftrightarrow> scanLock \<sigma> = Some a)
         \<and> (\<forall>a b. scanLock \<sigma> = Some a \<and> b \<noteq> a \<longrightarrow>
               scanLock (step prog b \<sigma>) = Some a
             \<and> isScanning (service (step prog b \<sigma>)) = isScanning (service \<sigma>)
             \<and> pcs (step prog b \<sigma>) a = pcs \<sigma> a)
         \<and> (\<forall>a. pcs \<sigma> a = AtLock \<and> scanLock \<sigma> = None \<and> isScanning (service \<sigma>) \<longrightarrow>
               run prog [a, a, a] \<sigma>
                 = \<sigma>\<lparr>pcs := (pcs \<sigma>)(a := Returned (0, Some already_in_progress))\<rparr>)
         \<and> (\<forall>a more. pcs \<sigma> a = AtCheck \<and> isScanning (service \<sigma>) \<longrightarrow>
               pcs (run prog more \<sigma>) a
                 = (case count_list more a of
                      0 \<Rightarrow> AtCheck
                    | Suc 0 \<Rightarrow> AtReject
                    | Suc (Suc n) \<Rightarrow> Returned (0, Some already_in_progress)))
         \<and> (\<forall>a. pcs \<sigma> a = AtReject \<longrightarrow> (\<exists>b. b \<noteq> a \<and> admitted (pcs \<sigma> b)))
         \<and> (\<forall>a. pcs \<sigma> a = AtLock \<or> pcs \<sigma> a = AtCheck \<or> pcs \<sigma> a = AtReject \<longrightarrow>
               service (step prog a \<sigma>) = service \<sigma>)
         \<and> (\<forall>a. database (service (step prog a \<sigma>)) \<noteq> database (service \<sigma>) \<longrightarrow>
               pcs \<sigma> a = AtBody)"
    unfolding Let_def \<sigma>_def by blast
qed

theorem single_flight_witness:
  "isScanning ex_busy_service
   \<and> RunScan ex_world_start ''default'' ex_busy_service
       = ((0, Some already_in_progress), ex_busy_service)
   \<and> RunManualScan ex_world_start ex_params ex_busy_service
       = ((0, Some already_in_progress), ex_busy_service)
   \<and> beginScan 5 ex_service \<noteq> None
   \<and> beginScan 6 (the (beginScan 5 ex_service)) = None
   \<and> \<not> isScanning ex_service
   \<and> pcs (run ex_prog ex_schedule (start ex_service)) 0 = AtBody
   \<and> pcs (run ex_prog ex_schedule (start ex_service)) 1
       = Returned (0, Some already_in_progress)
   \<and> database (service (run ex_prog ex_schedule (start ex_service))) = empty_db
   \<and> isScanning (service (run ex_prog ex_schedule (start ex_service)))
   \<and> {a. admitted (pcs (run ex_prog ex_schedule (start ex_service)) a)} = {0}"
proof -
  have busy: "isScanning ex_busy_service"
    by (simp add: ex_busy_service_def)
  have idle: "beginScan 5 ex_service \<noteq> None"
    by (simp add: beginScan_def ex_service_def New_def)
  then have b: "beginScan 5 ex_service = Some (the (beginScan 5 ex_service))"
    by simp
  have free: "\<not> isScanning ex_service"
    by (simp add: ex_service_def New_def)
  have p0: "pcs (run ex_prog ex_schedule (start ex_service)) 0 = AtBody"
    and p1: "pcs (run ex_prog ex_schedule (start ex_service)) 1
       = Returned (0, Some already_in_progress)"
    and d: "database (service (run ex_prog ex_schedule (start ex_service))) = empty_db"
    by (simp_all add: ex_schedule_def step_def start_def ex_service_def New_def)
  note t = single_flight [of ex_busy_service ex_world_start "''default''" ex_params
      5 ex_service "the (beginScan 5 ex_service)" 6 ex_prog 0 ex_service ex_service
      ex_schedule]
  from t busy
  have seq: "RunScan ex_world_start ''default'' ex_busy_service
       = ((0, Some already_in_progress), ex_busy_service)"
    "RunManualScan ex_world_start ex_params ex_busy_service
       = ((0, Some already_in_progress), ex_busy_service)"
    by blast+
  from t b have again: "beginScan 6 (the (beginScan 5 ex_service)) = None"
    by blast
  from t free
  have u: "\<forall>a b. admitted (pcs (run ex_prog ex_schedule (start ex_service)) a)
              \<and> admitted (pcs (run ex_prog ex_schedule (start ex_service)) b) \<longrightarrow> a = b"
    and e: "isScanning (service (run ex_prog ex_schedule (start ex_service)))
              \<longleftrightarrow> (\<exists>a. admitted (pcs (run ex_prog ex_schedule (start ex_service)) a))"
    unfolding Let_def by blast+
  from p0 have a0: "admitted (pcs (run ex_prog ex_schedule (start ex_service)) 0)"
    by simp
  with e have run: "isScanning (service (run ex_prog ex_schedule (start ex_service)))"
    by blast
  from u a0 have only: "{a. admitted (pcs (run ex_prog ex_schedule (start ex_service)) a)} = {0}"
    by blast
  from busy seq idle again free p0 p1 d run only show ?thesis by blast
qed

subsection \<open>Template lookup\<close>

text \<open>
  C9. Resolving a template never fails. For a name that is not among the built-in
  templates, \<open>getScanTemplate\<close> logs one warning and returns the \<open>default\<close> template with
  no error, and a run under that name goes on to record its Scan row and to start nmap
  with the arguments of the \<open>default\<close> template.
\<close>

theorem unknown_template_falls_back:
  "(\<exists>t. snd (getScanTemplate name) = Inr t)
   \<and> (getTemplates name = None \<longrightarrow>
        getScanTemplate name = ([''Template not found, using default''], Inr default_template))
   \<and> (getTemplates name = None \<and> \<not> mockModeForTesting s \<and> cfg_TargetNetwork (cfg s) \<noteq> [] \<longrightarrow>
        RunScan_body w name s =
          (case CreateScan (connection w) (now_created w) name (database s) of
             (Inl e, d1) \<Rightarrow>
               ((0, Some e),
                updateScanError (wrap ''failed to record scan in database'' e)
                  (s\<lparr>database := d1\<rparr>))
           | (Inr dbScanID, d1) \<Rightarrow>
               execute_scan w dbScanID
                 [''-oX'', outputPath w (cfg s), ''-sS'', ''-sV'', ''-O'', ''--osscan-limit'',
                  ''--max-rate'', ''1000'', cfg_TargetNetwork (cfg s)]
                 (outputPath w (cfg s)) (setScanID dbScanID (s\<lparr>database := d1\<rparr>))))"
proof (intro conjI impI)
  show "\<exists>t. snd (getScanTemplate name) = Inr t"
    by (simp add: getScanTemplate_def split: option.split)
next
  assume "getTemplates name = None"
  then show "getScanTemplate name
      = ([''Template not found, using default''], Inr default_template)"
    by (simp add: getScanTemplate_def)
next
  assume a: "getTemplates name = None \<and> \<not> mockModeForTesting s
      \<and> cfg_TargetNetwork (cfg s) \<noteq> []"
  have r: "Itoa (RateLimit default_template) = ''1000''"
    unfolding default_template_def by (simp add: Itoa_1000)
  have p: "prepareScanCommand (cfg s) default_template (outputPath w (cfg s)) =
      Inr [''-oX'', outputPath w (cfg s), ''-sS'', ''-sV'', ''-O'', ''--osscan-limit'',
           ''--max-rate'', ''1000'', cfg_TargetNetwork (cfg s)]"
    using a unfolding prepareScanCommand_def Let_def r by (simp add: default_template_def)
  show "RunScan_body w name s =
          (case CreateScan (connection w) (now_created w) name (database s) of
             (Inl e, d1) \<Rightarrow>
               ((0, Some e),
                updateScanError (wrap ''failed to record scan in database'' e)
                  (s\<lparr>database := d1\<rparr>))
           | (Inr dbScanID, d1) \<Rightarrow>
               execute_scan w dbScanID
                 [''-oX'', outputPath w (cfg s), ''-sS'', ''-sV'', ''-O'', ''--osscan-limit'',
                  ''--max-rate'', ''1000'', cfg_TargetNetwork (cfg s)]
                 (outputPath w (cfg s)) (setScanID dbScanID (s\<lparr>database := d1\<rparr>)))"
    using a unfolding RunScan_body_def by (simp add: getScanTemplate_def p Let_def)
qed

theorem unknown_template_falls_back_witness:
  "getTemplates ''nightly'' = None
   \<and> \<not> mockModeForTesting ex_service
   \<and> cfg_TargetNetwork (cfg ex_service) \<noteq> []
   \<and> getScanTemplate ''nightly''
       = ([''Template not found, using default''], Inr default_template)
   \<and> fst (RunScan_body ex_world_start ''nightly'' ex_service)
       = (1, Some (Error ''exec: nmap: executable file not found''))"
proof -
  have h1: "getTemplates ''nightly'' = None"
    by (simp add: getTemplates_def)
  have h2: "\<not> mockModeForTesting ex_service"
    by (simp add: ex_service_def New_def)
  have h3: "cfg_TargetNetwork (cfg ex_service) \<noteq> []"
    by (simp add: ex_service_def New_def ex_config_def)
  have c: "CreateScan (connection ex_world_start) (now_created ex_world_start) ''nightly''
             (database ex_service) =
           (Inr 1, empty_db\<lparr>scans := [\<lparr>scan_id = 1, scan_timestamp = 11 * Second,
              template = ''nightly'', duration = Some 0, devices_found = Some 0,
              ports_found = Some 0, status = ''running'', error_message = None\<rparr>],
              seq_scans := 1\<rparr>)"
    by (simp add: CreateScan_def ex_world_start_def healthy_def ex_service_def New_def
        empty_db_def fresh_id_def)
  from unknown_template_falls_back [of "''nightly''" ex_service ex_world_start] h1 h2 h3
  have "RunScan_body ex_world_start ''nightly'' ex_service =
          (case CreateScan (connection ex_world_start) (now_created ex_world_start)
                  ''nightly'' (database ex_service) of
             (Inl e, d1) \<Rightarrow>
               ((0, Some e),
                updateScanError (wrap ''failed to record scan in database'' e)
                  (ex_service\<lparr>database := d1\<rparr>))
           | (Inr dbScanID, d1) \<Rightarrow>
               execute_scan ex_world_start dbScanID
                 [''-oX'', outputPath ex_world_start (cfg ex_service), ''-sS'', ''-sV'', ''-O'',
                  ''--osscan-limit'', ''--max-rate'', ''1000'', cfg_TargetNetwork (cfg ex_service)]
                 (outputPath ex_world_start (cfg ex_service))
                 (setScanID dbScanID (ex_service\<lparr>database := d1\<rparr>)))"
    by simp
  moreover have "\<And>cmd p st. fst (execute_scan ex_world_start 1 cmd p st)
      = (1, Some (Error ''exec: nmap: executable file not found''))"
    by (simp add: execute_scan_def ex_world_start_def updateScanInDB_def Let_def
        split: prod.splits)
  ultimately have "fst (RunScan_body ex_world_start ''nightly'' ex_service)
      = (1, Some (Error ''exec: nmap: executable file not found''))"
    unfolding c by simp
  with h1 h2 h3 show ?thesis
    by (simp add: getScanTemplate_def)
qed

subsection \<open>The manual scan command\<close>

lemma manual_command_shape:
  assumes "prepareManualScanCommand c t path params = Inr args"
  shows "args = [''-oX'', path]
            @ (if ScanAllPorts params
               then filter (\<lambda>a. \<not> prefix ''-p'' a) (NmapArgs t) @ [''-p-'']
               else NmapArgs t)
            @ (if DisablePing params \<and> ''-Pn'' \<notin> set (path # NmapArgs t)
               then [''-Pn''] else [])
            @ [''--max-rate'',
               Itoa (if ParamRateLimit params > 0 then ParamRateLimit params else RateLimit t),
               if TargetNetwork params \<noteq> [] then TargetNetwork params
               else cfg_TargetNetwork c]"
  using assms unfolding prepareManualScanCommand_def Let_def
  by (auto split: if_splits)

lemma nat_digits_chars: "set (nat_digits n) \<subseteq> set ''0123456789''"
proof (induction n rule: nat_digits.induct)
  case (1 n)
  have d: "\<And>k. k < 10 \<Longrightarrow> digit_char k \<in> set ''0123456789''"
    unfolding digit_char_def by (rule nth_mem) simp
  show ?case
  proof (cases "n < 10")
    case True
    then show ?thesis using d[of n] by (subst nat_digits.simps) simp
  next
    case False
    have "n mod 10 < 10" by simp
    with False 1 d[of "n mod 10"] show ?thesis
      by (subst nat_digits.simps) auto
  qed
qed

lemma Itoa_not_Pn: "Itoa i \<noteq> ''-Pn''"
proof
  assume a: "Itoa i = ''-Pn''"
  show False
  proof (cases "i < 0")
    case True
    with a have "nat_digits (nat (- i)) = ''Pn''" by (simp add: Itoa_def)
    then have "CHR ''P'' \<in> set (nat_digits (nat (- i)))" by simp
    with nat_digits_chars show False by fastforce
  next
    case False
    with a have "nat_digits (nat i) = ''-Pn''" by (simp add: Itoa_def)
    then have "CHR ''-'' \<in> set (nat_digits (nat i))" by simp
    with nat_digits_chars show False by fastforce
  qed
qed

lemma count_filter_Pn:
  "count_list (filter (\<lambda>a. \<not> prefix ''-p'' a) xs) ''-Pn'' = count_list xs ''-Pn''"
  by (induction xs) auto

lemma builtin_templates_no_Pn:
  assumes "snd (getScanTemplate name) = Inr t"
  shows "''-Pn'' \<notin> set (NmapArgs t)"
proof -
  from assms have "t = default_template \<or> t = quick_template \<or> t = thorough_template
      \<or> t = stealth_template"
    by (auto simp: getScanTemplate_def getTemplates_def split: option.splits if_splits)
  then show ?thesis
    by (auto simp: default_template_def quick_template_def thorough_template_def
        stealth_template_def)
qed

text \<open>With "disable ping" set, under each built-in template \<open>-Pn\<close> is in the invocation once,
  as long as neither the output path nor the target is itself \<open>-Pn\<close>.\<close>

lemma disable_ping_once:
  assumes t: "snd (getScanTemplate name) = Inr t"
    and a: "prepareManualScanCommand c t path params = Inr args"
    and p: "DisablePing params" "path \<noteq> ''-Pn''" "last args \<noteq> ''-Pn''"
  shows "count_list args ''-Pn'' = 1"
proof -
  note shape = manual_command_shape [OF a]
  from builtin_templates_no_Pn [OF t] have n: "count_list (NmapArgs t) ''-Pn'' = 0"
    by (simp add: count_list_0_iff)
  have l: "last args = (if TargetNetwork params \<noteq> [] then TargetNetwork params
                        else cfg_TargetNetwork c)"
    by (subst shape) simp
  from p l n builtin_templates_no_Pn [OF t] show ?thesis
    by (subst shape) (auto simp: count_filter_Pn Itoa_not_Pn split: if_splits)
qed

lemma Itoa_2000: "Itoa 2000 = ''2000''"
  by code_simp

text \<open>
  C8. With "scan all ports" set, the invocation should hold no template argument that
  selects ports, and \<open>-p-\<close> once. \<open>prepareManualScanCommand\<close> skips the template arguments
  that start with \<open>-p\<close> and appends \<open>-p-\<close>. The built-in \<open>quick\<close> template selects its ports
  with \<open>-F\<close>, which does not start with \<open>-p\<close>: a manual scan of all ports under that template
  is started with \<open>-F\<close> still among the arguments, next to \<open>-p-\<close>.
\<close>

theorem all_ports_keeps_fast_scan:
  "snd (getScanTemplate (Template ex_params_quick_all)) = Inr quick_template
   \<and> ScanAllPorts ex_params_quick_all
   \<and> outputPath ex_world_start ex_config = ''/var/scans/scan_0b5e.xml''
   \<and> prepareManualScanCommand ex_config quick_template
         (outputPath ex_world_start ex_config) ex_params_quick_all
       = Inr [''-oX'', ''/var/scans/scan_0b5e.xml'', ''-sS'', ''-F'', ''-p-'',
              ''--max-rate'', ''2000'', ''192.168.1.0/24'']"
  by (simp add: getScanTemplate_def getTemplates_def quick_template_def ex_params_quick_all_def
      prepareManualScanCommand_def outputPath_def ex_world_start_def ex_config_def Itoa_2000)

subsection \<open>Evaluating the store on the example values\<close>

lemmas store_defs =
  SaveDevice_def SaveDevice_tx_def SaveDevice_insert_def SaveDevice_update_def
  SavePort_def SavePort_tx_def SavePort_insert_def SavePort_update_def
  select_device_id_def select_device_old_def insert_device_def update_device_def
  select_port_def insert_port_def update_port_def
  record_change_def insert_change_def max_scan_id_def fresh_id_def
  devices_unique_def ports_unique_def device_key_def port_key_def
  device_exists_def scan_exists_def commit_def deferred_rollback_def
  hasChanges_def mac_changed_def hostname_changed_def os_changed_def changeDetails_def
  serviceChanged_def
  Truncate_def After_def Hour_def Second_def Let_def

lemma ex_db_scan_eq:
  "ex_db_scan = \<lparr>devices = [], ports = [],
     scans = [\<lparr>scan_id = 1, scan_timestamp = 480000 * Hour, template = ''default'',
               duration = Some 0, devices_found = Some 0, ports_found = Some 0,
               status = ''running'', error_message = None\<rparr>],
     changes = [], logs = [], seq_devices = 0, seq_ports = 0, seq_scans = 1,
     seq_changes = 0, seq_logs = 0\<rparr>"
  by (simp add: ex_db_scan_def CreateScan_def healthy_def empty_db_def fresh_id_def)

lemma ex_db_device_eq:
  "ex_db_device = \<lparr>devices =
       [\<lparr>dev_id = 1, ip_address = ''203.0.113.5'', mac_address = Some ''00:11:22:33:44:55'',
         hostname = Some ''printer'', os_fingerprint = Some ''Linux 5.10'',
         dev_first_seen = 480000 * Hour, dev_last_seen = 480000 * Hour\<rparr>],
     ports = [],
     scans = [\<lparr>scan_id = 1, scan_timestamp = 480000 * Hour, template = ''default'',
               duration = Some 0, devices_found = Some 0, ports_found = Some 0,
               status = ''running'', error_message = None\<rparr>],
     changes = [\<lparr>change_id = 1, chg_scan_id = 1, chg_device_id = 1,
                 change_type = ''new_device'',
                 details = ''New device discovered: 203.0.113.5'',
                 chg_timestamp = 480000 * Hour + 12 * Second\<rparr>],
     logs = [], seq_devices = 1, seq_ports = 0, seq_scans = 1, seq_changes = 1,
     seq_logs = 0\<rparr>"
  unfolding ex_db_device_def ex_db_scan_eq
  by (simp add: store_defs healthy_def ex_clock_def ex_device_def)

lemma Itoa_80: "Itoa 80 = ''80''"
  by code_simp

lemma ex_db_port_eq:
  "ex_db_port = ex_db_device\<lparr>ports :=
       [\<lparr>port_id = 1, device_id = 1, port_number = 80, protocol = ''tcp'',
         service_name = Some ''http'', service_version = Some ''Apache 2.4.41'',
         port_first_seen = 480000 * Hour, port_last_seen = 480000 * Hour\<rparr>],
     changes := changes ex_db_device @
       [\<lparr>change_id = 2, chg_scan_id = 1, chg_device_id = 1, change_type = ''new_port'',
         details = ''New port discovered: 80/tcp - http'',
         chg_timestamp = 480000 * Hour + 12 * Second\<rparr>],
     seq_ports := 1, seq_changes := 2\<rparr>"
  unfolding ex_db_port_def ex_db_device_eq
  by (simp add: store_defs healthy_def ex_clock_def ex_port_def Itoa_80)

subsection \<open>Transactions\<close>

lemma commit_cases:
  "commit c w r = (Inl e, x) \<Longrightarrow> x = None"
  "commit c w r = (Inr r', x) \<Longrightarrow> x = Some w \<and> r' = r"
  by (auto simp: commit_def split: option.splits)

lemma SaveDevice_insert_error:
  "SaveDevice_insert c k device rt w = (Inl e, x) \<Longrightarrow> x = None"
  by (auto simp: SaveDevice_insert_def split: option.splits sum.splits prod.splits
      dest: commit_cases)

lemma SaveDevice_update_error:
  "SaveDevice_update c k device rt i w = (Inl e, x) \<Longrightarrow> x = None"
  by (auto simp: SaveDevice_update_def Let_def
      split: option.splits sum.splits prod.splits if_splits dest: commit_cases)

lemma SaveDevice_tx_error:
  "SaveDevice_tx c k device w = (Inl e, x) \<Longrightarrow> x = None"
  by (auto simp: SaveDevice_tx_def Let_def split: option.splits
      dest: SaveDevice_insert_error SaveDevice_update_error)

lemma SavePort_insert_error:
  "SavePort_insert c k port rt w = (Inl e, x) \<Longrightarrow> x = None"
  by (auto simp: SavePort_insert_def split: option.splits sum.splits prod.splits
      dest: commit_cases)

lemma SavePort_update_error:
  "SavePort_update c k port rt i n v w = (Inl e, x) \<Longrightarrow> x = None"
  by (auto simp: SavePort_update_def Let_def split: option.splits if_splits dest: commit_cases)

lemma SavePort_tx_error:
  "SavePort_tx c k port w = (Inl e, x) \<Longrightarrow> x = None"
  by (auto simp: SavePort_tx_def Let_def split: option.splits prod.splits
      dest: SavePort_insert_error SavePort_update_error)

lemma CleanOldData_tx_error:
  "CleanOldData_tx c cutoff w = (Inl e, x) \<Longrightarrow> x = None"
  by (auto simp: CleanOldData_tx_def split: option.splits prod.splits dest: commit_cases)

subsection \<open>What an update leaves alone\<close>

lemma filter_map_same:
  "(\<And>x. P (f x) = P x) \<Longrightarrow> (\<And>x. P x \<Longrightarrow> f x = x) \<Longrightarrow> filter P (map f xs) = filter P xs"
  by (induction xs) auto

lemma record_change_frame [simp]:
  "devices (record_change c w i ty det ts) = devices w"
  "ports (record_change c w i ty det ts) = ports w"
  "scans (record_change c w i ty det ts) = scans w"
  "logs (record_change c w i ty det ts) = logs w"
  by (auto simp: record_change_def insert_change_def Let_def split: option.splits if_splits)

lemma update_device_frame:
  "update_device w i m h os ls = Inr w' \<Longrightarrow>
     map device_frame (devices w') = map device_frame (devices w) \<and> ports w' = ports w
     \<and> filter (\<lambda>r. dev_id r \<noteq> i) (devices w') = filter (\<lambda>r. dev_id r \<noteq> i) (devices w)"
  by (auto simp: update_device_def Let_def device_frame_def split: if_splits
       intro!: filter_map_same)

lemma SaveDevice_update_frame:
  "SaveDevice_update c k device rt i w = (r, Some w') \<Longrightarrow>
     map device_frame (devices w') = map device_frame (devices w) \<and> ports w' = ports w
     \<and> filter (\<lambda>r. dev_id r \<noteq> i) (devices w') = filter (\<lambda>r. dev_id r \<noteq> i) (devices w)"
  by (auto simp: SaveDevice_update_def Let_def commit_def
      split: option.splits sum.splits if_splits dest!: update_device_frame)

lemma update_port_frame:
  "map port_frame (ports (update_port w i n v ls)) = map port_frame (ports w)"
  "devices (update_port w i n v ls) = devices w"
  "filter (\<lambda>r. port_id r \<noteq> i) (ports (update_port w i n v ls))
     = filter (\<lambda>r. port_id r \<noteq> i) (ports w)"
  by (auto simp: update_port_def port_frame_def intro!: filter_map_same)

lemma SavePort_update_frame:
  "SavePort_update c k port rt i n v w = (r, Some w') \<Longrightarrow>
     map port_frame (ports w') = map port_frame (ports w) \<and> devices w' = devices w
     \<and> filter (\<lambda>r. port_id r \<noteq> i) (ports w') = filter (\<lambda>r. port_id r \<noteq> i) (ports w)"
  by (auto simp: SavePort_update_def Let_def commit_def update_port_frame
      split: option.splits if_splits)

text \<open>
  C10. When \<open>SaveDevice\<close> finds the device already present, the call, whether it succeeds or
  fails, leaves the \<open>id\<close>, \<open>ip_address\<close> and \<open>first_seen\<close> of every device row as they were,
  leaves every row other than the one found untouched, and does not touch the ports. When
  \<open>SavePort\<close> finds the port already present, it leaves the \<open>id\<close>, \<open>device_id\<close>,
  \<open>port_number\<close>, \<open>protocol\<close> and \<open>first_seen\<close> of every port row as they were, leaves every
  other port row untouched, and does not touch the devices. So only \<open>mac_address\<close>,
  \<open>hostname\<close>, \<open>os_fingerprint\<close> and \<open>last_seen\<close> (for a port \<open>service_name\<close>,
  \<open>service_version\<close> and \<open>last_seen\<close>) of the row found can change.
\<close>

theorem update_path_frame:
  "(select_device_id d (IPAddress device) (Some (MACAddress device)) = Some i \<longrightarrow>
      map device_frame (devices (snd (SaveDevice c k device d))) = map device_frame (devices d)
      \<and> filter (\<lambda>r. dev_id r \<noteq> i) (devices (snd (SaveDevice c k device d)))
          = filter (\<lambda>r. dev_id r \<noteq> i) (devices d)
      \<and> ports (snd (SaveDevice c k device d)) = ports d)
   \<and> (select_port d (DeviceID port) (PortNumber port) (Protocol port) = Some (j, sn, sv) \<longrightarrow>
      map port_frame (ports (snd (SavePort c k port d))) = map port_frame (ports d)
      \<and> filter (\<lambda>r. port_id r \<noteq> j) (ports (snd (SavePort c k port d)))
          = filter (\<lambda>r. port_id r \<noteq> j) (ports d)
      \<and> devices (snd (SavePort c k port d)) = devices d)"
proof (intro conjI impI)
  assume a: "select_device_id d (IPAddress device) (Some (MACAddress device)) = Some i"
  obtain r x where u: "SaveDevice_update c k device (Truncate (now_round k) Hour) i d = (r, x)"
    by (cases "SaveDevice_update c k device (Truncate (now_round k) Hour) i d")
  have s: "snd (SaveDevice c k device d) =
      (case x of
         Some w \<Rightarrow> if fault c TxBegin = None \<and> fault c SelectDeviceId = None then w else d
       | None \<Rightarrow> d)"
    using a u
    by (auto simp: SaveDevice_def SaveDevice_tx_def deferred_rollback_def Let_def
        split: option.splits)
  show "map device_frame (devices (snd (SaveDevice c k device d))) = map device_frame (devices d)"
    "filter (\<lambda>r. dev_id r \<noteq> i) (devices (snd (SaveDevice c k device d)))
          = filter (\<lambda>r. dev_id r \<noteq> i) (devices d)"
    "ports (snd (SaveDevice c k device d)) = ports d"
    using SaveDevice_update_frame[of c k device _ i d r] u unfolding s
    by (auto split: option.splits)
next
  assume a: "select_port d (DeviceID port) (PortNumber port) (Protocol port) = Some (j, sn, sv)"
  show "map port_frame (ports (snd (SavePort c k port d))) = map port_frame (ports d)"
    "filter (\<lambda>r. port_id r \<noteq> j) (ports (snd (SavePort c k port d)))
          = filter (\<lambda>r. port_id r \<noteq> j) (ports d)"
    "devices (snd (SavePort c k port d)) = devices d"
    using a
    by (auto simp: SavePort_def SavePort_tx_def deferred_rollback_def Let_def
        split: option.splits prod.splits dest!: SavePort_update_frame)
qed

theorem update_path_frame_witness:
  "select_device_id ex_db_port (IPAddress ex_device_renamed)
       (Some (MACAddress ex_device_renamed)) = Some 1
   \<and> map device_frame (devices (snd (SaveDevice healthy ex_clock_later ex_device_renamed
         ex_db_port)))
       = [(1, ''203.0.113.5'', 480000 * Hour)]
   \<and> select_port ex_db_port (DeviceID ex_port) (PortNumber ex_port) (Protocol ex_port)
       = Some (1, Some ''http'', Some ''Apache 2.4.41'')
   \<and> map port_frame (ports (snd (SavePort healthy ex_clock_later ex_port ex_db_port)))
       = [(1, 1, 80, ''tcp'', 480000 * Hour)]"
proof -
  have a: "select_device_id ex_db_port (IPAddress ex_device_renamed)
       (Some (MACAddress ex_device_renamed)) = Some 1"
    unfolding ex_db_port_eq ex_db_device_eq
    by (simp add: select_device_id_def ex_device_renamed_def ex_device_def)
  have b: "select_port ex_db_port (DeviceID ex_port) (PortNumber ex_port) (Protocol ex_port)
       = Some (1, Some ''http'', Some ''Apache 2.4.41'')"
    unfolding ex_db_port_eq ex_db_device_eq
    by (simp add: select_port_def ex_port_def)
  have c: "map device_frame (devices ex_db_port) = [(1, ''203.0.113.5'', 480000 * Hour)]"
    "map port_frame (ports ex_db_port) = [(1, 1, 80, ''tcp'', 480000 * Hour)]"
    unfolding ex_db_port_eq ex_db_device_eq
    by (simp_all add: device_frame_def port_frame_def)
  from a b c
    update_path_frame [of ex_db_port ex_device_renamed 1 healthy ex_clock_later ex_port 1
      "Some ''http''" "Some ''Apache 2.4.41''"]
  show ?thesis by simp
qed

subsection \<open>Change detection on a device that is already present\<close>

lemma fold_max_mem: "fold max xs (a::int) \<in> set (a # xs)"
  by (induction xs arbitrary: a) (auto simp: max_def)

lemma max_scan_id_exists: "scans w \<noteq> [] \<Longrightarrow> scan_exists w (max_scan_id w)"
  using fold_max_mem[of "tl (map scan_id (scans w))" "hd (map scan_id (scans w))"]
  by (cases "scans w") (auto simp: scan_exists_def max_scan_id_def)

lemma select_device_id_exists:
  "select_device_id w ip mac = Some i \<Longrightarrow> device_exists w i"
  by (auto simp: select_device_id_def device_exists_def find_Some_iff)

lemma record_change_accepted:
  assumes "fault c SelectMaxScan = None" "fault c InsertChange = None"
    and "foreign_keys c \<longrightarrow> scan_exists w (max_scan_id w) \<and> device_exists w i"
  shows "record_change c w i ty det ts =
     w\<lparr>changes := changes w @
          [\<lparr>change_id = fresh_id (seq_changes w) (map change_id (changes w)),
            chg_scan_id = max_scan_id w, chg_device_id = i, change_type = ty, details = det,
            chg_timestamp = ts\<rparr>],
       seq_changes := fresh_id (seq_changes w) (map change_id (changes w))\<rparr>"
  using assms by (auto simp: record_change_def insert_change_def Let_def)

lemma update_device_Inr:
  "update_device w i m h os ls = Inr w1 \<Longrightarrow>
     w1 = w\<lparr>devices := map (\<lambda>r. if dev_id r = i
                           then r\<lparr>mac_address := m, hostname := h, os_fingerprint := os,
                                  dev_last_seen := ls\<rparr>
                           else r) (devices w)\<rparr>"
  by (auto simp: update_device_def Let_def split: if_splits)

lemma update_device_ids:
  "update_device w i m h os ls = Inr w1 \<Longrightarrow> map dev_id (devices w1) = map dev_id (devices w)"
  by (auto simp: update_device_def Let_def split: if_splits)

lemma update_device_keeps:
  "update_device w i m h os ls = Inr w1 \<Longrightarrow>
     scans w1 = scans w \<and> changes w1 = changes w \<and> seq_changes w1 = seq_changes w
     \<and> max_scan_id w1 = max_scan_id w \<and> scan_exists w1 = scan_exists w
     \<and> device_exists w1 = device_exists w"
  using update_device_ids[of w i m h os ls w1]
  by (auto simp: update_device_def Let_def max_scan_id_def scan_exists_def device_exists_def
      fun_eq_iff simp del: set_map split: if_splits)

text \<open>
  C2, amended. Take a \<open>SaveDevice\<close> call that finds the device present and succeeds, on a
  connection where the change record can be written (no failure of the two statements
  involved, and a Scan row to refer to when foreign keys are enforced). Then the device
  row is updated exactly when a non-empty incoming field differs from storage or the
  incoming \<open>LastSeen\<close> is later than one hour before now: non-empty incoming fields overwrite
  the stored ones and \<open>last_seen\<close> becomes the current hour. A \<open>device_change\<close> Change is
  appended exactly when a non-empty incoming field differs, and its details are the
  segments of the fields that changed, in the order MAC, hostname, OS; when only the
  hostname changed they are that one transition. A fresh \<open>LastSeen\<close> alone updates the row
  and appends no Change.
\<close>

theorem device_update_and_change:
  assumes found: "select_device_id d (IPAddress device) (Some (MACAddress device)) = Some i"
      and ok: "SaveDevice c k device d = (Inr i', d')"
      and nf: "fault c SelectMaxScan = None" "fault c InsertChange = None"
      and fk: "foreign_keys c \<longrightarrow> scans d \<noteq> []"
  shows "i' = i \<and> (\<exists>oldHostname oldOs oldMacAddress.
      select_device_old d i = Some (Some oldHostname, Some oldOs, oldMacAddress)
      \<and> (let oldMac = (case oldMacAddress of Some m \<Rightarrow> m | None \<Rightarrow> []);
              changed = hasChanges device oldMac oldHostname oldOs;
              fresh = After (LastSeen device) (now_check k - Hour)
          in devices d' =
               (if changed \<or> fresh
                then map (\<lambda>r. if dev_id r = i
                       then r\<lparr>mac_address :=
                                Some (if MACAddress device = [] then oldMac
                                      else MACAddress device),
                              hostname :=
                                Some (if Hostname device = [] then oldHostname
                                      else Hostname device),
                              os_fingerprint :=
                                Some (if OSFingerprint device = [] then oldOs
                                      else OSFingerprint device),
                              dev_last_seen := Truncate (now_round k) Hour\<rparr>
                       else r) (devices d)
                else devices d)
           \<and> changes d' =
               (if changed
                then changes d @
                  [\<lparr>change_id = fresh_id (seq_changes d) (map change_id (changes d)),
                    chg_scan_id = max_scan_id d, chg_device_id = i,
                    change_type = ''device_change'',
                    details = changeDetails device oldMac oldHostname oldOs,
                    chg_timestamp = now_change k\<rparr>]
                else changes d)
           \<and> (\<not> mac_changed device oldMac \<and> hostname_changed device oldHostname
                 \<and> \<not> os_changed device oldOs \<longrightarrow>
               changeDetails device oldMac oldHostname oldOs =
                 ''Hostname changed: '' @ oldHostname @ '' -> '' @ Hostname device @ ''; '')))"
proof -
  from ok found have b: "fault c TxBegin = None" "fault c SelectDeviceId = None"
    by (auto simp: SaveDevice_def SaveDevice_tx_def Let_def deferred_rollback_def
        split: option.splits)
  with ok found obtain x
    where u: "SaveDevice_update c k device (Truncate (now_round k) Hour) i d = (Inr i', x)"
      and x: "d' = (case x of None \<Rightarrow> d | Some w \<Rightarrow> w)"
    by (auto simp: SaveDevice_def SaveDevice_tx_def Let_def deferred_rollback_def
        split: option.splits prod.splits)
  have de: "device_exists d i"
    using found by (rule select_device_id_exists)
  have acc: "foreign_keys c \<longrightarrow> scan_exists d (max_scan_id d) \<and> device_exists d i"
    using fk de max_scan_id_exists by blast
  from u obtain oldHostname oldOs oldMacAddress where
    old: "select_device_old d i = Some (Some oldHostname, Some oldOs, oldMacAddress)"
    by (auto simp: SaveDevice_update_def split: option.splits)
  have det: "\<not> mac_changed device m \<and> hostname_changed device oldHostname
        \<and> \<not> os_changed device oldOs \<longrightarrow>
      changeDetails device m oldHostname oldOs =
        ''Hostname changed: '' @ oldHostname @ '' -> '' @ Hostname device @ ''; ''" for m
    by (simp add: changeDetails_def)
  have main: "i' = i
      \<and> (let oldMac = (case oldMacAddress of Some m \<Rightarrow> m | None \<Rightarrow> []);
              changed = hasChanges device oldMac oldHostname oldOs;
              fresh = After (LastSeen device) (now_check k - Hour)
          in devices d' =
               (if changed \<or> fresh
                then map (\<lambda>r. if dev_id r = i
                       then r\<lparr>mac_address :=
                                Some (if MACAddress device = [] then oldMac
                                      else MACAddress device),
                              hostname :=
                                Some (if Hostname device = [] then oldHostname
                                      else Hostname device),
                              os_fingerprint :=
                                Some (if OSFingerprint device = [] then oldOs
                                      else OSFingerprint device),
                              dev_last_seen := Truncate (now_round k) Hour\<rparr>
                       else r) (devices d)
                else devices d)
           \<and> changes d' =
               (if changed
                then changes d @
                  [\<lparr>change_id = fresh_id (seq_changes d) (map change_id (changes d)),
                    chg_scan_id = max_scan_id d, chg_device_id = i,
                    change_type = ''device_change'',
                    details = changeDetails device oldMac oldHostname oldOs,
                    chg_timestamp = now_change k\<rparr>]
                else changes d))"
    using u x old nf acc
    by (auto simp: SaveDevice_update_def Let_def commit_def
           record_change_accepted update_device_keeps
        split: option.splits sum.splits if_splits dest!: update_device_Inr)
  from main old det show ?thesis
    unfolding Let_def by blast
qed

lemma ex_renamed_result:
  "SaveDevice healthy ex_clock_later ex_device_renamed ex_db_device =
     (Inr 1,
      ex_db_device\<lparr>devices :=
          [\<lparr>dev_id = 1, ip_address = ''203.0.113.5'',
            mac_address = Some ''00:11:22:33:44:55'', hostname = Some ''printer-2'',
            os_fingerprint = Some ''Linux 5.10'', dev_first_seen = 480000 * Hour,
            dev_last_seen = 480001 * Hour\<rparr>],
        changes := changes ex_db_device @
          [\<lparr>change_id = 2, chg_scan_id = 1, chg_device_id = 1,
            change_type = ''device_change'',
            details = ''Hostname changed: printer -> printer-2; '',
            chg_timestamp = 480001 * Hour + 12 * Second\<rparr>],
        seq_changes := 2\<rparr>)"
  unfolding ex_db_device_eq
  by (simp add: store_defs healthy_def ex_clock_later_def ex_device_renamed_def ex_device_def)

theorem device_update_and_change_witness:
  "select_device_id ex_db_device (IPAddress ex_device_renamed)
       (Some (MACAddress ex_device_renamed)) = Some 1
   \<and> fst (SaveDevice healthy ex_clock_later ex_device_renamed ex_db_device) = Inr 1
   \<and> fault healthy SelectMaxScan = None \<and> fault healthy InsertChange = None
   \<and> scans ex_db_device \<noteq> []
   \<and> select_device_old ex_db_device 1
       = Some (Some ''printer'', Some ''Linux 5.10'', Some ''00:11:22:33:44:55'')
   \<and> map details (changes (snd (SaveDevice healthy ex_clock_later ex_device_renamed
         ex_db_device)))
       = [''New device discovered: 203.0.113.5'', ''Hostname changed: printer -> printer-2; '']"
proof -
  have a: "select_device_id ex_db_device (IPAddress ex_device_renamed)
       (Some (MACAddress ex_device_renamed)) = Some 1"
    unfolding ex_db_device_eq
    by (simp add: select_device_id_def ex_device_renamed_def ex_device_def)
  have h: "fault healthy SelectMaxScan = None" "fault healthy InsertChange = None"
    by (simp_all add: healthy_def)
  have s': "scans ex_db_device \<noteq> []"
    unfolding ex_db_device_eq by simp
  then have s: "foreign_keys healthy \<longrightarrow> scans ex_db_device \<noteq> []"
    by simp
  have o: "select_device_old ex_db_device 1
       = Some (Some ''printer'', Some ''Linux 5.10'', Some ''00:11:22:33:44:55'')"
    unfolding ex_db_device_eq by (simp add: select_device_old_def)
  have c: "map details (changes ex_db_device) = [''New device discovered: 203.0.113.5'']"
    unfolding ex_db_device_eq by simp
  have m: "hasChanges ex_device_renamed ''00:11:22:33:44:55'' ''printer'' ''Linux 5.10''"
    "changeDetails ex_device_renamed ''00:11:22:33:44:55'' ''printer'' ''Linux 5.10''
       = ''Hostname changed: printer -> printer-2; ''"
    by (simp_all add: hasChanges_def changeDetails_def mac_changed_def hostname_changed_def
        os_changed_def ex_device_renamed_def ex_device_def)
  from device_update_and_change [OF a ex_renamed_result h s] a h s' o c m
  show ?thesis
    by (simp add: ex_renamed_result Let_def)
qed

text \<open>
  C2 as stated fails: a host reported again with identical fields and a fresh \<open>LastSeen\<close> has
  its row updated (\<open>last_seen\<close> moves to the new hour), and no Change is appended.
\<close>

theorem device_fresh_only_counterexample:
  "select_device_id ex_db_device (IPAddress ex_device_again)
       (Some (MACAddress ex_device_again)) = Some 1
   \<and> \<not> hasChanges ex_device_again ''00:11:22:33:44:55'' ''printer'' ''Linux 5.10''
   \<and> After (LastSeen ex_device_again) (now_check ex_clock_later - Hour)
   \<and> fst (SaveDevice healthy ex_clock_later ex_device_again ex_db_device) = Inr 1
   \<and> map dev_last_seen (devices ex_db_device) = [480000 * Hour]
   \<and> map dev_last_seen (devices (snd (SaveDevice healthy ex_clock_later ex_device_again
         ex_db_device))) = [480001 * Hour]
   \<and> changes (snd (SaveDevice healthy ex_clock_later ex_device_again ex_db_device))
       = changes ex_db_device"
  unfolding ex_db_device_eq
  by (simp add: store_defs healthy_def ex_clock_later_def ex_device_again_def ex_device_def)

subsection \<open>The retention sweep\<close>

lemma CleanOldData_Inr:
  assumes "CleanOldData c now retentionDays d = (Inr n, d')"
  shows "d' = snd (delete_logs (AddDays now (- retentionDays))
               (snd (delete_devices c (AddDays now (- retentionDays))
                 (snd (delete_scans c (AddDays now (- retentionDays))
                   (snd (delete_changes (AddDays now (- retentionDays)) d)))))))"
    and "n = fst (delete_scans c (AddDays now (- retentionDays))
                   (snd (delete_changes (AddDays now (- retentionDays)) d)))
           + fst (delete_devices c (AddDays now (- retentionDays))
                 (snd (delete_scans c (AddDays now (- retentionDays))
                   (snd (delete_changes (AddDays now (- retentionDays)) d)))))
           + fst (delete_changes (AddDays now (- retentionDays)) d)
           + fst (delete_logs (AddDays now (- retentionDays))
               (snd (delete_devices c (AddDays now (- retentionDays))
                 (snd (delete_scans c (AddDays now (- retentionDays))
                   (snd (delete_changes (AddDays now (- retentionDays)) d)))))))"
  using assms
  by (auto simp: CleanOldData_def CleanOldData_tx_def Let_def deferred_rollback_def commit_def
      split: option.splits prod.splits)

text \<open>
  C7, amended. A successful \<open>CleanOldData\<close> is the four deletions in the order changes,
  scans, devices, logs, applied to one working copy and committed together, with the
  cutoff \<open>now - retentionDays\<close>. It returns the number of rows the four statements
  matched: changes, scans, devices (by \<open>last_seen\<close>) and logs older than the cutoff. Every
  Scan, Device and Log row at or newer than the cutoff is left in place. A Change row at or
  newer than the cutoff is left in place unless foreign keys are enforced and its scan or
  its device was deleted; a Port row is left in place unless foreign keys are enforced and
  its device was deleted. Rows removed by such a cascade are not counted.
\<close>

theorem retention_sweep:
  assumes "CleanOldData c now retentionDays d = (Inr n, d')"
  shows "(let cutoff = AddDays now (- retentionDays);
              goneScans = set (map scan_id (filter (\<lambda>r. scan_timestamp r < cutoff) (scans d)));
              goneDevices = set (map dev_id (filter (\<lambda>r. dev_last_seen r < cutoff) (devices d)))
          in d' = snd (delete_logs cutoff (snd (delete_devices c cutoff
                    (snd (delete_scans c cutoff (snd (delete_changes cutoff d)))))))
           \<and> n = int (length (filter (\<lambda>r. chg_timestamp r < cutoff) (changes d)))
                 + int (length (filter (\<lambda>r. scan_timestamp r < cutoff) (scans d)))
                 + int (length (filter (\<lambda>r. dev_last_seen r < cutoff) (devices d)))
                 + int (length (filter (\<lambda>r. log_timestamp r < cutoff) (logs d)))
           \<and> scans d' = filter (\<lambda>r. \<not> scan_timestamp r < cutoff) (scans d)
           \<and> devices d' = filter (\<lambda>r. \<not> dev_last_seen r < cutoff) (devices d)
           \<and> logs d' = filter (\<lambda>r. \<not> log_timestamp r < cutoff) (logs d)
           \<and> changes d' = filter (\<lambda>r. \<not> chg_timestamp r < cutoff
                  \<and> (foreign_keys c \<longrightarrow> chg_scan_id r \<notin> goneScans \<and> chg_device_id r \<notin> goneDevices))
                (changes d)
           \<and> ports d' = filter (\<lambda>r. foreign_keys c \<longrightarrow> device_id r \<notin> goneDevices) (ports d))"
  using CleanOldData_Inr[OF assms]
  unfolding Let_def
  by (auto simp: delete_changes_def delete_scans_def delete_devices_def delete_logs_def Let_def
      intro: filter_cong)


lemma ex_retention_result:
  "CleanOldData healthy ex_now 30 ex_db_retention =
     (Inr 3,
      ex_db_retention\<lparr>
        devices := [hd (devices ex_db_retention)],
        ports := [hd (ports ex_db_retention)],
        scans := [last (scans ex_db_retention)],
        changes := [last (changes ex_db_retention)]\<rparr>)"
  by (simp add: CleanOldData_def CleanOldData_tx_def delete_changes_def delete_scans_def
      delete_devices_def delete_logs_def commit_def deferred_rollback_def healthy_def
      ex_db_retention_def ex_now_def AddDays_def Day_def Hour_def Second_def Let_def
      del: set_filter)

theorem retention_sweep_witness:
  "fst (CleanOldData healthy ex_now 30 ex_db_retention) = Inr 3
   \<and> devices (snd (CleanOldData healthy ex_now 30 ex_db_retention))
       = filter (\<lambda>r. \<not> dev_last_seen r < AddDays ex_now (- 30)) (devices ex_db_retention)
   \<and> map hostname (devices (snd (CleanOldData healthy ex_now 30 ex_db_retention)))
       = [Some ''recent-device'']
   \<and> scans (snd (CleanOldData healthy ex_now 30 ex_db_retention))
       = filter (\<lambda>r. \<not> scan_timestamp r < AddDays ex_now (- 30)) (scans ex_db_retention)
   \<and> map scan_id (scans (snd (CleanOldData healthy ex_now 30 ex_db_retention))) = [2]
   \<and> map device_id (ports (snd (CleanOldData healthy ex_now 30 ex_db_retention))) = [1]"
proof -
  note r = retention_sweep [OF ex_retention_result, unfolded Let_def]
  have e: "snd (CleanOldData healthy ex_now 30 ex_db_retention) =
      ex_db_retention\<lparr>
        devices := [hd (devices ex_db_retention)],
        ports := [hd (ports ex_db_retention)],
        scans := [last (scans ex_db_retention)],
        changes := [last (changes ex_db_retention)]\<rparr>"
    by (simp add: ex_retention_result)
  have v: "map hostname [hd (devices ex_db_retention)] = [Some ''recent-device'']"
    "map scan_id [last (scans ex_db_retention)] = [2]"
    "map device_id [hd (ports ex_db_retention)] = [1]"
    by (simp_all add: ex_db_retention_def)
  from r [THEN conjunct2, THEN conjunct2, THEN conjunct1]
       r [THEN conjunct2, THEN conjunct2, THEN conjunct2, THEN conjunct1] v
  show ?thesis
    unfolding e by (simp add: ex_retention_result)
qed

text \<open>
  C7 as stated fails: a Change written 5 days ago, newer than the 30-day cutoff, is removed
  together with the device it refers to, which was last seen 40 days ago.
\<close>

theorem retention_cascade_counterexample:
  "\<not> chg_timestamp (hd (changes ex_db_retention)) < AddDays ex_now (- 30)
   \<and> hd (changes ex_db_retention) \<in> set (changes ex_db_retention)
   \<and> hd (changes ex_db_retention)
       \<notin> set (changes (snd (CleanOldData healthy ex_now 30 ex_db_retention)))"
  unfolding ex_retention_result
  by (simp add: ex_db_retention_def ex_now_def AddDays_def Day_def Hour_def Second_def)

subsection \<open>A run whose subprocess fails\<close>

lemma fold_max_ge: "(a::int) \<le> fold max xs a"
proof (induction xs arbitrary: a)
  case Nil
  show ?case by simp
next
  case (Cons y ys)
  have "a \<le> max y a" by simp
  also have "max y a \<le> fold max ys (max y a)" by (rule Cons.IH)
  finally show ?case by simp
qed

lemma le_fold_max: "x \<in> set (a # xs) \<Longrightarrow> x \<le> fold max xs (a::int)"
proof (induction xs arbitrary: a)
  case Nil
  then show ?case by simp
next
  case (Cons y ys)
  show ?case
  proof (cases "x \<in> set ys")
    case True
    then show ?thesis using Cons.IH[of "max y a"] by simp
  next
    case False
    with Cons.prems have "x \<le> max y a" by auto
    also have "max y a \<le> fold max ys (max y a)" by (rule fold_max_ge)
    finally show ?thesis by simp
  qed
qed

lemma fresh_id_notin: "fresh_id seq ids \<notin> set ids"
  using le_fold_max[of "fresh_id seq ids" seq ids] by (auto simp: fresh_id_def)

lemma map_fresh_row:
  "i \<notin> set (map scan_id rows) \<Longrightarrow> map (\<lambda>r. if scan_id r = i then f r else r) rows = rows"
  by (induction rows) auto

lemma CreateScan_ok:
  assumes "fault c InsertScan = None" "fault c ScanInsertId = None"
  shows "CreateScan c now tmpl d =
     (Inr (fresh_id (seq_scans d) (map scan_id (scans d))),
      d\<lparr>scans := scans d @
           [\<lparr>scan_id = fresh_id (seq_scans d) (map scan_id (scans d)), scan_timestamp = now,
             template = tmpl, duration = Some 0, devices_found = Some 0,
             ports_found = Some 0, status = ''running'', error_message = None\<rparr>],
         seq_scans := fresh_id (seq_scans d) (map scan_id (scans d))\<rparr>)"
  using assms by (simp add: CreateScan_def Let_def)

lemma execute_scan_failure:
  assumes "run_nmap w cmd = StartError e \<or> run_nmap w cmd = WaitError e"
      and "fault (connection w) UpdateScanRow = None"
  shows "execute_scan w i cmd path s =
     ((i, Some (Error e)),
      s\<lparr>database := (database s)\<lparr>scans :=
           map (\<lambda>r. if scan_id r = i
                     then r\<lparr>status := ''error'', devices_found := Some 0,
                            ports_found := Some 0,
                            duration := Some (duration_seconds
                                                (now_updated w - StartTime (scanStats s))),
                            error_message := Some []\<rparr>
                     else r) (scans (database s))\<rparr>,
        scanStats := (scanStats s)\<lparr>Status := ''error'',
           Err := Some (Error (failure_text (run_nmap w cmd)))\<rparr>\<rparr>)"
  using assms
  by (auto simp: execute_scan_def updateScanError_def updateScanInDB_def UpdateScan_def Let_def
      failure_text_def)

lemma run_failure_state:
  assumes "i \<notin> set (map scan_id (scans d))"
  shows "map (\<lambda>r. if scan_id r = i then f r else r) (scans d @ [row]) =
         scans d @ [if scan_id row = i then f row else row]"
  using assms map_fresh_row[of i "scans d" f] by simp

lemma RunScan_failure:
  assumes idle: "\<not> isScanning s" and real: "\<not> mockModeForTesting s"
      and tpl: "snd (getScanTemplate name) = Inr t"
      and cmd: "prepareScanCommand (cfg s) t (outputPath w (cfg s)) = Inr cmd"
      and fail: "run_nmap w cmd = StartError e \<or> run_nmap w cmd = WaitError e"
      and ok: "fault (connection w) InsertScan = None" "fault (connection w) ScanInsertId = None"
              "fault (connection w) UpdateScanRow = None"
  shows "run_failed w s name e (failure_text (run_nmap w cmd)) (RunScan w name s)"
proof -
  let ?i = "fresh_id (seq_scans (database s)) (map scan_id (scans (database s)))"
  have m: "map (\<lambda>r. if scan_id r = ?i then f r else r) (scans (database s)) = scans (database s)" for f
    by (rule map_fresh_row) (rule fresh_id_notin)
  show ?thesis
    using idle real tpl cmd
    by (simp add: run_failed_def RunScan_def beginScan_def RunScan_body_def Let_def
        CreateScan_ok[OF ok(1,2)] execute_scan_failure[OF fail ok(3)] setScanID_def
        endScan_def m failed_scan_row_def)
qed

lemma RunManualScan_failure:
  assumes idle: "\<not> isScanning s" and real: "\<not> mockModeForTesting s"
      and tpl: "snd (getScanTemplate (Template params)) = Inr t"
      and cmd: "prepareManualScanCommand (cfg s)
                  (if ParamRateLimit params > 0 then t\<lparr>RateLimit := ParamRateLimit params\<rparr> else t)
                  (outputPath w (cfg s)) params = Inr cmd"
      and fail: "run_nmap w cmd = StartError e \<or> run_nmap w cmd = WaitError e"
      and ok: "fault (connection w) InsertScan = None" "fault (connection w) ScanInsertId = None"
              "fault (connection w) UpdateScanRow = None"
  shows "run_failed w s (Template params) e (failure_text (run_nmap w cmd))
           (RunManualScan w params s)"
proof -
  let ?i = "fresh_id (seq_scans (database s)) (map scan_id (scans (database s)))"
  have m: "map (\<lambda>r. if scan_id r = ?i then f r else r) (scans (database s)) = scans (database s)" for f
    by (rule map_fresh_row) (rule fresh_id_notin)
  show ?thesis
    using idle real tpl cmd
    by (simp add: run_failed_def RunManualScan_def beginScan_def RunManualScan_body_def Let_def
        CreateScan_ok[OF ok(1,2)] execute_scan_failure[OF fail ok(3)] setScanID_def
        endScan_def m failed_scan_row_def)
qed

text \<open>
  C1, amended. Take a run, by \<open>RunScan\<close> or \<open>RunManualScan\<close>, of a service that is idle and
  not in mock mode, with a command that could be built and a store that accepts the
  statements on the Scan row. If nmap cannot be started or exits non-zero, the call returns
  the new scan id together with the subprocess error; the run's Scan row has status
  \<open>error\<close>, zero devices and ports and an empty \<open>error_message\<close>; the in-memory status is
  \<open>error\<close> and holds the error text; and the scanning flag is cleared, so the next call
  passes the single-flight check.
\<close>

theorem subprocess_failure_recorded:
  assumes idle: "\<not> isScanning s" and real: "\<not> mockModeForTesting s"
      and ok: "fault (connection w) InsertScan = None" "fault (connection w) ScanInsertId = None"
              "fault (connection w) UpdateScanRow = None"
  shows "(snd (getScanTemplate name) = Inr t
            \<and> prepareScanCommand (cfg s) t (outputPath w (cfg s)) = Inr cmd
            \<and> (run_nmap w cmd = StartError e \<or> run_nmap w cmd = WaitError e) \<longrightarrow>
          run_failed w s name e (failure_text (run_nmap w cmd)) (RunScan w name s)
          \<and> beginScan t1 (snd (RunScan w name s)) \<noteq> None)
       \<and> (snd (getScanTemplate (Template params)) = Inr t'
            \<and> prepareManualScanCommand (cfg s)
                  (if ParamRateLimit params > 0 then t'\<lparr>RateLimit := ParamRateLimit params\<rparr>
                   else t')
                  (outputPath w (cfg s)) params = Inr cmd'
            \<and> (run_nmap w cmd' = StartError e' \<or> run_nmap w cmd' = WaitError e') \<longrightarrow>
          run_failed w s (Template params) e' (failure_text (run_nmap w cmd'))
            (RunManualScan w params s)
          \<and> beginScan t2 (snd (RunManualScan w params s)) \<noteq> None)"
proof (intro conjI impI)
  assume a: "snd (getScanTemplate name) = Inr t
      \<and> prepareScanCommand (cfg s) t (outputPath w (cfg s)) = Inr cmd
      \<and> (run_nmap w cmd = StartError e \<or> run_nmap w cmd = WaitError e)"
  then show r: "run_failed w s name e (failure_text (run_nmap w cmd)) (RunScan w name s)"
    using RunScan_failure [OF idle real _ _ _ ok] by blast
  then show "beginScan t1 (snd (RunScan w name s)) \<noteq> None"
    by (auto simp: run_failed_def beginScan_def split: prod.splits)
next
  assume a: "snd (getScanTemplate (Template params)) = Inr t'
      \<and> prepareManualScanCommand (cfg s)
            (if ParamRateLimit params > 0 then t'\<lparr>RateLimit := ParamRateLimit params\<rparr>
             else t')
            (outputPath w (cfg s)) params = Inr cmd'
      \<and> (run_nmap w cmd' = StartError e' \<or> run_nmap w cmd' = WaitError e')"
  then show r: "run_failed w s (Template params) e' (failure_text (run_nmap w cmd'))
      (RunManualScan w params s)"
    using RunManualScan_failure [OF idle real _ _ _ ok] by blast
  then show "beginScan t2 (snd (RunManualScan w params s)) \<noteq> None"
    by (auto simp: run_failed_def beginScan_def split: prod.splits)
qed

lemma ex_service_facts:
  "\<not> isScanning ex_service" "\<not> mockModeForTesting ex_service"
  "cfg ex_service = ex_config" "database ex_service = empty_db"
  by (simp_all add: ex_service_def New_def)

lemma ex_world_facts:
  "fault (connection ex_world_start) st = None" "fault (connection ex_world_wait) st = None"
  "run_nmap ex_world_start args = StartError ''exec: nmap: executable file not found''"
  "run_nmap ex_world_wait args = WaitError ''exit status 1''"
  "outputPath ex_world_start ex_config = ''/var/scans/scan_0b5e.xml''"
  "outputPath ex_world_wait ex_config = ''/var/scans/scan_0b5e.xml''"
  by (simp_all add: ex_world_start_def ex_world_wait_def healthy_def outputPath_def ex_config_def)

lemma ex_default_command:
  "prepareScanCommand ex_config default_template ''/var/scans/scan_0b5e.xml'' =
     Inr [''-oX'', ''/var/scans/scan_0b5e.xml'', ''-sS'', ''-sV'', ''-O'', ''--osscan-limit'',
          ''--max-rate'', ''1000'', ''192.168.1.0/24'']"
  by (simp add: prepareScanCommand_def default_template_def ex_config_def Itoa_1000)

lemma ex_quick_command:
  "prepareManualScanCommand ex_config quick_template ''/var/scans/scan_0b5e.xml'' ex_params =
     Inr [''-oX'', ''/var/scans/scan_0b5e.xml'', ''-sS'', ''-F'', ''--max-rate'', ''2000'',
          ''192.168.1.0/24'']"
  by (simp add: prepareManualScanCommand_def quick_template_def ex_config_def ex_params_def
      Itoa_2000)

lemma ex_templates:
  "snd (getScanTemplate ''default'') = Inr default_template"
  "snd (getScanTemplate (Template ex_params)) = Inr quick_template"
  by (simp_all add: getScanTemplate_def getTemplates_def ex_params_def)

theorem subprocess_failure_recorded_witness:
  "fst (RunScan ex_world_wait ''default'' ex_service) = (1, Some (Error ''exit status 1''))
   \<and> scans (database (snd (RunScan ex_world_wait ''default'' ex_service)))
       = [failed_scan_row ex_world_wait 1 ''default'']
   \<and> Err (scanStats (snd (RunScan ex_world_wait ''default'' ex_service)))
       = Some (Error ''nmap command failed: exit status 1'')
   \<and> beginScan 0 (snd (RunScan ex_world_wait ''default'' ex_service)) \<noteq> None
   \<and> fst (RunManualScan ex_world_start ex_params ex_service)
       = (1, Some (Error ''exec: nmap: executable file not found''))
   \<and> scans (database (snd (RunManualScan ex_world_start ex_params ex_service)))
       = [failed_scan_row ex_world_start 1 ''quick'']
   \<and> beginScan 0 (snd (RunManualScan ex_world_start ex_params ex_service)) \<noteq> None"
proof -
  have p: "ParamRateLimit ex_params = 0" "Template ex_params = ''quick''"
    by (simp_all add: ex_params_def)
  have f: "fresh_id (seq_scans empty_db) [] = 1"
    by (simp add: fresh_id_def empty_db_def)
  have q: "snd (getScanTemplate ''quick'') = Inr quick_template"
    by (simp add: getScanTemplate_def getTemplates_def)
  have e: "scans empty_db = []"
    by (simp add: empty_db_def)
  let ?c1 = "[''-oX'', ''/var/scans/scan_0b5e.xml'', ''-sS'', ''-sV'', ''-O'', ''--osscan-limit'',
          ''--max-rate'', ''1000'', ''192.168.1.0/24'']"
  let ?c2 = "[''-oX'', ''/var/scans/scan_0b5e.xml'', ''-sS'', ''-F'', ''--max-rate'', ''2000'',
          ''192.168.1.0/24'']"
  note a = subprocess_failure_recorded [OF ex_service_facts(1,2) ex_world_facts(2)
      ex_world_facts(2) ex_world_facts(2),
      where name = "''default''" and t = default_template and cmd = ?c1
        and e = "''exit status 1''" and ?t1.0 = 0]
  note b = subprocess_failure_recorded [OF ex_service_facts(1,2) ex_world_facts(1)
      ex_world_facts(1) ex_world_facts(1),
      where params = ex_params and t' = quick_template and cmd' = ?c2
        and e' = "''exec: nmap: executable file not found''" and ?t2.0 = 0]
  from a [THEN conjunct1] b [THEN conjunct2]
  show ?thesis
    by (simp add: ex_service_facts ex_world_facts ex_default_command ex_quick_command
        ex_templates p q f e run_failed_def failure_text_def split: prod.splits)
qed

text \<open>
  C1 as stated fails: when nmap cannot be started, the error text is returned and kept in
  the in-memory status, and the \<open>error_message\<close> written to the Scan row is the empty string.
\<close>

theorem subprocess_failure_message_counterexample:
  "snd (fst (RunScan ex_world_start ''default'' ex_service))
     = Some (Error ''exec: nmap: executable file not found'')
   \<and> Err (scanStats (snd (RunScan ex_world_start ''default'' ex_service)))
     = Some (Error ''failed to start nmap: exec: nmap: executable file not found'')
   \<and> map status (scans (database (snd (RunScan ex_world_start ''default'' ex_service))))
     = [''error'']
   \<and> map error_message (scans (database (snd (RunScan ex_world_start ''default'' ex_service))))
     = [Some []]"
proof -
  have "run_failed ex_world_start ex_service ''default''
      ''exec: nmap: executable file not found''
      ''failed to start nmap: exec: nmap: executable file not found''
      (RunScan ex_world_start ''default'' ex_service)"
    using RunScan_failure [OF ex_service_facts(1,2) ex_templates(1) _ _ ex_world_facts(1)
        ex_world_facts(1) ex_world_facts(1),
        of _ "''exec: nmap: executable file not found''"]
    by (simp add: ex_service_facts ex_world_facts ex_default_command failure_text_def)
  then show ?thesis
    by (simp add: run_failed_def failed_scan_row_def ex_service_facts empty_db_def
        split: prod.splits)
qed

subsection \<open>The uniqueness invariant\<close>

lemma distinct_map_split:
  assumes "\<And>x y. x \<in> set xs \<Longrightarrow> y \<in> set xs \<Longrightarrow> P x \<Longrightarrow> \<not> P y \<Longrightarrow> f x \<noteq> f y"
  shows "distinct (map f xs) \<longleftrightarrow>
         distinct (map f (filter P xs)) \<and> distinct (map f (filter (\<lambda>x. \<not> P x) xs))"
  using assms
proof (induction xs)
  case Nil
  show ?case by simp
next
  case (Cons a xs)
  have ih: "distinct (map f xs) \<longleftrightarrow>
         distinct (map f (filter P xs)) \<and> distinct (map f (filter (\<lambda>x. \<not> P x) xs))"
    by (rule Cons.IH) (use Cons.prems in auto)
  show ?case
  proof (cases "P a")
    case True
    have "f a \<in> f ` set xs \<longleftrightarrow> f a \<in> f ` {x \<in> set xs. P x}"
      using Cons.prems[of a] True by fastforce
    with True ih show ?thesis by auto
  next
    case False
    have "f a \<in> f ` set xs \<longleftrightarrow> f a \<in> f ` {x \<in> set xs. \<not> P x}"
      using Cons.prems[of _ a] False by fastforce
    with False ih show ?thesis by auto
  qed
qed

lemma device_keys_distinct_iff:
  "distinct (map device_key rs) \<longleftrightarrow>
     devices_unique rs \<and> distinct (map device_key (filter (\<lambda>r. mac_address r = None) rs))"
  unfolding devices_unique_def
  using distinct_map_split[of rs "\<lambda>r. mac_address r \<noteq> None" device_key]
  by (auto simp: device_key_def)

lemma insert_device_inv:
  assumes ins: "insert_device d ip (Some mac) h os fs ls = Inr (i, w)"
      and inv: "uniqueness_invariant d"
  shows "uniqueness_invariant w"
proof -
  let ?new = "\<lparr>dev_id = fresh_id (seq_devices d) (map dev_id (devices d)), ip_address = ip,
      mac_address = Some mac, hostname = h, os_fingerprint = os, dev_first_seen = fs,
      dev_last_seen = ls\<rparr>"
  from ins have w: "devices w = devices d @ [?new]" "ports w = ports d"
    and u: "devices_unique (devices d @ [?new])"
    by (auto simp: insert_device_def Let_def split: if_splits)
  from inv have "distinct (map device_key (filter (\<lambda>r. mac_address r = None) (devices d)))"
    unfolding uniqueness_invariant_def
    using device_keys_distinct_iff [of "devices d"] by blast
  then have "distinct (map device_key
      (filter (\<lambda>r. mac_address r = None) (devices d @ [?new])))"
    by simp
  with u have "distinct (map device_key (devices d @ [?new]))"
    using device_keys_distinct_iff [of "devices d @ [?new]"] by blast
  with inv w show ?thesis
    unfolding uniqueness_invariant_def by simp
qed

lemma null_rows_after_update:
  "filter (\<lambda>r. mac_address r = None)
     (map (\<lambda>r. if dev_id r = i
               then r\<lparr>mac_address := Some m, hostname := h, os_fingerprint := os,
                      dev_last_seen := ls\<rparr>
               else r) rs)
   = filter (\<lambda>r. dev_id r \<noteq> i) (filter (\<lambda>r. mac_address r = None) rs)"
  by (induction rs) auto

lemma update_device_inv:
  assumes upd: "update_device d i (Some m) h os ls = Inr w"
      and inv: "uniqueness_invariant d"
  shows "uniqueness_invariant w"
proof -
  let ?rows = "map (\<lambda>r. if dev_id r = i
                 then r\<lparr>mac_address := Some m, hostname := h, os_fingerprint := os,
                        dev_last_seen := ls\<rparr>
                 else r) (devices d)"
  from upd have w: "devices w = ?rows" "ports w = ports d" and u: "devices_unique ?rows"
    by (auto simp: update_device_def Let_def split: if_splits)
  from inv have "distinct (map device_key (filter (\<lambda>r. mac_address r = None) (devices d)))"
    unfolding uniqueness_invariant_def
    using device_keys_distinct_iff [of "devices d"] by blast
  then have "distinct (map device_key (filter (\<lambda>r. mac_address r = None) ?rows))"
    unfolding null_rows_after_update by (rule distinct_map_filter)
  with u have "distinct (map device_key ?rows)"
    using device_keys_distinct_iff [of ?rows] by blast
  with inv w show ?thesis
    unfolding uniqueness_invariant_def by simp
qed

lemma record_change_inv [simp]:
  "uniqueness_invariant (record_change c w i ty det ts) = uniqueness_invariant w"
  by (simp add: uniqueness_invariant_def)

lemma SaveDevice_insert_inv:
  "SaveDevice_insert c k device rt d = (r, Some w) \<Longrightarrow> uniqueness_invariant d
     \<Longrightarrow> uniqueness_invariant w"
  by (auto simp: SaveDevice_insert_def commit_def
      split: option.splits sum.splits prod.splits dest: insert_device_inv)

lemma SaveDevice_update_inv:
  "SaveDevice_update c k device rt i d = (r, Some w) \<Longrightarrow> uniqueness_invariant d
     \<Longrightarrow> uniqueness_invariant w"
  by (auto simp: SaveDevice_update_def commit_def Let_def
      split: option.splits sum.splits prod.splits if_splits dest: update_device_inv)

lemma SaveDevice_inv:
  "uniqueness_invariant d \<Longrightarrow> uniqueness_invariant (snd (SaveDevice c k device d))"
  by (auto simp: SaveDevice_def SaveDevice_tx_def deferred_rollback_def Let_def
      split: option.splits prod.splits dest: SaveDevice_insert_inv SaveDevice_update_inv)

lemma update_port_keys:
  "map port_key (ports (update_port w i n v ls)) = map port_key (ports w)"
  by (auto simp: update_port_def port_key_def)

lemma SavePort_insert_inv:
  "SavePort_insert c k port rt d = (r, Some w) \<Longrightarrow> uniqueness_invariant d
     \<Longrightarrow> uniqueness_invariant w"
  by (auto simp: SavePort_insert_def commit_def insert_port_def Let_def ports_unique_def
      uniqueness_invariant_def
      split: option.splits sum.splits prod.splits if_splits)

lemma SavePort_update_inv:
  "SavePort_update c k port rt i n v d = (r, Some w) \<Longrightarrow> uniqueness_invariant d
     \<Longrightarrow> uniqueness_invariant w"
  by (auto simp: SavePort_update_def commit_def Let_def uniqueness_invariant_def
      update_port_keys update_port_frame
      split: option.splits if_splits)

lemma SavePort_inv:
  "uniqueness_invariant d \<Longrightarrow> uniqueness_invariant (snd (SavePort c k port d))"
  by (auto simp: SavePort_def SavePort_tx_def deferred_rollback_def Let_def
      split: option.splits prod.splits dest: SavePort_insert_inv SavePort_update_inv)

lemma CleanOldData_inv:
  "uniqueness_invariant d \<Longrightarrow> uniqueness_invariant (snd (CleanOldData c now n d))"
  by (auto simp: CleanOldData_def CleanOldData_tx_def deferred_rollback_def Let_def commit_def
      delete_changes_def delete_scans_def delete_devices_def delete_logs_def
      uniqueness_invariant_def distinct_map_filter
      split: option.splits prod.splits)

lemma other_ops_inv:
  "uniqueness_invariant (snd (CreateScan c now tmpl d)) = uniqueness_invariant d"
  "uniqueness_invariant (snd (UpdateScan c i st df pf dur msg d)) = uniqueness_invariant d"
  "uniqueness_invariant (snd (AddLogEntry c now lvl m cmpt d)) = uniqueness_invariant d"
  by (auto simp: CreateScan_def UpdateScan_def AddLogEntry_def Let_def uniqueness_invariant_def
      split: option.splits)

lemma apply_op_inv:
  "uniqueness_invariant d \<Longrightarrow> uniqueness_invariant (apply_op op d)"
  by (cases op) (simp_all add: SaveDevice_inv SavePort_inv CleanOldData_inv other_ops_inv)

lemma fold_apply_op_inv:
  "uniqueness_invariant d \<Longrightarrow> uniqueness_invariant (fold apply_op ops d)"
  by (induction ops arbitrary: d) (simp_all add: apply_op_inv)

text \<open>
  C4. Starting from the empty store, after any sequence of store operations, on any
  connections and at any times, no two device rows have the same
  \<open>(ip_address, mac_address)\<close> and no two port rows have the same
  \<open>(device_id, port_number, protocol)\<close>; and each single operation, applied to any store
  that satisfies this invariant, yields a store that satisfies it.
\<close>

theorem uniqueness_preserved:
  "uniqueness_invariant (fold apply_op ops empty_db)
   \<and> (uniqueness_invariant d \<longrightarrow> uniqueness_invariant (apply_op op d))"
proof
  have "uniqueness_invariant empty_db"
    by (simp add: uniqueness_invariant_def empty_db_def)
  then show "uniqueness_invariant (fold apply_op ops empty_db)"
    by (rule fold_apply_op_inv)
next
  show "uniqueness_invariant d \<longrightarrow> uniqueness_invariant (apply_op op d)"
    by (simp add: apply_op_inv)
qed

theorem uniqueness_preserved_witness:
  "uniqueness_invariant ex_db_port
   \<and> uniqueness_invariant
        (apply_op (OpSaveDevice healthy ex_clock_later ex_device_renamed) ex_db_port)"
proof -
  have "ex_db_port =
      fold apply_op
        [OpCreateScan healthy (480000 * Hour) ''default'',
         OpSaveDevice healthy ex_clock ex_device,
         OpSavePort healthy ex_clock ex_port] empty_db"
    by (simp add: ex_db_port_def ex_db_device_def ex_db_scan_def)
  with uniqueness_preserved
    [of "[OpCreateScan healthy (480000 * Hour) ''default'',
          OpSaveDevice healthy ex_clock ex_device,
          OpSavePort healthy ex_clock ex_port]" ex_db_port
        "OpSaveDevice healthy ex_clock_later ex_device_renamed"]
  show ?thesis by simp
qed

subsection \<open>Observing the same host or port twice\<close>

lemma find_append_None:
  "find P xs = None \<Longrightarrow> find P (xs @ ys) = find P ys"
  by (induction xs) (auto split: if_splits)

lemma find_by_key:
  "distinct (map f rs) \<Longrightarrow> find P rs = Some r \<Longrightarrow> find (\<lambda>x. f x = f r) rs = Some r"
proof (induction rs)
  case Nil
  then show ?case by simp
next
  case (Cons a rs)
  show ?case
  proof (cases "P a")
    case True
    with Cons.prems show ?thesis by simp
  next
    case False
    with Cons.prems have f: "find P rs = Some r" by simp
    then have "r \<in> set rs" by (auto simp: find_Some_iff)
    with Cons.prems(1) have "f a \<noteq> f r" by auto
    with Cons f show ?thesis by simp
  qed
qed

lemma same_key_same_row:
  "distinct (map f rs) \<Longrightarrow> find (\<lambda>x. f x = k) rs = Some r \<Longrightarrow> x \<in> set rs \<Longrightarrow> f x = k
     \<Longrightarrow> x = r"
proof -
  assume d: "distinct (map f rs)" and fr: "find (\<lambda>x. f x = k) rs = Some r"
    and x: "x \<in> set rs" and k: "f x = k"
  from fr have "r \<in> set rs" "f r = k" by (auto simp: find_Some_iff)
  with d x k show "x = r" by (auto simp: distinct_map inj_on_def)
qed

lemma find_map_upd:
  assumes d: "distinct (map f rs)" and fr: "find P rs = Some r"
      and pg: "P (g r)"
  shows "find P (map (\<lambda>x. if f x = f r then g x else x) rs) = Some (g r)"
  using d fr
proof (induction rs)
  case Nil
  then show ?case by simp
next
  case (Cons a rs)
  show ?case
  proof (cases "P a")
    case True
    with Cons.prems have "a = r" by simp
    with pg show ?thesis by simp
  next
    case False
    with Cons.prems have f: "find P rs = Some r" by simp
    then have "r \<in> set rs" by (auto simp: find_Some_iff)
    with Cons.prems(1) have "f a \<noteq> f r" by auto
    with Cons f False show ?thesis by simp
  qed
qed

lemma map_upd_id:
  assumes "distinct (map f rs)" "find (\<lambda>x. f x = k) rs = Some r" "g r = r"
  shows "map (\<lambda>x. if f x = k then g x else x) rs = rs"
proof -
  have "\<And>x. x \<in> set rs \<Longrightarrow> (if f x = k then g x else x) = x"
    using same_key_same_row[OF assms(1,2)] assms(3) by auto
  then show ?thesis by (simp add: map_idI)
qed

lemma one_row_with_key:
  "distinct (map f rs) \<Longrightarrow> r \<in> set rs \<Longrightarrow> length (filter (\<lambda>x. f x = f r) rs) = 1"
proof (induction rs)
  case Nil
  then show ?case by simp
next
  case (Cons a rs)
  show ?case
  proof (cases "a = r")
    case True
    with Cons.prems(1) have "f r \<notin> f ` set rs" by simp
    then have "filter (\<lambda>x. f x = f r) rs = []"
      unfolding filter_empty_conv by (metis imageI)
    with True show ?thesis by simp
  next
    case False
    with Cons.prems have "r \<in> set rs" by simp
    with Cons.prems(1) have "f a \<noteq> f r" by auto
    with Cons \<open>r \<in> set rs\<close> show ?thesis by simp
  qed
qed


lemma find_Some_holds: "find P xs = Some x \<Longrightarrow> P x \<and> x \<in> set xs"
  by (induction xs) (auto split: if_splits)

lemma sql_eq_Some: "sql_eq x (Some v) \<longleftrightarrow> x = Some v"
  by (cases x) auto

lemma select_device_id_eq:
  "select_device_id d ip (Some mac) =
     map_option dev_id (find (\<lambda>r. ip_address r = ip \<and> mac_address r = Some mac) (devices d))"
  by (simp add: select_device_id_def sql_eq_Some)

lemma commit_Some: "commit c w r = (Inr r', x) \<Longrightarrow> x = Some w"
  by (auto simp: commit_def split: option.splits)

lemma SaveDevice_insert_committed:
  "SaveDevice_insert c k device rt d = (Inr i, x) \<Longrightarrow> x \<noteq> None"
  by (auto simp: SaveDevice_insert_def commit_def split: option.splits sum.splits prod.splits)

lemma SaveDevice_update_committed:
  "SaveDevice_update c k device rt j d = (Inr i, x) \<Longrightarrow> x \<noteq> None"
  by (auto simp: SaveDevice_update_def commit_def Let_def
      split: option.splits sum.splits prod.splits if_splits)

lemma SaveDevice_update_devices:
  assumes u: "SaveDevice_update c k device rt j d = (Inr i, Some w)"
  shows "i = j \<and> (\<exists>h0 o0 m0. select_device_old d j = Some (Some h0, Some o0, m0)
     \<and> devices w =
         (if hasChanges device (case m0 of Some m \<Rightarrow> m | None \<Rightarrow> []) h0 o0
               \<or> After (LastSeen device) (now_check k - Hour)
          then map (\<lambda>r. if dev_id r = j
                 then r\<lparr>mac_address :=
                          Some (if MACAddress device = []
                                then (case m0 of Some m \<Rightarrow> m | None \<Rightarrow> [])
                                else MACAddress device),
                        hostname := Some (if Hostname device = [] then h0 else Hostname device),
                        os_fingerprint :=
                          Some (if OSFingerprint device = [] then o0 else OSFingerprint device),
                        dev_last_seen := rt\<rparr>
                 else r) (devices d)
          else devices d))"
proof -
  from u obtain h0 o0 m0 where
    old: "select_device_old d j = Some (Some h0, Some o0, m0)"
    by (auto simp: SaveDevice_update_def split: option.splits)
  show ?thesis
    using u old
    by (auto simp: SaveDevice_update_def Let_def commit_def
        split: option.splits sum.splits if_splits dest!: update_device_Inr)
qed

lemma SaveDevice_update_unchanged:
  assumes u: "SaveDevice_update c k device rt j d = (r, Some w)"
      and old: "select_device_old d j = Some (Some h0, Some o0, m0)"
      and same: "\<not> hasChanges device (case m0 of Some m \<Rightarrow> m | None \<Rightarrow> []) h0 o0"
  shows "w = d \<or> (After (LastSeen device) (now_check k - Hour)
     \<and> w = d\<lparr>devices := map (\<lambda>r. if dev_id r = j
                 then r\<lparr>mac_address :=
                          Some (if MACAddress device = []
                                then (case m0 of Some m \<Rightarrow> m | None \<Rightarrow> [])
                                else MACAddress device),
                        hostname := Some (if Hostname device = [] then h0 else Hostname device),
                        os_fingerprint :=
                          Some (if OSFingerprint device = [] then o0 else OSFingerprint device),
                        dev_last_seen := rt\<rparr>
                 else r) (devices d)\<rparr>)"
  using u old same
  by (auto simp: SaveDevice_update_def Let_def commit_def
      split: option.splits sum.splits if_splits dest!: update_device_Inr)

lemma SaveDevice_insert_devices:
  assumes "SaveDevice_insert c k device rt d = (Inr i, Some w)"
  shows "i = fresh_id (seq_devices d) (map dev_id (devices d))
     \<and> devices w = devices d @
          [\<lparr>dev_id = i, ip_address = IPAddress device, mac_address = Some (MACAddress device),
            hostname = Some (Hostname device), os_fingerprint = Some (OSFingerprint device),
            dev_first_seen = rt, dev_last_seen = rt\<rparr>]"
  using assms
  by (auto simp: SaveDevice_insert_def commit_def insert_device_def Let_def
      split: option.splits sum.splits prod.splits if_splits)

lemma SaveDevice_Inr:
  assumes "SaveDevice c k device d = (Inr i, d1)"
  shows "(select_device_id d (IPAddress device) (Some (MACAddress device)) = None
            \<and> SaveDevice_insert c k device (Truncate (now_round k) Hour) d = (Inr i, Some d1))
       \<or> (\<exists>j. select_device_id d (IPAddress device) (Some (MACAddress device)) = Some j
            \<and> SaveDevice_update c k device (Truncate (now_round k) Hour) j d = (Inr i, Some d1))"
proof (cases "select_device_id d (IPAddress device) (Some (MACAddress device))")
  case None
  obtain r x where u: "SaveDevice_insert c k device (Truncate (now_round k) Hour) d = (r, x)"
    by (cases "SaveDevice_insert c k device (Truncate (now_round k) Hour) d")
  with assms None SaveDevice_insert_committed[of c k device _ d i x] show ?thesis
    by (auto simp: SaveDevice_def SaveDevice_tx_def Let_def deferred_rollback_def
        split: option.splits)
next
  case (Some j)
  obtain r x where u: "SaveDevice_update c k device (Truncate (now_round k) Hour) j d = (r, x)"
    by (cases "SaveDevice_update c k device (Truncate (now_round k) Hour) j d")
  with assms Some SaveDevice_update_committed[of c k device _ j d i x] show ?thesis
    by (auto simp: SaveDevice_def SaveDevice_tx_def Let_def deferred_rollback_def
        split: option.splits)
qed


lemma select_device_old_eq:
  "select_device_old d i =
     map_option (\<lambda>r. (hostname r, os_fingerprint r, mac_address r))
       (find (\<lambda>x. dev_id x = i) (devices d))"
  by (simp add: select_device_old_def)

lemma first_call_post:
  assumes wf: "distinct (map dev_id (devices d0))"
      and first: "SaveDevice c k device d0 = (Inr i, d1)"
  shows "distinct (map dev_id (devices d1)) \<and>
     (\<exists>r. find (\<lambda>r. ip_address r = IPAddress device \<and> mac_address r = Some (MACAddress device))
             (devices d1) = Some r
        \<and> dev_id r = i
        \<and> (Hostname device \<noteq> [] \<longrightarrow> hostname r = Some (Hostname device))
        \<and> (OSFingerprint device \<noteq> [] \<longrightarrow> os_fingerprint r = Some (OSFingerprint device))
        \<and> (dev_last_seen r = Truncate (now_round k) Hour
             \<or> \<not> After (LastSeen device) (now_check k - Hour)))"
proof -
  let ?P = "\<lambda>r. ip_address r = IPAddress device \<and> mac_address r = Some (MACAddress device)"
  let ?rt = "Truncate (now_round k) Hour"
  from SaveDevice_Inr [OF first] show ?thesis
  proof (elim disjE conjE exE)
    assume none: "select_device_id d0 (IPAddress device) (Some (MACAddress device)) = None"
      and ins: "SaveDevice_insert c k device ?rt d0 = (Inr i, Some d1)"
    let ?new = "\<lparr>dev_id = i, ip_address = IPAddress device,
        mac_address = Some (MACAddress device), hostname = Some (Hostname device),
        os_fingerprint = Some (OSFingerprint device), dev_first_seen = ?rt,
        dev_last_seen = ?rt\<rparr>"
    from SaveDevice_insert_devices [OF ins]
    have i: "i = fresh_id (seq_devices d0) (map dev_id (devices d0))"
      and d: "devices d1 = devices d0 @ [?new]" by auto
    from none have "find ?P (devices d0) = None"
      by (simp add: select_device_id_eq)
    then have "find ?P (devices d1) = Some ?new"
      unfolding d by (simp add: find_append_None)
    moreover have "distinct (map dev_id (devices d1))"
      unfolding d using wf fresh_id_notin[of "seq_devices d0" "map dev_id (devices d0)"] i
      by simp
    ultimately show ?thesis by simp
  next
    fix j
    assume some: "select_device_id d0 (IPAddress device) (Some (MACAddress device)) = Some j"
      and upd: "SaveDevice_update c k device ?rt j d0 = (Inr i, Some d1)"
    from some obtain r0 where f0: "find ?P (devices d0) = Some r0" and j: "dev_id r0 = j"
      by (auto simp: select_device_id_eq)
    from find_Some_holds [OF f0] have p0: "?P r0" by simp
    from find_by_key [OF wf f0] j have fid: "find (\<lambda>x. dev_id x = j) (devices d0) = Some r0"
      by simp
    from SaveDevice_update_devices [OF upd] obtain h0 o0 m0
      where ij: "i = j"
        and old: "select_device_old d0 j = Some (Some h0, Some o0, m0)"
        and dev: "devices d1 =
         (if hasChanges device (case m0 of Some m \<Rightarrow> m | None \<Rightarrow> []) h0 o0
               \<or> After (LastSeen device) (now_check k - Hour)
          then map (\<lambda>r. if dev_id r = j
                 then r\<lparr>mac_address :=
                          Some (if MACAddress device = []
                                then (case m0 of Some m \<Rightarrow> m | None \<Rightarrow> [])
                                else MACAddress device),
                        hostname := Some (if Hostname device = [] then h0 else Hostname device),
                        os_fingerprint :=
                          Some (if OSFingerprint device = [] then o0 else OSFingerprint device),
                        dev_last_seen := ?rt\<rparr>
                 else r) (devices d0)
          else devices d0)"
      by blast
    from old fid p0 have r0: "hostname r0 = Some h0" "os_fingerprint r0 = Some o0"
      "m0 = Some (MACAddress device)"
      by (auto simp: select_device_old_eq)
    let ?g = "\<lambda>r. r\<lparr>mac_address := Some (MACAddress device),
                hostname := Some (if Hostname device = [] then h0 else Hostname device),
                os_fingerprint :=
                  Some (if OSFingerprint device = [] then o0 else OSFingerprint device),
                dev_last_seen := ?rt\<rparr>"
    show ?thesis
    proof (cases "hasChanges device (MACAddress device) h0 o0
          \<or> After (LastSeen device) (now_check k - Hour)")
      case True
      with dev r0 have d: "devices d1 =
          map (\<lambda>x. if dev_id x = dev_id r0 then ?g x else x) (devices d0)"
        using j by simp
      have "?P (?g r0)" using p0 by simp
      from find_map_upd [of dev_id "devices d0" ?P r0 ?g, OF wf f0 this]
      have "find ?P (devices d1) = Some (?g r0)"
        unfolding d .
      moreover have "map dev_id (devices d1) = map dev_id (devices d0)"
        unfolding d by (induction "devices d0") auto
      ultimately show ?thesis
        using wf j ij by auto
    next
      case False
      with dev r0 have d: "devices d1 = devices d0" by simp
      from False have "\<not> hostname_changed device h0" "\<not> os_changed device o0"
        by (auto simp: hasChanges_def)
      then have "Hostname device \<noteq> [] \<longrightarrow> Hostname device = h0"
        "OSFingerprint device \<noteq> [] \<longrightarrow> OSFingerprint device = o0"
        by (auto simp: hostname_changed_def os_changed_def)
      with False f0 r0 j ij wf show ?thesis
        unfolding d by auto
    qed
  qed
qed


lemma SaveDevice_snd_cases:
  assumes "select_device_id d (IPAddress device) (Some (MACAddress device)) = Some i"
  shows "snd (SaveDevice c k device d) = d
       \<or> (\<exists>r. SaveDevice_update c k device (Truncate (now_round k) Hour) i d
                 = (r, Some (snd (SaveDevice c k device d)))
              \<and> fst (SaveDevice c k device d) = r)"
proof -
  obtain r x where u: "SaveDevice_update c k device (Truncate (now_round k) Hour) i d = (r, x)"
    by (cases "SaveDevice_update c k device (Truncate (now_round k) Hour) i d")
  with assms show ?thesis
    by (auto simp: SaveDevice_def SaveDevice_tx_def Let_def deferred_rollback_def
        split: option.splits)
qed

lemma SaveDevice_fst_cases:
  assumes "select_device_id d (IPAddress device) (Some (MACAddress device)) = Some i"
      and "fst (SaveDevice c k device d) = Inr j"
  shows "j = i"
proof -
  obtain r x where u: "SaveDevice_update c k device (Truncate (now_round k) Hour) i d = (r, x)"
    by (cases "SaveDevice_update c k device (Truncate (now_round k) Hour) i d")
  with assms have "r = Inr j"
    by (auto simp: SaveDevice_def SaveDevice_tx_def Let_def deferred_rollback_def
        split: option.splits)
  with u SaveDevice_update_committed[of c k device _ i d j x] obtain w
    where "SaveDevice_update c k device (Truncate (now_round k) Hour) i d = (Inr j, Some w)"
    by auto
  from SaveDevice_update_devices [OF this] show ?thesis by simp
qed

lemma second_call:
  assumes wf: "distinct (map dev_id (devices d1))"
      and f: "find (\<lambda>r. ip_address r = IPAddress device
                       \<and> mac_address r = Some (MACAddress device)) (devices d1) = Some r"
      and i: "dev_id r = i"
      and h: "Hostname device \<noteq> [] \<longrightarrow> hostname r = Some (Hostname device)"
      and o: "OSFingerprint device \<noteq> [] \<longrightarrow> os_fingerprint r = Some (OSFingerprint device)"
  shows "changes (snd (SaveDevice c k device d1)) = changes d1
     \<and> ports (snd (SaveDevice c k device d1)) = ports d1
     \<and> map device_key (devices (snd (SaveDevice c k device d1))) = map device_key (devices d1)
     \<and> (dev_last_seen r = Truncate (now_round k) Hour
            \<or> \<not> After (LastSeen device) (now_check k - Hour) \<longrightarrow>
          snd (SaveDevice c k device d1) = d1)"
proof -
  let ?P = "\<lambda>r. ip_address r = IPAddress device \<and> mac_address r = Some (MACAddress device)"
  let ?rt = "Truncate (now_round k) Hour"
  let ?d2 = "snd (SaveDevice c k device d1)"
  from f i have sel: "select_device_id d1 (IPAddress device) (Some (MACAddress device)) = Some i"
    by (simp add: select_device_id_eq)
  from find_Some_holds [OF f] have p: "?P r" by simp
  from find_by_key [OF wf f] i have fid: "find (\<lambda>x. dev_id x = i) (devices d1) = Some r"
    by simp
  then have old: "select_device_old d1 i = Some (hostname r, os_fingerprint r, mac_address r)"
    by (simp add: select_device_old_eq)
  from SaveDevice_snd_cases [OF sel, of c k] show ?thesis
  proof (elim disjE exE conjE)
    assume "?d2 = d1"
    then show ?thesis by simp
  next
    fix res
    assume u: "SaveDevice_update c k device ?rt i d1 = (res, Some ?d2)"
    then obtain h0 o0 where ho: "hostname r = Some h0" "os_fingerprint r = Some o0"
      using old by (auto simp: SaveDevice_update_def split: option.splits)
    with old p have old': "select_device_old d1 i
        = Some (Some h0, Some o0, Some (MACAddress device))"
      by simp
    from h o ho have same: "\<not> hasChanges device
        (case Some (MACAddress device) of Some m \<Rightarrow> m | None \<Rightarrow> []) h0 o0"
      by (auto simp: hasChanges_def mac_changed_def hostname_changed_def os_changed_def)
    let ?g = "\<lambda>x. x\<lparr>mac_address := Some (MACAddress device), hostname := Some h0,
                os_fingerprint := Some o0, dev_last_seen := ?rt\<rparr>"
    from h o ho have v: "(if Hostname device = [] then h0 else Hostname device) = h0"
      "(if OSFingerprint device = [] then o0 else OSFingerprint device) = o0"
      by auto
    have w: "?d2 = d1 \<or> (After (LastSeen device) (now_check k - Hour)
        \<and> ?d2 = d1\<lparr>devices := map (\<lambda>x. if dev_id x = i then ?g x else x) (devices d1)\<rparr>)"
      using SaveDevice_update_unchanged [OF u old' same] h o ho
      by (cases "Hostname device = []"; cases "OSFingerprint device = []";
          cases "MACAddress device = []") (simp_all cong: if_cong)
    have keys: "map device_key (map (\<lambda>x. if dev_id x = i then ?g x else x) (devices d1))
        = map device_key (devices d1)"
    proof -
      have "\<And>x. x \<in> set (devices d1) \<Longrightarrow>
          device_key (if dev_id x = i then ?g x else x) = device_key x"
        using same_key_same_row [OF wf fid] p by (auto simp: device_key_def)
      then show ?thesis by simp
    qed
    have idem: "dev_last_seen r = ?rt \<Longrightarrow>
        map (\<lambda>x. if dev_id x = i then ?g x else x) (devices d1) = devices d1"
    proof -
      assume "dev_last_seen r = ?rt"
      with p ho have "?g r = r" by simp
      from map_upd_id [of dev_id "devices d1" i r ?g, OF wf fid this] show ?thesis .
    qed
    from w show ?thesis
    proof
      assume "?d2 = d1"
      then show ?thesis by simp
    next
      assume a: "After (LastSeen device) (now_check k - Hour)
        \<and> ?d2 = d1\<lparr>devices := map (\<lambda>x. if dev_id x = i then ?g x else x) (devices d1)\<rparr>"
      then have e: "?d2 = d1\<lparr>devices := map (\<lambda>x. if dev_id x = i then ?g x else x) (devices d1)\<rparr>"
        by simp
      show ?thesis
        unfolding e using a keys idem by auto
    qed
  qed
qed


lemma SavePort_insert_committed:
  "SavePort_insert c k port rt d = (Inr u, x) \<Longrightarrow> x \<noteq> None"
  by (auto simp: SavePort_insert_def commit_def split: option.splits sum.splits prod.splits)

lemma SavePort_update_committed:
  "SavePort_update c k port rt j n v d = (Inr u, x) \<Longrightarrow> x \<noteq> None"
  by (auto simp: SavePort_update_def commit_def Let_def split: option.splits if_splits)

lemma SavePort_insert_ports:
  assumes "SavePort_insert c k port rt d = (Inr u, Some w)"
  shows "ports w = ports d @
          [\<lparr>port_id = fresh_id (seq_ports d) (map port_id (ports d)),
            device_id = DeviceID port, port_number = PortNumber port, protocol = Protocol port,
            service_name = Some (ServiceName port),
            service_version = Some (ServiceVersion port),
            port_first_seen = rt, port_last_seen = rt\<rparr>]"
  using assms
  by (auto simp: SavePort_insert_def commit_def insert_port_def Let_def
      split: option.splits sum.splits prod.splits if_splits)

lemma record_change_ports_eq [simp]:
  "ports (record_change c w i ty det ts) = ports w"
  by (rule record_change_frame)

lemma SavePort_update_ports:
  assumes "SavePort_update c k port rt j n v d = (r, Some w)"
  shows "ports w =
     (if serviceChanged port n v \<or> After (PortLastSeen port) (now_check k - Hour)
      then ports (update_port d j
                    (Some (if ServiceName port = [] then n else ServiceName port))
                    (Some (if ServiceVersion port = [] then v else ServiceVersion port)) rt)
      else ports d)"
  using assms
  by (auto simp: SavePort_update_def Let_def commit_def split: option.splits if_splits)

lemma SavePort_update_unchanged:
  assumes "SavePort_update c k port rt j n v d = (r, Some w)"
      and "\<not> serviceChanged port n v"
  shows "w = d \<or> (After (PortLastSeen port) (now_check k - Hour)
     \<and> w = update_port d j
                    (Some (if ServiceName port = [] then n else ServiceName port))
                    (Some (if ServiceVersion port = [] then v else ServiceVersion port)) rt)"
  using assms
  by (auto simp: SavePort_update_def Let_def commit_def split: option.splits if_splits)

lemma select_port_eq:
  "select_port d did pn proto =
     map_option (\<lambda>r. (port_id r, service_name r, service_version r))
       (find (\<lambda>r. device_id r = did \<and> port_number r = pn \<and> protocol r = proto) (ports d))"
  by (simp add: select_port_def)

lemma SavePort_Inr:
  assumes "SavePort c k port d = (Inr u, d1)"
  shows "(select_port d (DeviceID port) (PortNumber port) (Protocol port) = None
            \<and> SavePort_insert c k port (Truncate (now_round k) Hour) d = (Inr u, Some d1))
       \<or> (\<exists>j n v. select_port d (DeviceID port) (PortNumber port) (Protocol port)
                     = Some (j, Some n, Some v)
            \<and> SavePort_update c k port (Truncate (now_round k) Hour) j n v d
                  = (Inr u, Some d1))"
proof (cases "select_port d (DeviceID port) (PortNumber port) (Protocol port)")
  case None
  obtain r x where u: "SavePort_insert c k port (Truncate (now_round k) Hour) d = (r, x)"
    by (cases "SavePort_insert c k port (Truncate (now_round k) Hour) d")
  with assms None SavePort_insert_committed[of c k port _ d u x] show ?thesis
    by (auto simp: SavePort_def SavePort_tx_def Let_def deferred_rollback_def
        split: option.splits)
next
  case (Some t)
  obtain j sn sv where t: "t = (j, sn, sv)" by (cases t)
  show ?thesis
  proof (cases sn; cases sv)
    fix n v assume nv: "sn = Some n" "sv = Some v"
    obtain r x where u: "SavePort_update c k port (Truncate (now_round k) Hour) j n v d = (r, x)"
      by (cases "SavePort_update c k port (Truncate (now_round k) Hour) j n v d")
    with assms Some t nv SavePort_update_committed[of c k port _ j n v d u x] show ?thesis
      by (auto simp: SavePort_def SavePort_tx_def Let_def deferred_rollback_def
          split: option.splits)
  qed (use assms Some t in \<open>auto simp: SavePort_def SavePort_tx_def Let_def
        deferred_rollback_def split: option.splits\<close>)
qed

lemma SavePort_snd_cases:
  assumes "select_port d (DeviceID port) (PortNumber port) (Protocol port) = Some (j, sn, sv)"
  shows "snd (SavePort c k port d) = d
       \<or> (\<exists>r n v. sn = Some n \<and> sv = Some v
              \<and> SavePort_update c k port (Truncate (now_round k) Hour) j n v d
                 = (r, Some (snd (SavePort c k port d))))"
proof (cases sn; cases sv)
  fix n v assume nv: "sn = Some n" "sv = Some v"
  obtain r x where u: "SavePort_update c k port (Truncate (now_round k) Hour) j n v d = (r, x)"
    by (cases "SavePort_update c k port (Truncate (now_round k) Hour) j n v d")
  with assms nv show ?thesis
    by (auto simp: SavePort_def SavePort_tx_def Let_def deferred_rollback_def
        split: option.splits)
qed (use assms in \<open>auto simp: SavePort_def SavePort_tx_def Let_def
      deferred_rollback_def split: option.splits\<close>)


lemma first_port_post:
  assumes wf: "distinct (map port_id (ports d0))"
      and first: "SavePort c k port d0 = (Inr u, d1)"
  shows "distinct (map port_id (ports d1)) \<and>
     (\<exists>r. find (\<lambda>r. device_id r = DeviceID port \<and> port_number r = PortNumber port
                   \<and> protocol r = Protocol port) (ports d1) = Some r
        \<and> (ServiceName port \<noteq> [] \<longrightarrow> service_name r = Some (ServiceName port))
        \<and> (ServiceVersion port \<noteq> [] \<longrightarrow> service_version r = Some (ServiceVersion port))
        \<and> (port_last_seen r = Truncate (now_round k) Hour
             \<or> \<not> After (PortLastSeen port) (now_check k - Hour)))"
proof -
  let ?Q = "\<lambda>r. device_id r = DeviceID port \<and> port_number r = PortNumber port
                   \<and> protocol r = Protocol port"
  let ?rt = "Truncate (now_round k) Hour"
  from SavePort_Inr [OF first] show ?thesis
  proof (elim disjE conjE exE)
    assume none: "select_port d0 (DeviceID port) (PortNumber port) (Protocol port) = None"
      and ins: "SavePort_insert c k port ?rt d0 = (Inr u, Some d1)"
    let ?new = "\<lparr>port_id = fresh_id (seq_ports d0) (map port_id (ports d0)),
            device_id = DeviceID port, port_number = PortNumber port, protocol = Protocol port,
            service_name = Some (ServiceName port),
            service_version = Some (ServiceVersion port),
            port_first_seen = ?rt, port_last_seen = ?rt\<rparr>"
    from SavePort_insert_ports [OF ins] have d: "ports d1 = ports d0 @ [?new]" .
    from none have "find ?Q (ports d0) = None"
      by (simp add: select_port_eq)
    then have "find ?Q (ports d1) = Some ?new"
      unfolding d by (simp add: find_append_None)
    moreover have "distinct (map port_id (ports d1))"
      unfolding d using wf fresh_id_notin[of "seq_ports d0" "map port_id (ports d0)"]
      by simp
    ultimately show ?thesis by simp
  next
    fix j n v
    assume some: "select_port d0 (DeviceID port) (PortNumber port) (Protocol port)
        = Some (j, Some n, Some v)"
      and upd: "SavePort_update c k port ?rt j n v d0 = (Inr u, Some d1)"
    from some obtain r0 where f0: "find ?Q (ports d0) = Some r0" and j: "port_id r0 = j"
      and r0: "service_name r0 = Some n" "service_version r0 = Some v"
      by (auto simp: select_port_eq)
    from find_Some_holds [OF f0] have q0: "?Q r0" by simp
    let ?g = "\<lambda>r. r\<lparr>service_name := Some (if ServiceName port = [] then n else ServiceName port),
                service_version :=
                  Some (if ServiceVersion port = [] then v else ServiceVersion port),
                port_last_seen := ?rt\<rparr>"
    note dev = SavePort_update_ports [OF upd]
    show ?thesis
    proof (cases "serviceChanged port n v \<or> After (PortLastSeen port) (now_check k - Hour)")
      case True
      with dev have d: "ports d1 =
          map (\<lambda>x. if port_id x = port_id r0 then ?g x else x) (ports d0)"
        using j by (simp add: update_port_def)
      have "?Q (?g r0)" using q0 by simp
      from find_map_upd [of port_id "ports d0" ?Q r0 ?g, OF wf f0 this]
      have "find ?Q (ports d1) = Some (?g r0)"
        unfolding d .
      moreover have "map port_id (ports d1) = map port_id (ports d0)"
        unfolding d by (induction "ports d0") auto
      ultimately show ?thesis
        using wf by auto
    next
      case False
      with dev have d: "ports d1 = ports d0" by simp
      from False have "ServiceName port \<noteq> [] \<longrightarrow> ServiceName port = n"
        "ServiceVersion port \<noteq> [] \<longrightarrow> ServiceVersion port = v"
        by (auto simp: serviceChanged_def)
      with False f0 r0 wf show ?thesis
        unfolding d by auto
    qed
  qed
qed

lemma second_port_call:
  assumes wf: "distinct (map port_id (ports d1))"
      and f: "find (\<lambda>r. device_id r = DeviceID port \<and> port_number r = PortNumber port
                   \<and> protocol r = Protocol port) (ports d1) = Some r"
      and n: "ServiceName port \<noteq> [] \<longrightarrow> service_name r = Some (ServiceName port)"
      and v: "ServiceVersion port \<noteq> [] \<longrightarrow> service_version r = Some (ServiceVersion port)"
  shows "changes (snd (SavePort c k port d1)) = changes d1
     \<and> devices (snd (SavePort c k port d1)) = devices d1
     \<and> map port_key (ports (snd (SavePort c k port d1))) = map port_key (ports d1)
     \<and> (port_last_seen r = Truncate (now_round k) Hour
            \<or> \<not> After (PortLastSeen port) (now_check k - Hour) \<longrightarrow>
          snd (SavePort c k port d1) = d1)"
proof -
  let ?rt = "Truncate (now_round k) Hour"
  let ?d2 = "snd (SavePort c k port d1)"
  from f have sel: "select_port d1 (DeviceID port) (PortNumber port) (Protocol port)
      = Some (port_id r, service_name r, service_version r)"
    by (simp add: select_port_eq)
  from find_by_key [OF wf f] have fid: "find (\<lambda>x. port_id x = port_id r) (ports d1) = Some r" .
  from SavePort_snd_cases [OF sel, of c k] show ?thesis
  proof (elim disjE exE conjE)
    assume "?d2 = d1"
    then show ?thesis by simp
  next
    fix res n0 v0
    assume nv: "service_name r = Some n0" "service_version r = Some v0"
      and u: "SavePort_update c k port ?rt (port_id r) n0 v0 d1 = (res, Some ?d2)"
    from n v nv have same: "\<not> serviceChanged port n0 v0"
      by (auto simp: serviceChanged_def)
    from n v nv have val: "(if ServiceName port = [] then n0 else ServiceName port) = n0"
      "(if ServiceVersion port = [] then v0 else ServiceVersion port) = v0"
      by auto
    from SavePort_update_unchanged [OF u same]
    have w: "?d2 = d1 \<or> (After (PortLastSeen port) (now_check k - Hour)
        \<and> ?d2 = update_port d1 (port_id r) (Some n0) (Some v0) ?rt)"
      unfolding val .
    let ?g = "\<lambda>x. x\<lparr>service_name := Some n0, service_version := Some v0,
                port_last_seen := ?rt\<rparr>"
    have idem: "port_last_seen r = ?rt \<Longrightarrow>
        update_port d1 (port_id r) (Some n0) (Some v0) ?rt = d1"
    proof -
      assume "port_last_seen r = ?rt"
      with nv have "?g r = r" by simp
      from map_upd_id [of port_id "ports d1" "port_id r" r ?g, OF wf fid this] show ?thesis
        by (simp add: update_port_def)
    qed
    from w show ?thesis
    proof
      assume "?d2 = d1"
      then show ?thesis by simp
    next
      assume a: "After (PortLastSeen port) (now_check k - Hour)
        \<and> ?d2 = update_port d1 (port_id r) (Some n0) (Some v0) ?rt"
      then have e: "?d2 = update_port d1 (port_id r) (Some n0) (Some v0) ?rt"
        by simp
      have "changes (update_port d1 (port_id r) (Some n0) (Some v0) ?rt) = changes d1"
        by (simp add: update_port_def)
      with a idem show ?thesis
        unfolding e by (auto simp: update_port_keys update_port_frame)
    qed
  qed
qed


lemma count_by_key:
  "length (filter (\<lambda>x. f x = K) xs) = length (filter (\<lambda>y. y = K) (map f xs))"
  by (induction xs) auto

lemma record_change_changes:
  "\<exists>extra. changes (record_change c w i ty det ts) = changes w @ extra \<and> length extra \<le> 1"
  by (auto simp: record_change_def insert_change_def Let_def split: option.splits)

lemma update_device_changes:
  "update_device w i m h os ls = Inr w1 \<Longrightarrow> changes w1 = changes w"
  by (auto simp: update_device_def Let_def split: if_splits)

lemma insert_device_changes:
  "insert_device w ip m h os fs ls = Inr (i, w1) \<Longrightarrow> changes w1 = changes w"
  by (auto simp: insert_device_def Let_def split: if_splits)

lemma SaveDevice_adds_at_most_one:
  assumes "SaveDevice c k device d = (r, d1)"
  shows "\<exists>extra. changes d1 = changes d @ extra \<and> length extra \<le> 1"
proof -
  have base: "\<exists>extra. changes d = changes d @ extra \<and> length extra \<le> 1" by simp
  have ins: "\<exists>extra. changes w = changes d @ extra \<and> length extra \<le> 1"
    if "SaveDevice_insert c k device rt d = (r', Some w)" for rt r' w
    using that record_change_changes
    by (auto simp: SaveDevice_insert_def commit_def
        split: option.splits sum.splits prod.splits dest!: insert_device_changes)
        (metis)
  have upd: "\<exists>extra. changes w = changes d @ extra \<and> length extra \<le> 1"
    if "SaveDevice_update c k device rt j d = (r', Some w)" for rt r' w j
    using that record_change_changes
    by (auto simp: SaveDevice_update_def commit_def Let_def
        split: option.splits sum.splits prod.splits if_splits dest!: update_device_changes)
        (metis)+
  from assms base ins upd show ?thesis
    by (auto simp: SaveDevice_def SaveDevice_tx_def Let_def deferred_rollback_def
        split: option.splits prod.splits)
qed


lemma SavePort_adds_at_most_one:
  assumes "SavePort c k port d = (r, d1)"
  shows "\<exists>extra. changes d1 = changes d @ extra \<and> length extra \<le> 1"
proof -
  have base: "\<exists>extra. changes d = changes d @ extra \<and> length extra \<le> 1" by simp
  have ins: "\<exists>extra. changes w = changes d @ extra \<and> length extra \<le> 1"
    if "SavePort_insert c k port rt d = (r', Some w)" for rt r' w
  proof -
    from that obtain i w1 where
      "insert_port c d (DeviceID port) (PortNumber port) (Protocol port)
         (Some (ServiceName port)) (Some (ServiceVersion port)) rt rt = Inr (i, w1)"
      and w: "w = record_change c w1 (DeviceID port) ''new_port''
                     (''New port discovered: '' @ Itoa (PortNumber port) @ ''/'' @ Protocol port
                        @ '' - '' @ ServiceName port)
                     (now_change k)"
      by (auto simp: SavePort_insert_def commit_def
          split: option.splits sum.splits prod.splits)
    then have "changes w1 = changes d"
      by (auto simp: insert_port_def Let_def split: if_splits)
    with w record_change_changes[of c w1] show ?thesis by metis
  qed
  have upd: "\<exists>extra. changes w = changes d @ extra \<and> length extra \<le> 1"
    if u: "SavePort_update c k port rt j n v d = (r', Some w)" for rt r' w j n v
  proof -
    have c: "changes (update_port d j a b rt) = changes d" for a b
      by (simp add: update_port_def)
    from u record_change_changes[of c "update_port d j _ _ rt"] show ?thesis
      by (auto simp: SavePort_update_def commit_def Let_def c
          split: option.splits if_splits)
  qed
  from assms base ins upd show ?thesis
    by (auto simp: SavePort_def SavePort_tx_def Let_def deferred_rollback_def
        split: option.splits prod.splits)
qed

text \<open>
  C5. Re-observation is idempotent. Suppose a first \<open>SaveDevice\<close> of an observation
  succeeds on a store with unique ids and unique keys, and the same observation, field for
  field, is handed to \<open>SaveDevice\<close> a second time, on any connection and at any time.
  The first call appends at most one change record; the second appends none, leaves the
  sequence of device keys as it is, so that exactly one device row carries the key of the
  observation, and if it succeeds it returns the id the first call returned; and when the
  second call falls in the same hour as the first and not before it, the store is left
  exactly as the first call left it. The same holds of two consecutive \<open>SavePort\<close>
  calls and the port rows.
\<close>

theorem reobservation_idempotent:
  "(distinct (map dev_id (devices d0)) \<and> uniqueness_invariant d0
      \<and> SaveDevice c1 k1 device d0 = (Inr i, d1) \<longrightarrow>
      (\<exists>extra. changes d1 = changes d0 @ extra \<and> length extra \<le> 1)
      \<and> changes (snd (SaveDevice c2 k2 device d1)) = changes d1
      \<and> map device_key (devices (snd (SaveDevice c2 k2 device d1)))
          = map device_key (devices d1)
      \<and> length (filter (\<lambda>r. device_key r = (IPAddress device, Some (MACAddress device)))
                  (devices (snd (SaveDevice c2 k2 device d1)))) = 1
      \<and> (\<forall>j. fst (SaveDevice c2 k2 device d1) = Inr j \<longrightarrow> j = i)
      \<and> (Truncate (now_round k2) Hour = Truncate (now_round k1) Hour
             \<and> now_check k1 \<le> now_check k2 \<longrightarrow>
           snd (SaveDevice c2 k2 device d1) = d1))
   \<and> (distinct (map port_id (ports p0)) \<and> uniqueness_invariant p0
      \<and> SavePort c1 k1 port p0 = (Inr u, p1) \<longrightarrow>
      (\<exists>extra. changes p1 = changes p0 @ extra \<and> length extra \<le> 1)
      \<and> changes (snd (SavePort c2 k2 port p1)) = changes p1
      \<and> map port_key (ports (snd (SavePort c2 k2 port p1))) = map port_key (ports p1)
      \<and> length (filter (\<lambda>r. port_key r = (DeviceID port, PortNumber port, Protocol port))
                  (ports (snd (SavePort c2 k2 port p1)))) = 1
      \<and> (Truncate (now_round k2) Hour = Truncate (now_round k1) Hour
             \<and> now_check k1 \<le> now_check k2 \<longrightarrow>
           snd (SavePort c2 k2 port p1) = p1))"
proof (intro conjI impI; elim conjE)
  assume wf: "distinct (map dev_id (devices d0))" and inv: "uniqueness_invariant d0"
    and first: "SaveDevice c1 k1 device d0 = (Inr i, d1)"
  let ?d2 = "snd (SaveDevice c2 k2 device d1)"
  let ?K = "(IPAddress device, Some (MACAddress device))"
  from first_call_post [OF wf first] obtain r
    where wf1: "distinct (map dev_id (devices d1))"
      and f: "find (\<lambda>r. ip_address r = IPAddress device
                       \<and> mac_address r = Some (MACAddress device)) (devices d1) = Some r"
      and i: "dev_id r = i"
      and h: "Hostname device \<noteq> [] \<longrightarrow> hostname r = Some (Hostname device)"
      and o: "OSFingerprint device \<noteq> [] \<longrightarrow> os_fingerprint r = Some (OSFingerprint device)"
      and l: "dev_last_seen r = Truncate (now_round k1) Hour
             \<or> \<not> After (LastSeen device) (now_check k1 - Hour)"
    by blast
  note second = second_call [OF wf1 f i h o, of c2 k2]
  show "\<exists>extra. changes d1 = changes d0 @ extra \<and> length extra \<le> 1"
    using first by (rule SaveDevice_adds_at_most_one)
  show "changes ?d2 = changes d1" using second by simp
  show keys: "map device_key (devices ?d2) = map device_key (devices d1)"
    using second by simp
  show "length (filter (\<lambda>r. device_key r = ?K) (devices ?d2)) = 1"
  proof -
    from first have "d1 = snd (SaveDevice c1 k1 device d0)" by simp
    with inv have "uniqueness_invariant d1" by (simp add: SaveDevice_inv)
    then have "distinct (map device_key (devices d1))"
      by (simp add: uniqueness_invariant_def)
    moreover from find_Some_holds [OF f] have "r \<in> set (devices d1)" "device_key r = ?K"
      by (simp_all add: device_key_def)
    ultimately have "length (filter (\<lambda>x. device_key x = ?K) (devices d1)) = 1"
      using one_row_with_key [of device_key "devices d1" r] by simp
    then show ?thesis
      unfolding count_by_key [of device_key] keys .
  qed
  show "\<forall>j. fst (SaveDevice c2 k2 device d1) = Inr j \<longrightarrow> j = i"
  proof (intro allI impI)
    fix j assume "fst (SaveDevice c2 k2 device d1) = Inr j"
    moreover from f i
    have "select_device_id d1 (IPAddress device) (Some (MACAddress device)) = Some i"
      by (simp add: select_device_id_eq)
    ultimately show "j = i" by (rule SaveDevice_fst_cases [rotated])
  qed
  show "?d2 = d1" if "Truncate (now_round k2) Hour = Truncate (now_round k1) Hour"
      "now_check k1 \<le> now_check k2"
    using second l that by (auto simp: After_def)
next
  assume wf: "distinct (map port_id (ports p0))" and inv: "uniqueness_invariant p0"
    and first: "SavePort c1 k1 port p0 = (Inr u, p1)"
  let ?p2 = "snd (SavePort c2 k2 port p1)"
  let ?K = "(DeviceID port, PortNumber port, Protocol port)"
  from first_port_post [OF wf first] obtain r
    where wf1: "distinct (map port_id (ports p1))"
      and f: "find (\<lambda>r. device_id r = DeviceID port \<and> port_number r = PortNumber port
                   \<and> protocol r = Protocol port) (ports p1) = Some r"
      and n: "ServiceName port \<noteq> [] \<longrightarrow> service_name r = Some (ServiceName port)"
      and v: "ServiceVersion port \<noteq> [] \<longrightarrow> service_version r = Some (ServiceVersion port)"
      and l: "port_last_seen r = Truncate (now_round k1) Hour
             \<or> \<not> After (PortLastSeen port) (now_check k1 - Hour)"
    by blast
  note second = second_port_call [OF wf1 f n v, of c2 k2]
  show "\<exists>extra. changes p1 = changes p0 @ extra \<and> length extra \<le> 1"
    using first by (rule SavePort_adds_at_most_one)
  show "changes ?p2 = changes p1" using second by simp
  show keys: "map port_key (ports ?p2) = map port_key (ports p1)"
    using second by simp
  show "length (filter (\<lambda>r. port_key r = ?K) (ports ?p2)) = 1"
  proof -
    from first have "p1 = snd (SavePort c1 k1 port p0)" by simp
    with inv have "uniqueness_invariant p1" by (simp add: SavePort_inv)
    then have "distinct (map port_key (ports p1))"
      by (simp add: uniqueness_invariant_def)
    moreover from find_Some_holds [OF f] have "r \<in> set (ports p1)" "port_key r = ?K"
      by (simp_all add: port_key_def)
    ultimately have "length (filter (\<lambda>x. port_key x = ?K) (ports p1)) = 1"
      using one_row_with_key [of port_key "ports p1" r] by simp
    then show ?thesis
      unfolding count_by_key [of port_key] keys .
  qed
  show "?p2 = p1" if "Truncate (now_round k2) Hour = Truncate (now_round k1) Hour"
      "now_check k1 \<le> now_check k2"
    using second l that by (auto simp: After_def)
qed


theorem reobservation_idempotent_witness:
  "SaveDevice healthy ex_clock ex_device ex_db_scan = (Inr 1, ex_db_device)
   \<and> length (changes ex_db_device) = length (changes ex_db_scan) + 1
   \<and> snd (SaveDevice healthy ex_clock ex_device ex_db_device) = ex_db_device
   \<and> length (filter (\<lambda>r. device_key r = (IPAddress ex_device, Some (MACAddress ex_device)))
               (devices (snd (SaveDevice healthy ex_clock ex_device ex_db_device)))) = 1
   \<and> SavePort healthy ex_clock ex_port ex_db_device = (Inr (), ex_db_port)
   \<and> length (changes ex_db_port) = length (changes ex_db_device) + 1
   \<and> snd (SavePort healthy ex_clock ex_port ex_db_port) = ex_db_port
   \<and> length (filter (\<lambda>r. port_key r = (DeviceID ex_port, PortNumber ex_port, Protocol ex_port))
               (ports (snd (SavePort healthy ex_clock ex_port ex_db_port)))) = 1"
proof -
  have a: "distinct (map dev_id (devices ex_db_scan))"
    by (simp add: ex_db_scan_eq)
  have b: "uniqueness_invariant ex_db_scan"
    by (simp add: ex_db_scan_eq uniqueness_invariant_def)
  have c: "SaveDevice healthy ex_clock ex_device ex_db_scan = (Inr 1, ex_db_device)"
    unfolding ex_db_device_eq ex_db_scan_eq
    by (simp add: store_defs healthy_def ex_clock_def ex_device_def)
  have d: "length (changes ex_db_device) = length (changes ex_db_scan) + 1"
    by (simp add: ex_db_device_eq ex_db_scan_eq)
  have e: "distinct (map port_id (ports ex_db_device))"
    by (simp add: ex_db_device_eq)
  have f: "uniqueness_invariant ex_db_device"
    by (simp add: ex_db_device_eq uniqueness_invariant_def device_key_def)
  have g: "SavePort healthy ex_clock ex_port ex_db_device = (Inr (), ex_db_port)"
    unfolding ex_db_port_eq ex_db_device_eq
    by (simp add: store_defs healthy_def ex_clock_def ex_port_def Itoa_80)
  have h: "length (changes ex_db_port) = length (changes ex_db_device) + 1"
    by (simp add: ex_db_port_eq)
  note t = reobservation_idempotent
    [of ex_db_scan healthy ex_clock ex_device 1 ex_db_device healthy ex_clock
        ex_db_device ex_port "()" ex_db_port]
  from t a b c
  have dev: "snd (SaveDevice healthy ex_clock ex_device ex_db_device) = ex_db_device"
    "length (filter (\<lambda>r. device_key r = (IPAddress ex_device, Some (MACAddress ex_device)))
               (devices (snd (SaveDevice healthy ex_clock ex_device ex_db_device)))) = 1"
    by blast+
  from t e f g
  have prt: "snd (SavePort healthy ex_clock ex_port ex_db_port) = ex_db_port"
    "length (filter (\<lambda>r. port_key r = (DeviceID ex_port, PortNumber ex_port, Protocol ex_port))
               (ports (snd (SavePort healthy ex_clock ex_port ex_db_port)))) = 1"
    by blast+
  from c d g h dev prt show ?thesis by blast
qed

subsection \<open>All or nothing\<close>

lemma record_change_cases:
  "record_change c w i ty det ts =
     (let sid = (case fault c SelectMaxScan of Some e \<Rightarrow> 1 | None \<Rightarrow> max_scan_id w)
      in if fault c InsertChange = None
            \<and> (foreign_keys c \<longrightarrow> scan_exists w sid \<and> device_exists w i)
         then w\<lparr>changes := changes w @
                  [\<lparr>change_id = fresh_id (seq_changes w) (map change_id (changes w)),
                    chg_scan_id = sid, chg_device_id = i, change_type = ty, details = det,
                    chg_timestamp = ts\<rparr>],
                seq_changes := fresh_id (seq_changes w) (map change_id (changes w))\<rparr>
         else w)"
  by (auto simp: record_change_def insert_change_def Let_def split: option.splits)

lemma SaveDevice_insert_Inr:
  assumes "SaveDevice_insert c k device rt d = (Inr i, Some d1)"
  shows "\<exists>w. insert_device d (IPAddress device) (Some (MACAddress device))
               (Some (Hostname device)) (Some (OSFingerprint device)) rt rt = Inr (i, w)
           \<and> d1 = record_change c w i ''new_device''
                    (''New device discovered: '' @ IPAddress device) (now_change k)"
  using assms
  by (auto simp: SaveDevice_insert_def commit_def split: option.splits sum.splits prod.splits)

lemma SaveDevice_update_Inr:
  assumes "SaveDevice_update c k device rt j d = (Inr i, Some d1)"
  shows "i = j
     \<and> (\<exists>h0 o0 m0. select_device_old d j = Some (Some h0, Some o0, m0)
          \<and> (let oldMac = (case m0 of Some m \<Rightarrow> m | None \<Rightarrow> []);
                  changed = hasChanges device oldMac h0 o0
              in if changed \<or> After (LastSeen device) (now_check k - Hour)
                 then \<exists>w. update_device d j
                             (Some (if MACAddress device = [] then oldMac
                                    else MACAddress device))
                             (Some (if Hostname device = [] then h0 else Hostname device))
                             (Some (if OSFingerprint device = [] then o0
                                    else OSFingerprint device)) rt = Inr w
                         \<and> d1 = (if changed
                                 then record_change c w j ''device_change''
                                        (changeDetails device oldMac h0 o0) (now_change k)
                                 else w)
                 else d1 = d))"
proof -
  from assms obtain h0 o0 m0 where
    old: "select_device_old d j = Some (Some h0, Some o0, m0)"
    by (auto simp: SaveDevice_update_def split: option.splits)
  show ?thesis
    using assms old
    by (auto simp: SaveDevice_update_def Let_def commit_def
        split: option.splits sum.splits if_splits)
qed

lemma SavePort_insert_Inr:
  assumes "SavePort_insert c k port rt d = (Inr u, Some d1)"
  shows "\<exists>i w. insert_port c d (DeviceID port) (PortNumber port) (Protocol port)
                 (Some (ServiceName port)) (Some (ServiceVersion port)) rt rt = Inr (i, w)
           \<and> d1 = record_change c w (DeviceID port) ''new_port''
                    (''New port discovered: '' @ Itoa (PortNumber port) @ ''/''
                       @ Protocol port @ '' - '' @ ServiceName port)
                    (now_change k)"
  using assms
  by (auto simp: SavePort_insert_def commit_def split: option.splits sum.splits prod.splits)

lemma SavePort_update_Inr:
  assumes "SavePort_update c k port rt j n v d = (Inr u, Some d1)"
  shows "(let changed = serviceChanged port n v;
              sname = (if ServiceName port = [] then n else ServiceName port);
              sversion = (if ServiceVersion port = [] then v else ServiceVersion port)
          in if changed \<or> After (PortLastSeen port) (now_check k - Hour)
             then d1 = (if changed
                        then record_change c (update_port d j (Some sname) (Some sversion) rt)
                               (DeviceID port) ''port_change''
                               (''Service on port '' @ Itoa (PortNumber port) @ ''/''
                                  @ Protocol port @ '' changed: '' @ n @ '' '' @ v @ '' -> ''
                                  @ sname @ '' '' @ sversion)
                               (now_change k)
                        else update_port d j (Some sname) (Some sversion) rt)
             else d1 = d)"
  using assms
  by (auto simp: SavePort_update_def Let_def commit_def split: option.splits if_splits)

text \<open>
  C6, amended. \<open>SaveDevice\<close>, \<open>SavePort\<close> and \<open>CleanOldData\<close> run their statements on the
  working copy of one transaction. When such a call returns an error, whichever statement
  failed and whatever had been written before it, the stored state is exactly the one from
  before the call. When it returns success, the stored state is the working copy after the
  last statement: the inserted or updated row together with what \<open>record_change\<close> made of
  the change record, respectively the result of the four deletions in their order. The
  change record is best effort: it is appended when its \<open>INSERT\<close> is accepted, and when the
  \<open>INSERT\<close> fails or is refused by a foreign key the failure is only logged, the working
  copy stays as the row statement left it, and the call still commits and succeeds.
\<close>

theorem mutations_all_or_nothing:
  "(fst (SaveDevice c k device d) = Inl e1 \<longrightarrow> snd (SaveDevice c k device d) = d)
   \<and> (fst (SavePort c k port d) = Inl e2 \<longrightarrow> snd (SavePort c k port d) = d)
   \<and> (fst (CleanOldData c now retentionDays d) = Inl e3 \<longrightarrow>
        snd (CleanOldData c now retentionDays d) = d)
   \<and> (SaveDevice c k device d = (Inr i, d1) \<longrightarrow>
        (let rt = Truncate (now_round k) Hour in
         case select_device_id d (IPAddress device) (Some (MACAddress device)) of
           None \<Rightarrow>
             (\<exists>w. insert_device d (IPAddress device) (Some (MACAddress device))
                     (Some (Hostname device)) (Some (OSFingerprint device)) rt rt = Inr (i, w)
                 \<and> d1 = record_change c w i ''new_device''
                          (''New device discovered: '' @ IPAddress device) (now_change k))
         | Some j \<Rightarrow>
             i = j
             \<and> (\<exists>h0 o0 m0. select_device_old d j = Some (Some h0, Some o0, m0)
                  \<and> (let oldMac = (case m0 of Some m \<Rightarrow> m | None \<Rightarrow> []);
                          changed = hasChanges device oldMac h0 o0
                      in if changed \<or> After (LastSeen device) (now_check k - Hour)
                         then \<exists>w. update_device d j
                                     (Some (if MACAddress device = [] then oldMac
                                            else MACAddress device))
                                     (Some (if Hostname device = [] then h0
                                            else Hostname device))
                                     (Some (if OSFingerprint device = [] then o0
                                            else OSFingerprint device)) rt = Inr w
                                 \<and> d1 = (if changed
                                         then record_change c w j ''device_change''
                                                (changeDetails device oldMac h0 o0)
                                                (now_change k)
                                         else w)
                         else d1 = d))))
   \<and> (SavePort c k port d = (Inr u, d2) \<longrightarrow>
        (let rt = Truncate (now_round k) Hour in
         case select_port d (DeviceID port) (PortNumber port) (Protocol port) of
           None \<Rightarrow>
             (\<exists>p w. insert_port c d (DeviceID port) (PortNumber port) (Protocol port)
                       (Some (ServiceName port)) (Some (ServiceVersion port)) rt rt
                         = Inr (p, w)
                 \<and> d2 = record_change c w (DeviceID port) ''new_port''
                          (''New port discovered: '' @ Itoa (PortNumber port) @ ''/''
                             @ Protocol port @ '' - '' @ ServiceName port)
                          (now_change k))
         | Some (j, sn, sv) \<Rightarrow>
             (\<exists>n v. sn = Some n \<and> sv = Some v
                \<and> (let changed = serviceChanged port n v;
                        sname = (if ServiceName port = [] then n else ServiceName port);
                        sversion = (if ServiceVersion port = [] then v
                                    else ServiceVersion port)
                    in if changed \<or> After (PortLastSeen port) (now_check k - Hour)
                       then d2 = (if changed
                                  then record_change c
                                         (update_port d j (Some sname) (Some sversion) rt)
                                         (DeviceID port) ''port_change''
                                         (''Service on port '' @ Itoa (PortNumber port)
                                            @ ''/'' @ Protocol port @ '' changed: '' @ n
                                            @ '' '' @ v @ '' -> '' @ sname @ '' '' @ sversion)
                                         (now_change k)
                                  else update_port d j (Some sname) (Some sversion) rt)
                       else d2 = d))))
   \<and> (CleanOldData c now retentionDays d = (Inr m, d3) \<longrightarrow>
        (let cutoff = AddDays now (- retentionDays) in
         d3 = snd (delete_logs cutoff (snd (delete_devices c cutoff
                (snd (delete_scans c cutoff (snd (delete_changes cutoff d)))))))))
   \<and> record_change c w0 i0 ty det ts =
        (let sid = (case fault c SelectMaxScan of Some e \<Rightarrow> 1 | None \<Rightarrow> max_scan_id w0)
         in if fault c InsertChange = None
               \<and> (foreign_keys c \<longrightarrow> scan_exists w0 sid \<and> device_exists w0 i0)
            then w0\<lparr>changes := changes w0 @
                     [\<lparr>change_id = fresh_id (seq_changes w0) (map change_id (changes w0)),
                       chg_scan_id = sid, chg_device_id = i0, change_type = ty,
                       details = det, chg_timestamp = ts\<rparr>],
                   seq_changes := fresh_id (seq_changes w0) (map change_id (changes w0))\<rparr>
            else w0)"
proof (intro conjI impI)
  assume "fst (SaveDevice c k device d) = Inl e1"
  then show "snd (SaveDevice c k device d) = d"
    unfolding SaveDevice_def
    by (cases "fault c TxBegin")
       (auto simp: deferred_rollback_def split: prod.splits option.splits
          dest: SaveDevice_tx_error)
next
  assume "fst (SavePort c k port d) = Inl e2"
  then show "snd (SavePort c k port d) = d"
    unfolding SavePort_def
    by (cases "fault c TxBegin")
       (auto simp: deferred_rollback_def split: prod.splits option.splits
          dest: SavePort_tx_error)
next
  assume "fst (CleanOldData c now retentionDays d) = Inl e3"
  then show "snd (CleanOldData c now retentionDays d) = d"
    unfolding CleanOldData_def Let_def
    by (cases "fault c TxBegin")
       (auto simp: deferred_rollback_def split: prod.splits option.splits
          dest: CleanOldData_tx_error)
next
  assume a: "SaveDevice c k device d = (Inr i, d1)"
  from SaveDevice_Inr [OF a]
  show "let rt = Truncate (now_round k) Hour in
         case select_device_id d (IPAddress device) (Some (MACAddress device)) of
           None \<Rightarrow>
             (\<exists>w. insert_device d (IPAddress device) (Some (MACAddress device))
                     (Some (Hostname device)) (Some (OSFingerprint device)) rt rt = Inr (i, w)
                 \<and> d1 = record_change c w i ''new_device''
                          (''New device discovered: '' @ IPAddress device) (now_change k))
         | Some j \<Rightarrow>
             i = j
             \<and> (\<exists>h0 o0 m0. select_device_old d j = Some (Some h0, Some o0, m0)
                  \<and> (let oldMac = (case m0 of Some m \<Rightarrow> m | None \<Rightarrow> []);
                          changed = hasChanges device oldMac h0 o0
                      in if changed \<or> After (LastSeen device) (now_check k - Hour)
                         then \<exists>w. update_device d j
                                     (Some (if MACAddress device = [] then oldMac
                                            else MACAddress device))
                                     (Some (if Hostname device = [] then h0
                                            else Hostname device))
                                     (Some (if OSFingerprint device = [] then o0
                                            else OSFingerprint device)) rt = Inr w
                                 \<and> d1 = (if changed
                                         then record_change c w j ''device_change''
                                                (changeDetails device oldMac h0 o0)
                                                (now_change k)
                                         else w)
                         else d1 = d))"
  proof (elim disjE conjE exE)
    assume "select_device_id d (IPAddress device) (Some (MACAddress device)) = None"
      and "SaveDevice_insert c k device (Truncate (now_round k) Hour) d = (Inr i, Some d1)"
    with SaveDevice_insert_Inr [of c k device "Truncate (now_round k) Hour" d i d1]
    show ?thesis by (simp add: Let_def)
  next
    fix j
    assume "select_device_id d (IPAddress device) (Some (MACAddress device)) = Some j"
      and "SaveDevice_update c k device (Truncate (now_round k) Hour) j d = (Inr i, Some d1)"
    with SaveDevice_update_Inr [of c k device "Truncate (now_round k) Hour" j d i d1]
    show ?thesis by (simp add: Let_def)
  qed
next
  assume a: "SavePort c k port d = (Inr u, d2)"
  from SavePort_Inr [OF a]
  show "let rt = Truncate (now_round k) Hour in
         case select_port d (DeviceID port) (PortNumber port) (Protocol port) of
           None \<Rightarrow>
             (\<exists>p w. insert_port c d (DeviceID port) (PortNumber port) (Protocol port)
                       (Some (ServiceName port)) (Some (ServiceVersion port)) rt rt
                         = Inr (p, w)
                 \<and> d2 = record_change c w (DeviceID port) ''new_port''
                          (''New port discovered: '' @ Itoa (PortNumber port) @ ''/''
                             @ Protocol port @ '' - '' @ ServiceName port)
                          (now_change k))
         | Some (j, sn, sv) \<Rightarrow>
             (\<exists>n v. sn = Some n \<and> sv = Some v
                \<and> (let changed = serviceChanged port n v;
                        sname = (if ServiceName port = [] then n else ServiceName port);
                        sversion = (if ServiceVersion port = [] then v
                                    else ServiceVersion port)
                    in if changed \<or> After (PortLastSeen port) (now_check k - Hour)
                       then d2 = (if changed
                                  then record_change c
                                         (update_port d j (Some sname) (Some sversion) rt)
                                         (DeviceID port) ''port_change''
                                         (''Service on port '' @ Itoa (PortNumber port)
                                            @ ''/'' @ Protocol port @ '' changed: '' @ n
                                            @ '' '' @ v @ '' -> '' @ sname @ '' '' @ sversion)
                                         (now_change k)
                                  else update_port d j (Some sname) (Some sversion) rt)
                       else d2 = d))"
  proof (elim disjE conjE exE)
    assume "select_port d (DeviceID port) (PortNumber port) (Protocol port) = None"
      and "SavePort_insert c k port (Truncate (now_round k) Hour) d = (Inr u, Some d2)"
    with SavePort_insert_Inr [of c k port "Truncate (now_round k) Hour" d u d2]
    show ?thesis by (simp add: Let_def)
  next
    fix j n v
    assume "select_port d (DeviceID port) (PortNumber port) (Protocol port)
              = Some (j, Some n, Some v)"
      and "SavePort_update c k port (Truncate (now_round k) Hour) j n v d = (Inr u, Some d2)"
    with SavePort_update_Inr [of c k port "Truncate (now_round k) Hour" j n v d u d2]
    show ?thesis by (simp add: Let_def)
  qed
next
  assume "CleanOldData c now retentionDays d = (Inr m, d3)"
  from CleanOldData_Inr(1) [OF this]
  show "let cutoff = AddDays now (- retentionDays) in
         d3 = snd (delete_logs cutoff (snd (delete_devices c cutoff
                (snd (delete_scans c cutoff (snd (delete_changes cutoff d)))))))"
    by (simp add: Let_def)
next
  show "record_change c w0 i0 ty det ts =
        (let sid = (case fault c SelectMaxScan of Some e \<Rightarrow> 1 | None \<Rightarrow> max_scan_id w0)
         in if fault c InsertChange = None
               \<and> (foreign_keys c \<longrightarrow> scan_exists w0 sid \<and> device_exists w0 i0)
            then w0\<lparr>changes := changes w0 @
                     [\<lparr>change_id = fresh_id (seq_changes w0) (map change_id (changes w0)),
                       chg_scan_id = sid, chg_device_id = i0, change_type = ty,
                       details = det, chg_timestamp = ts\<rparr>],
                   seq_changes := fresh_id (seq_changes w0) (map change_id (changes w0))\<rparr>
            else w0)"
    by (rule record_change_cases)
qed

lemma ex_insert_device:
  "insert_device ex_db_scan (IPAddress ex_device) (Some (MACAddress ex_device))
      (Some (Hostname ex_device)) (Some (OSFingerprint ex_device))
      (Truncate (now_round ex_clock) Hour) (Truncate (now_round ex_clock) Hour)
     = Inr (1, ex_db_scan\<lparr>devices :=
         [\<lparr>dev_id = 1, ip_address = ''203.0.113.5'',
           mac_address = Some ''00:11:22:33:44:55'', hostname = Some ''printer'',
           os_fingerprint = Some ''Linux 5.10'', dev_first_seen = 480000 * Hour,
           dev_last_seen = 480000 * Hour\<rparr>],
         seq_devices := 1\<rparr>)"
  unfolding ex_db_scan_eq
  by (simp add: store_defs ex_clock_def ex_device_def)

theorem mutations_all_or_nothing_witness:
  "fst (SaveDevice ex_conn_commit_fails ex_clock ex_device ex_db_scan)
     = Inl (Error ''failed to commit transaction: disk I/O error'')
   \<and> snd (SaveDevice ex_conn_commit_fails ex_clock ex_device ex_db_scan) = ex_db_scan
   \<and> fst (SavePort ex_conn_commit_fails ex_clock ex_port ex_db_device)
     = Inl (Error ''failed to commit transaction: disk I/O error'')
   \<and> snd (SavePort ex_conn_commit_fails ex_clock ex_port ex_db_device) = ex_db_device
   \<and> fst (CleanOldData ex_conn_commit_fails (490000 * Hour) 30 ex_db_device)
     = Inl (Error ''failed to commit transaction: disk I/O error'')
   \<and> snd (CleanOldData ex_conn_commit_fails (490000 * Hour) 30 ex_db_device) = ex_db_device
   \<and> SaveDevice healthy ex_clock ex_device ex_db_scan = (Inr 1, ex_db_device)
   \<and> select_device_id ex_db_scan (IPAddress ex_device) (Some (MACAddress ex_device)) = None
   \<and> ex_db_device
       = record_change healthy
           (ex_db_scan\<lparr>devices :=
              [\<lparr>dev_id = 1, ip_address = ''203.0.113.5'',
                mac_address = Some ''00:11:22:33:44:55'', hostname = Some ''printer'',
                os_fingerprint = Some ''Linux 5.10'', dev_first_seen = 480000 * Hour,
                dev_last_seen = 480000 * Hour\<rparr>],
              seq_devices := 1\<rparr>)
           1 ''new_device'' (''New device discovered: '' @ IPAddress ex_device)
           (now_change ex_clock)
   \<and> CleanOldData healthy ex_now 30 ex_db_retention
       = (Inr 3,
          ex_db_retention\<lparr>
            devices := [hd (devices ex_db_retention)],
            ports := [hd (ports ex_db_retention)],
            scans := [last (scans ex_db_retention)],
            changes := [last (changes ex_db_retention)]\<rparr>)
   \<and> ex_db_retention\<lparr>
            devices := [hd (devices ex_db_retention)],
            ports := [hd (ports ex_db_retention)],
            scans := [last (scans ex_db_retention)],
            changes := [last (changes ex_db_retention)]\<rparr>
       = snd (delete_logs (AddDays ex_now (- 30))
           (snd (delete_devices healthy (AddDays ex_now (- 30))
             (snd (delete_scans healthy (AddDays ex_now (- 30))
               (snd (delete_changes (AddDays ex_now (- 30)) ex_db_retention)))))))"
proof -
  let ?e = "Error ''failed to commit transaction: disk I/O error''"
  have a: "fst (SaveDevice ex_conn_commit_fails ex_clock ex_device ex_db_scan) = Inl ?e"
    unfolding ex_db_scan_eq
    by (simp add: store_defs ex_conn_commit_fails_def ex_clock_def ex_device_def)
  have b: "fst (SavePort ex_conn_commit_fails ex_clock ex_port ex_db_device) = Inl ?e"
    unfolding ex_db_device_eq
    by (simp add: store_defs ex_conn_commit_fails_def ex_clock_def ex_port_def Itoa_80)
  have c: "fst (CleanOldData ex_conn_commit_fails (490000 * Hour) 30 ex_db_device) = Inl ?e"
    unfolding ex_db_device_eq
    by (simp add: CleanOldData_def CleanOldData_tx_def delete_changes_def delete_scans_def
        delete_devices_def delete_logs_def commit_def deferred_rollback_def
        ex_conn_commit_fails_def Let_def)
  have d: "SaveDevice healthy ex_clock ex_device ex_db_scan = (Inr 1, ex_db_device)"
    unfolding ex_db_device_eq ex_db_scan_eq
    by (simp add: store_defs healthy_def ex_clock_def ex_device_def)
  have n: "select_device_id ex_db_scan (IPAddress ex_device) (Some (MACAddress ex_device))
      = None"
    by (simp add: ex_db_scan_eq select_device_id_def)
  from mutations_all_or_nothing
    [where c = ex_conn_commit_fails and k = ex_clock and device = ex_device
       and d = ex_db_scan and ?e1.0 = ?e] a
  have a': "snd (SaveDevice ex_conn_commit_fails ex_clock ex_device ex_db_scan) = ex_db_scan"
    by blast
  from mutations_all_or_nothing
    [where c = ex_conn_commit_fails and k = ex_clock and port = ex_port
       and d = ex_db_device and ?e2.0 = ?e] b
  have b': "snd (SavePort ex_conn_commit_fails ex_clock ex_port ex_db_device) = ex_db_device"
    by blast
  from mutations_all_or_nothing
    [where c = ex_conn_commit_fails and now = "490000 * Hour" and retentionDays = 30
       and d = ex_db_device and ?e3.0 = ?e] c
  have c': "snd (CleanOldData ex_conn_commit_fails (490000 * Hour) 30 ex_db_device)
      = ex_db_device"
    by blast
  from mutations_all_or_nothing
    [where c = healthy and k = ex_clock and device = ex_device and d = ex_db_scan
       and i = 1 and ?d1.0 = ex_db_device] d
  have "let rt = Truncate (now_round ex_clock) Hour in
         case select_device_id ex_db_scan (IPAddress ex_device) (Some (MACAddress ex_device)) of
           None \<Rightarrow>
             (\<exists>w. insert_device ex_db_scan (IPAddress ex_device) (Some (MACAddress ex_device))
                     (Some (Hostname ex_device)) (Some (OSFingerprint ex_device)) rt rt
                       = Inr (1, w)
                 \<and> ex_db_device = record_change healthy w 1 ''new_device''
                          (''New device discovered: '' @ IPAddress ex_device)
                          (now_change ex_clock))
         | Some j \<Rightarrow> 1 = j
             \<and> (\<exists>h0 o0 m0. select_device_old ex_db_scan j = Some (Some h0, Some o0, m0)
                  \<and> (let oldMac = (case m0 of Some m \<Rightarrow> m | None \<Rightarrow> []);
                          changed = hasChanges ex_device oldMac h0 o0
                      in if changed \<or> After (LastSeen ex_device) (now_check ex_clock - Hour)
                         then \<exists>w. update_device ex_db_scan j
                                     (Some (if MACAddress ex_device = [] then oldMac
                                            else MACAddress ex_device))
                                     (Some (if Hostname ex_device = [] then h0
                                            else Hostname ex_device))
                                     (Some (if OSFingerprint ex_device = [] then o0
                                            else OSFingerprint ex_device)) rt = Inr w
                                 \<and> ex_db_device = (if changed
                                         then record_change healthy w j ''device_change''
                                                (changeDetails ex_device oldMac h0 o0)
                                                (now_change ex_clock)
                                         else w)
                         else ex_db_device = ex_db_scan))"
    by blast
  with n ex_insert_device
  have d': "ex_db_device
       = record_change healthy
           (ex_db_scan\<lparr>devices :=
              [\<lparr>dev_id = 1, ip_address = ''203.0.113.5'',
                mac_address = Some ''00:11:22:33:44:55'', hostname = Some ''printer'',
                os_fingerprint = Some ''Linux 5.10'', dev_first_seen = 480000 * Hour,
                dev_last_seen = 480000 * Hour\<rparr>],
              seq_devices := 1\<rparr>)
           1 ''new_device'' (''New device discovered: '' @ IPAddress ex_device)
           (now_change ex_clock)"
    by (auto simp: Let_def)
  from mutations_all_or_nothing
    [where c = healthy and now = ex_now and retentionDays = 30 and d = ex_db_retention
       and m = 3 and ?d3.0 = "ex_db_retention\<lparr>
            devices := [hd (devices ex_db_retention)],
            ports := [hd (ports ex_db_retention)],
            scans := [last (scans ex_db_retention)],
            changes := [last (changes ex_db_retention)]\<rparr>"] ex_retention_result
  have r': "ex_db_retention\<lparr>
            devices := [hd (devices ex_db_retention)],
            ports := [hd (ports ex_db_retention)],
            scans := [last (scans ex_db_retention)],
            changes := [last (changes ex_db_retention)]\<rparr>
       = snd (delete_logs (AddDays ex_now (- 30))
           (snd (delete_devices healthy (AddDays ex_now (- 30))
             (snd (delete_scans healthy (AddDays ex_now (- 30))
               (snd (delete_changes (AddDays ex_now (- 30)) ex_db_retention)))))))"
    unfolding Let_def by blast
  from a a' b b' c c' d n d' ex_retention_result r' show ?thesis by blast
qed

text \<open>
  C6 as stated fails: on a store with no Scan row the \<open>INSERT\<close> of the change record is
  refused by its foreign key, and with a Scan row present it can fail on its own; in both
  cases \<open>SaveDevice\<close> succeeds and commits the device row without the change record that a
  call with every statement accepted writes alongside it.
\<close>

theorem change_record_dropped_counterexample:
  "SaveDevice healthy ex_clock ex_device empty_db
     = (Inr 1,
        empty_db\<lparr>devices :=
            [\<lparr>dev_id = 1, ip_address = ''203.0.113.5'',
              mac_address = Some ''00:11:22:33:44:55'', hostname = Some ''printer'',
              os_fingerprint = Some ''Linux 5.10'', dev_first_seen = 480000 * Hour,
              dev_last_seen = 480000 * Hour\<rparr>],
          seq_devices := 1\<rparr>)
   \<and> changes (snd (SaveDevice healthy ex_clock ex_device empty_db)) = []
   \<and> SaveDevice ex_conn_change_fails ex_clock ex_device ex_db_scan
     = (Inr 1,
        ex_db_scan\<lparr>devices :=
            [\<lparr>dev_id = 1, ip_address = ''203.0.113.5'',
              mac_address = Some ''00:11:22:33:44:55'', hostname = Some ''printer'',
              os_fingerprint = Some ''Linux 5.10'', dev_first_seen = 480000 * Hour,
              dev_last_seen = 480000 * Hour\<rparr>],
          seq_devices := 1\<rparr>)
   \<and> changes (snd (SaveDevice ex_conn_change_fails ex_clock ex_device ex_db_scan)) = []
   \<and> SaveDevice healthy ex_clock ex_device ex_db_scan = (Inr 1, ex_db_device)
   \<and> map change_type (changes ex_db_device) = [''new_device'']"
proof -
  have a: "SaveDevice healthy ex_clock ex_device empty_db
     = (Inr 1,
        empty_db\<lparr>devices :=
            [\<lparr>dev_id = 1, ip_address = ''203.0.113.5'',
              mac_address = Some ''00:11:22:33:44:55'', hostname = Some ''printer'',
              os_fingerprint = Some ''Linux 5.10'', dev_first_seen = 480000 * Hour,
              dev_last_seen = 480000 * Hour\<rparr>],
          seq_devices := 1\<rparr>)"
    by (simp add: store_defs healthy_def ex_clock_def ex_device_def empty_db_def)
  have b: "SaveDevice ex_conn_change_fails ex_clock ex_device ex_db_scan
     = (Inr 1,
        ex_db_scan\<lparr>devices :=
            [\<lparr>dev_id = 1, ip_address = ''203.0.113.5'',
              mac_address = Some ''00:11:22:33:44:55'', hostname = Some ''printer'',
              os_fingerprint = Some ''Linux 5.10'', dev_first_seen = 480000 * Hour,
              dev_last_seen = 480000 * Hour\<rparr>],
          seq_devices := 1\<rparr>)"
    unfolding ex_db_scan_eq
    by (simp add: store_defs ex_conn_change_fails_def ex_clock_def ex_device_def)
  have c: "SaveDevice healthy ex_clock ex_device ex_db_scan = (Inr 1, ex_db_device)"
    unfolding ex_db_device_eq ex_db_scan_eq
    by (simp add: store_defs healthy_def ex_clock_def ex_device_def)
  have d: "map change_type (changes ex_db_device) = [''new_device'']"
    by (simp add: ex_db_device_eq)
  have e: "changes (snd (SaveDevice healthy ex_clock ex_device empty_db)) = []"
    unfolding a by (simp add: empty_db_def)
  have f: "changes (snd (SaveDevice ex_conn_change_fails ex_clock ex_device ex_db_scan)) = []"
    unfolding b by (simp add: ex_db_scan_eq)
  from a b c d e f show ?thesis by blast
qed

end
